theory Spec2Isabelle
  imports Complex_Main "HOL-Library.Word" "HOL-Library.Char_ord" "HOL-Library.List_Lexorder"
begin

section \<open>Errors\<close>

text \<open>
  The program of \<^verbatim>\<open>VAE.py\<close> handles no error: every exception raised by Python, NumPy or
  TensorFlow ends the run. The model returns them as values, \<open>Inl\<close> of the exception.
  \<open>NotANumber\<close> is no exception: it stands for a result that TensorFlow gives as NaN, for
  which the real numbers of the model have no value.
\<close>

datatype error =
    UnboundLocalError
  | IndexError
  | ValueError
  | InvalidArgumentError
  | NotANumber

section \<open>Assembling the animation: \<^verbatim>\<open>draw_gif\<close>\<close>

text \<open>
  \<^verbatim>\<open>frame = 2 * (i**0.5)\<close> for the position \<open>i\<close> of a file in the sorted list. The float is
  modelled by the real number it approximates.
\<close>

definition frame :: "nat \<Rightarrow> real" where
  "frame i = 2 * sqrt (real i)"

text \<open>
  Python 3's one-argument \<^verbatim>\<open>round\<close>: the nearest integer, a tie going to the even neighbour.
\<close>

definition py_round :: "real \<Rightarrow> int" where
  "py_round x =
     (let f = \<lfloor>x\<rfloor>; d = x - of_int f
      in if d < 1 / 2 then f
         else if 1 / 2 < d then f + 1
         else if even f then f else f + 1)"

text \<open>
  The state of the loop of \<^verbatim>\<open>draw_gif\<close>: the local \<^verbatim>\<open>last\<close>, the loop variable
  \<^verbatim>\<open>filename\<close> (unbound until the first iteration) and the files whose images were read and
  appended to the writer so far, in order.
\<close>

record gif_state =
  last_v :: real
  filename :: "string option"
  appended :: "string list"

fun gif_loop :: "(nat \<times> string) list \<Rightarrow> gif_state \<Rightarrow> gif_state" where
  "gif_loop [] s = s"
| "gif_loop ((i, fname) # rest) s =
     (let s1 = s\<lparr>filename := Some fname\<rparr>
      in if py_round (frame i) > py_round (last_v s1)
         then gif_loop rest (s1\<lparr>last_v := frame i, appended := appended s1 @ [fname]\<rparr>)
         else gif_loop rest s1)"

text \<open>
  \<^verbatim>\<open>draw_gif\<close>, from the list that \<^verbatim>\<open>glob.glob('image*.png')\<close> returned to the sequence of
  files whose images end up in the animation. After the loop the image of \<^verbatim>\<open>filename\<close> is
  read and appended once more; with no file at all that name was never bound.
\<close>

definition draw_gif :: "string list \<Rightarrow> error + string list" where
  "draw_gif globbed =
     (let filenames = sort globbed;
          s = gif_loop (enumerate 0 filenames) \<lparr>last_v = - 1, filename = None, appended = []\<rparr>
      in case filename s of
           None \<Rightarrow> Inl UnboundLocalError
         | Some fname \<Rightarrow> Inr (appended s @ [fname]))"

text \<open>
  The selection criterion spelled out on positions: a position is kept when its rounded
  frame value exceeds that of every earlier position.
\<close>

definition kept :: "nat \<Rightarrow> bool" where
  "kept i = (\<forall>j < i. py_round (frame j) < py_round (frame i))"

definition selected :: "nat \<Rightarrow> nat list" where
  "selected n = filter kept [0..<n]"

text \<open>An integer computation of the rounded frame value, for evaluating the loop.\<close>

primrec nf_search :: "nat \<Rightarrow> nat \<Rightarrow> nat" where
  "nf_search n 0 = 0"
| "nf_search n (Suc k) = (if Suc k * k < n then Suc k else nf_search n k)"

definition nearest_frame :: "nat \<Rightarrow> nat" where
  "nearest_frame i = nf_search (4 * i) (4 * i)"

text \<open>
  The invariant of the loop before position \<open>k\<close>: the rounded value of \<^verbatim>\<open>last\<close> is the
  largest rounded frame value seen so far, or the initial \<open>-1\<close>.
\<close>

definition running_max :: "nat \<Rightarrow> int \<Rightarrow> bool" where
  "running_max k v \<longleftrightarrow>
     (\<forall>j < k. py_round (frame j) \<le> v) \<and> (v = - 1 \<or> (\<exists>j < k. v = py_round (frame j)))"

section \<open>Arrays and tensors\<close>

text \<open>
  A NumPy array or TensorFlow tensor: its shape and its elements in row-major order.
  Both libraries keep \<open>length (data t) = prod_list (shape t)\<close>. Elements of type
  \<^verbatim>\<open>float32\<close> are modelled by real numbers: rounding, overflow and NaN are outside the model.
\<close>

record 'a tensor =
  shape :: "nat list"
  data :: "'a list"

definition well_shaped :: "'a tensor \<Rightarrow> bool" where
  "well_shaped t \<longleftrightarrow> length (data t) = prod_list (shape t)"

definition scalar :: "'a \<Rightarrow> 'a tensor" where
  "scalar v = \<lparr>shape = [], data = [v]\<rparr>"

text \<open>The \<open>i\<close>-th block of \<open>n\<close> consecutive elements.\<close>

definition block :: "nat \<Rightarrow> nat \<Rightarrow> 'a list \<Rightarrow> 'a list" where
  "block n i xs = take n (drop (i * n) xs)"

section \<open>Data preparation: \<^verbatim>\<open>prepare_data\<close>\<close>

text \<open>
  \<^verbatim>\<open>images.reshape(images.shape[0], 28, 28, 1)\<close>: indexing the shape of a zero-dimensional
  array fails, and so does a reshape that changes the number of elements.
\<close>

definition reshape_images :: "'a tensor \<Rightarrow> error + 'a tensor" where
  "reshape_images images =
     (case shape images of
        [] \<Rightarrow> Inl IndexError
      | n # _ \<Rightarrow>
          if prod_list (shape images) = n * 28 * 28 * 1
          then Inr \<lparr>shape = [n, 28, 28, 1], data = data images\<rparr>
          else Inl ValueError)"

text \<open>\<^verbatim>\<open>.astype('float32')\<close> on the \<^verbatim>\<open>uint8\<close> pixels of the dataset.\<close>

definition astype_float32 :: "8 word tensor \<Rightarrow> real tensor" where
  "astype_float32 t = \<lparr>shape = shape t, data = map (\<lambda>p. real (unat p)) (data t)\<rparr>"

text \<open>\<^verbatim>\<open>images /= 255.\<close>\<close>

definition divide_by :: "real tensor \<Rightarrow> real \<Rightarrow> real tensor" where
  "divide_by t c = t\<lparr>data := map (\<lambda>v. v / c) (data t)\<rparr>"

text \<open>\<^verbatim>\<open>images[mask] = v\<close>, the mask being a comparison of the array itself.\<close>

definition assign_where :: "(real \<Rightarrow> bool) \<Rightarrow> real \<Rightarrow> real tensor \<Rightarrow> real tensor" where
  "assign_where sel v t = t\<lparr>data := map (\<lambda>x. if sel x then v else x) (data t)\<rparr>"

text \<open>
  The statements that \<^verbatim>\<open>prepare_data\<close> applies to each of the two image arrays after the
  reshape: conversion, normalisation and the two masked assignments of the binarization,
  in the order of the source.
\<close>

definition binarize :: "real tensor \<Rightarrow> real tensor" where
  "binarize images =
     (let images = assign_where (\<lambda>x. x \<ge> 0.5) 1 images;
          images = assign_where (\<lambda>x. x < 0.5) 0 images
      in images)"

definition normalize :: "8 word tensor \<Rightarrow> real tensor" where
  "normalize images = divide_by (astype_float32 images) 255"

text \<open>
  \<^verbatim>\<open>tf.data.Dataset.from_tensor_slices(images).shuffle(buf).batch(n)\<close>. The dataset holds
  the slices of the array along its first axis. Each iteration draws a new order of the
  elements (the parameter \<open>order\<close> of \<open>iterate\<close>, a permutation of the positions) and
  yields them stacked in batches of \<open>n\<close>, the last batch possibly smaller.
\<close>

record dataset =
  elements :: "real tensor list"
  buffer_size :: nat
  batch_size :: nat

definition from_tensor_slices :: "real tensor \<Rightarrow> error + real tensor list" where
  "from_tensor_slices t =
     (case shape t of
        [] \<Rightarrow> Inl ValueError
      | n # s \<Rightarrow> Inr (map (\<lambda>i. \<lparr>shape = s, data = block (prod_list s) i (data t)\<rparr>) [0..<n]))"

function chunks :: "nat \<Rightarrow> 'a list \<Rightarrow> 'a list list" where
  "chunks n xs = (if n = 0 \<or> xs = [] then [] else take n xs # chunks n (drop n xs))"
  by pat_completeness auto
termination
  by (relation "measure (\<lambda>(n, xs). length xs)") auto

declare chunks.simps [simp del]

definition stack :: "'a tensor list \<Rightarrow> 'a tensor" where
  "stack ts = \<lparr>shape = length ts # (case ts of [] \<Rightarrow> [] | t # _ \<Rightarrow> shape t),
               data = concat (map data ts)\<rparr>"

definition iterate :: "dataset \<Rightarrow> nat list \<Rightarrow> real tensor list" where
  "iterate ds order = map stack (chunks (batch_size ds) (map ((!) (elements ds)) order))"

definition is_order :: "nat list \<Rightarrow> dataset \<Rightarrow> bool" where
  "is_order order ds \<longleftrightarrow> distinct order \<and> set order = {..<length (elements ds)}"

definition prepare_data :: "8 word tensor \<times> 8 word tensor \<Rightarrow> error + dataset \<times> dataset" where
  "prepare_data loaded =
     (case loaded of (train_images, test_images) \<Rightarrow>
      case reshape_images train_images of Inl e \<Rightarrow> Inl e | Inr train_images \<Rightarrow>
      case reshape_images test_images of Inl e \<Rightarrow> Inl e | Inr test_images \<Rightarrow>
      let train_images = normalize train_images;
          test_images = normalize test_images;
          train_images = binarize train_images;
          test_images = binarize test_images;
          TRAIN_BUF = 60000;
          BATCH_SIZE = 128;
          TEST_BUF = 10000
      in case from_tensor_slices train_images of Inl e \<Rightarrow> Inl e | Inr train_slices \<Rightarrow>
         case from_tensor_slices test_images of Inl e \<Rightarrow> Inl e | Inr test_slices \<Rightarrow>
           Inr (\<lparr>elements = train_slices, buffer_size = TRAIN_BUF, batch_size = BATCH_SIZE\<rparr>,
                \<lparr>elements = test_slices, buffer_size = TEST_BUF, batch_size = BATCH_SIZE\<rparr>))"

text \<open>
  Two small inputs for \<^verbatim>\<open>prepare_data\<close>: one image each, with pixels on both sides of the
  threshold.
\<close>

definition example_train_raw :: "8 word tensor" where
  "example_train_raw = \<lparr>shape = [1, 28, 28], data = replicate 392 128 @ replicate 392 127\<rparr>"

definition example_test_raw :: "8 word tensor" where
  "example_test_raw = \<lparr>shape = [1, 28, 28], data = replicate 784 255\<rparr>"

section \<open>TensorFlow operations\<close>

text \<open>Sequencing of steps that may raise: the first error ends the computation.\<close>

definition and_then :: "error + 'a \<Rightarrow> ('a \<Rightarrow> error + 'b) \<Rightarrow> error + 'b" where
  "and_then r f = (case r of Inl e \<Rightarrow> Inl e | Inr v \<Rightarrow> f v)"

text \<open>
  Broadcasting of two shapes, aligned at the last axis: two sizes are compatible when they
  are equal or one of them is 1. \<open>bshape\<close> works on the reversed shapes.
\<close>

fun bshape :: "nat list \<Rightarrow> nat list \<Rightarrow> nat list option" where
  "bshape [] ys = Some ys"
| "bshape xs [] = Some xs"
| "bshape (x # xs) (y # ys) =
     (if x = y \<or> y = 1 then map_option ((#) x) (bshape xs ys)
      else if x = 1 then map_option ((#) y) (bshape xs ys)
      else None)"

definition broadcast_shape :: "nat list \<Rightarrow> nat list \<Rightarrow> nat list option" where
  "broadcast_shape a b = map_option rev (bshape (rev a) (rev b))"

definition pad_shape :: "nat \<Rightarrow> nat list \<Rightarrow> nat list" where
  "pad_shape r s = replicate (r - length s) 1 @ s"

text \<open>
  The elements of an array of shape \<open>s\<close> repeated to fill the shape \<open>r\<close> of the same rank,
  where each size of \<open>s\<close> is the size of \<open>r\<close> or 1.
\<close>

fun expand :: "nat list \<Rightarrow> nat list \<Rightarrow> 'a list \<Rightarrow> 'a list" where
  "expand (d # s) (e # r) xs =
     (if d = e then concat (map (\<lambda>i. expand s r (block (prod_list s) i xs)) [0..<d])
      else concat (replicate e (expand s r xs)))"
| "expand _ _ xs = xs"

text \<open>
  A binary elementwise operation (\<^verbatim>\<open>+\<close>, \<^verbatim>\<open>-\<close>, \<^verbatim>\<open>*\<close> on tensors), with broadcasting;
  incompatible shapes raise. A Python float operand is the scalar tensor of that value.
\<close>

definition elementwise ::
  "(real \<Rightarrow> real \<Rightarrow> real) \<Rightarrow> real tensor \<Rightarrow> real tensor \<Rightarrow> error + real tensor" where
  "elementwise f a b =
     (case broadcast_shape (shape a) (shape b) of
        None \<Rightarrow> Inl InvalidArgumentError
      | Some r \<Rightarrow>
          Inr \<lparr>shape = r,
               data = map2 f (expand (pad_shape (length r) (shape a)) r (data a))
                             (expand (pad_shape (length r) (shape b)) r (data b))\<rparr>)"

text \<open>A unary elementwise operation (\<^verbatim>\<open>tf.exp\<close>, \<^verbatim>\<open>tf.sigmoid\<close>, negation, \<^verbatim>\<open>**2\<close>).\<close>

definition tmap :: "(real \<Rightarrow> real) \<Rightarrow> real tensor \<Rightarrow> real tensor" where
  "tmap f t = \<lparr>shape = shape t, data = map f (data t)\<rparr>"

text \<open>
  \<^verbatim>\<open>tf.reduce_sum(t, axis)\<close>: the sum along one axis, and along a list of axes (each below
  the rank, none twice), taken from the last of them to the first.
\<close>

definition reduce_axis :: "nat \<Rightarrow> real tensor \<Rightarrow> real tensor" where
  "reduce_axis a t =
     (let s = shape t;
          outer = prod_list (take a s);
          n = s ! a;
          inner = prod_list (drop (Suc a) s)
      in \<lparr>shape = take a s @ drop (Suc a) s,
          data = concat (map (\<lambda>oi. map (\<lambda>k. sum_list (map (\<lambda>j. data t ! ((oi * n + j) * inner + k))
                                                         [0..<n]))
                                     [0..<inner])
                             [0..<outer])\<rparr>)"

definition reduce_sum :: "real tensor \<Rightarrow> nat list \<Rightarrow> error + real tensor" where
  "reduce_sum t axes =
     (if distinct axes \<and> (\<forall>a \<in> set axes. a < length (shape t))
      then Inr (fold reduce_axis (rev (sort axes)) t)
      else Inl InvalidArgumentError)"

text \<open>
  \<^verbatim>\<open>tf.reduce_mean(t)\<close> over all elements, a scalar. The mean of no element is NaN in
  TensorFlow; the model, having no such number, reports it.
\<close>

definition reduce_mean :: "real tensor \<Rightarrow> error + real tensor" where
  "reduce_mean t =
     (if data t = [] then Inl NotANumber
      else Inr (scalar (sum_list (data t) / real (length (data t)))))"

text \<open>
  \<^verbatim>\<open>tf.split(t, num_or_size_splits=2, axis=1)\<close>: the two halves of every example along the
  second axis.
\<close>

definition tf_split :: "real tensor \<Rightarrow> error + real tensor \<times> real tensor" where
  "tf_split t =
     (case shape t of
        b # d # rest \<Rightarrow>
          if even d
          then let row = d * prod_list rest;
                   half = (d div 2) * prod_list rest
               in Inr (\<lparr>shape = b # (d div 2) # rest,
                        data = concat (map (\<lambda>i. take half (block row i (data t))) [0..<b])\<rparr>,
                       \<lparr>shape = b # (d div 2) # rest,
                        data = concat (map (\<lambda>i. drop half (block row i (data t))) [0..<b])\<rparr>)
          else Inl ValueError
      | _ \<Rightarrow> Inl ValueError)"

text \<open>
  \<^verbatim>\<open>tf.nn.sigmoid_cross_entropy_with_logits(logits=x, labels=z)\<close>, computed by TensorFlow
  as \<open>max(x, 0) - x * z + log(1 + exp(-abs(x)))\<close> on operands of the same shape.
\<close>

definition sigmoid :: "real \<Rightarrow> real" where
  "sigmoid x = 1 / (1 + exp (- x))"

definition cross_entropy_with_logit :: "real \<Rightarrow> real \<Rightarrow> real" where
  "cross_entropy_with_logit x z = max x 0 - x * z + ln (1 + exp (- \<bar>x\<bar>))"

definition sigmoid_cross_entropy_with_logits ::
  "real tensor \<Rightarrow> real tensor \<Rightarrow> error + real tensor" where
  "sigmoid_cross_entropy_with_logits logits labels =
     (if shape logits = shape labels
      then Inr \<lparr>shape = shape logits, data = map2 cross_entropy_with_logit (data logits) (data labels)\<rparr>
      else Inl ValueError)"

section \<open>The networks built by \<^verbatim>\<open>CVAE.__init__\<close>\<close>

text \<open>
  The Keras layers that the constructor stacks, with the arguments it gives them, and the
  shape of one example after each layer (the batch axis is kept by every layer). The
  output sizes are those that Keras computes: for a convolution over \<open>n\<close> positions with
  kernel \<open>k\<close> and stride \<open>s\<close>, \<open>(n - k) div s + 1\<close> with padding \<^verbatim>\<open>valid\<close> and \<open>n\<close> divided by
  \<open>s\<close>, rounded up, with padding \<^verbatim>\<open>same\<close>; for a transposed convolution,
  \<open>n * s + max (k - s) 0\<close> and \<open>n * s\<close>.
\<close>

datatype padding = VALID | SAME

datatype activation = Linear | Relu

datatype layer =
    InputLayer "nat list"
  | Conv2D nat nat "nat \<times> nat" padding activation
  | Flatten
  | Dense nat activation
  | Reshape "nat list"
  | Conv2DTranspose nat nat "nat \<times> nat" padding activation

definition conv_output_length :: "nat \<Rightarrow> nat \<Rightarrow> nat \<Rightarrow> padding \<Rightarrow> error + nat" where
  "conv_output_length n k s p =
     (if s = 0 then Inl ValueError
      else case p of
             SAME \<Rightarrow> Inr ((n + s - 1) div s)
           | VALID \<Rightarrow> if n < k then Inl ValueError else Inr ((n - k) div s + 1))"

definition deconv_output_length :: "nat \<Rightarrow> nat \<Rightarrow> nat \<Rightarrow> padding \<Rightarrow> error + nat" where
  "deconv_output_length n k s p =
     (if s = 0 then Inl ValueError
      else case p of
             SAME \<Rightarrow> Inr (n * s)
           | VALID \<Rightarrow> Inr (n * s + max (k - s) 0))"

fun layer_shape :: "layer \<Rightarrow> nat list \<Rightarrow> error + nat list" where
  "layer_shape (InputLayer input_shape) s = (if s = input_shape then Inr s else Inl ValueError)"
| "layer_shape (Conv2D filters kernel_size strides pad act) [h, w, c] =
     and_then (conv_output_length h kernel_size (fst strides) pad) (\<lambda>h'.
     and_then (conv_output_length w kernel_size (snd strides) pad) (\<lambda>w'.
     Inr [h', w', filters]))"
| "layer_shape (Conv2D filters kernel_size strides pad act) _ = Inl ValueError"
| "layer_shape Flatten s = Inr [prod_list s]"
| "layer_shape (Dense units act) s = (if s = [] then Inl ValueError else Inr (butlast s @ [units]))"
| "layer_shape (Reshape target_shape) s =
     (if prod_list s = prod_list target_shape then Inr target_shape else Inl ValueError)"
| "layer_shape (Conv2DTranspose filters kernel_size strides pad act) [h, w, c] =
     and_then (deconv_output_length h kernel_size (fst strides) pad) (\<lambda>h'.
     and_then (deconv_output_length w kernel_size (snd strides) pad) (\<lambda>w'.
     Inr [h', w', filters]))"
| "layer_shape (Conv2DTranspose filters kernel_size strides pad act) _ = Inl ValueError"

definition sequential_shape :: "layer list \<Rightarrow> nat list \<Rightarrow> error + nat list" where
  "sequential_shape layers s = fold (\<lambda>l r. and_then r (layer_shape l)) layers (Inr s)"

definition inference_layers :: "nat \<Rightarrow> layer list" where
  "inference_layers latent_dim =
     [InputLayer [28, 28, 1],
      Conv2D 32 3 (2, 2) VALID Relu,
      Conv2D 64 3 (2, 2) VALID Relu,
      Flatten,
      Dense (latent_dim + latent_dim) Linear]"

definition generative_layers :: "nat \<Rightarrow> layer list" where
  "generative_layers latent_dim =
     [InputLayer [latent_dim],
      Dense (7 * 7 * 32) Relu,
      Reshape [7, 7, 32],
      Conv2DTranspose 64 3 (2, 2) SAME Relu,
      Conv2DTranspose 32 3 (2, 2) SAME Relu,
      Conv2DTranspose 1 3 (1, 1) SAME Linear]"

section \<open>The model: class \<^verbatim>\<open>CVAE\<close>\<close>

text \<open>
  The two Keras networks are taken as functions from a batch to a batch: their weights and
  the arithmetic of their layers are not part of the model, only what they are applied to
  and what is done with their results.
\<close>

record cvae =
  latent_dim :: nat
  inference_net :: "real tensor \<Rightarrow> error + real tensor"
  generative_net :: "real tensor \<Rightarrow> error + real tensor"

definition encode :: "cvae \<Rightarrow> real tensor \<Rightarrow> error + real tensor \<times> real tensor" where
  "encode self x = and_then (inference_net self x) tf_split"

text \<open>
  \<^verbatim>\<open>tf.random.normal(shape=mean.shape)\<close> draws one number per element; \<open>noise k\<close> is the
  number drawn for the \<open>k\<close>-th element.
\<close>

definition random_normal :: "(nat \<Rightarrow> real) \<Rightarrow> nat list \<Rightarrow> real tensor" where
  "random_normal noise s = \<lparr>shape = s, data = map noise [0..<prod_list s]\<rparr>"

definition reparameterize ::
  "(nat \<Rightarrow> real) \<Rightarrow> real tensor \<Rightarrow> real tensor \<Rightarrow> error + real tensor" where
  "reparameterize noise mean logvar =
     (let eps = random_normal noise (shape mean)
      in and_then (elementwise (*) logvar (scalar 0.5)) (\<lambda>h.
         and_then (elementwise (*) eps (tmap exp h)) (\<lambda>p.
         elementwise (+) p mean)))"

definition decode :: "cvae \<Rightarrow> real tensor \<Rightarrow> bool \<Rightarrow> error + real tensor" where
  "decode self z apply_sigmoid =
     and_then (generative_net self z) (\<lambda>logits.
       if apply_sigmoid then Inr (tmap sigmoid logits) else Inr logits)"

text \<open>\<^verbatim>\<open>sample\<close>, for a given \<^verbatim>\<open>eps\<close> or, with \<open>None\<close>, for 100 fresh draws.\<close>

definition sample :: "cvae \<Rightarrow> (nat \<Rightarrow> real) \<Rightarrow> real tensor option \<Rightarrow> error + real tensor" where
  "sample self noise eps =
     (let eps = (case eps of None \<Rightarrow> random_normal noise [100, latent_dim self] | Some e \<Rightarrow> e)
      in decode self eps True)"

section \<open>The loss: \<^verbatim>\<open>log_normal_pdf\<close> and \<^verbatim>\<open>compute_loss\<close>\<close>

definition log_normal_pdf ::
  "real tensor \<Rightarrow> real tensor \<Rightarrow> real tensor \<Rightarrow> nat \<Rightarrow> error + real tensor" where
  "log_normal_pdf sample_v mean logvar raxis =
     (let log2pi = scalar (ln (2 * pi))
      in and_then (elementwise (-) sample_v mean) (\<lambda>d.
         and_then (elementwise (*) (tmap (\<lambda>v. v\<^sup>2) d) (tmap exp (tmap uminus logvar))) (\<lambda>q.
         and_then (elementwise (+) q logvar) (\<lambda>q.
         and_then (elementwise (+) q log2pi) (\<lambda>q.
         and_then (elementwise (*) (scalar (- 0.5)) q) (\<lambda>q.
         reduce_sum q [raxis]))))))"

definition compute_loss :: "cvae \<Rightarrow> (nat \<Rightarrow> real) \<Rightarrow> real tensor \<Rightarrow> error + real tensor" where
  "compute_loss model noise x =
     and_then (encode model x) (\<lambda>(mean, logvar).
     and_then (reparameterize noise mean logvar) (\<lambda>z.
     and_then (decode model z False) (\<lambda>x_logit.
     and_then (sigmoid_cross_entropy_with_logits x_logit x) (\<lambda>cross_entropy.
     and_then (reduce_sum cross_entropy [1, 2, 3]) (\<lambda>s.
     let logpx_z = tmap uminus s
     in and_then (log_normal_pdf z (scalar 0) (scalar 0) 1) (\<lambda>logpz.
        and_then (log_normal_pdf z mean logvar 1) (\<lambda>logqz_x.
        and_then (elementwise (+) logpx_z logpz) (\<lambda>t.
        and_then (elementwise (-) t logqz_x) (\<lambda>t.
        and_then (reduce_mean t) (\<lambda>m.
        Inr (tmap uminus m)))))))))))"

text \<open>
  The closed form of the Gaussian log-density of one number, and the elements of tensors
  of rank 2 and 4 by their indices, for stating what the functions above compute.
\<close>

definition normal_logpdf :: "real \<Rightarrow> real \<Rightarrow> real \<Rightarrow> real" where
  "normal_logpdf v m lv = - 0.5 * ((v - m)\<^sup>2 * exp (- lv) + lv + ln (2 * pi))"

definition at2 :: "'a tensor \<Rightarrow> nat \<Rightarrow> nat \<Rightarrow> 'a" where
  "at2 t i j = data t ! (i * (shape t ! 1) + j)"

definition at4 :: "'a tensor \<Rightarrow> nat \<Rightarrow> nat \<Rightarrow> nat \<Rightarrow> nat \<Rightarrow> 'a" where
  "at4 t i y x c = data t ! (((i * (shape t ! 1) + y) * (shape t ! 2) + x) * (shape t ! 3) + c)"

text \<open>
  An operand of an elementwise operation whose other operand has shape \<open>s\<close>: a tensor of
  that shape, or a scalar; \<open>g k\<close> is the value it contributes at position \<open>k\<close>.
\<close>

definition operand :: "nat list \<Rightarrow> real tensor \<Rightarrow> (nat \<Rightarrow> real) \<Rightarrow> bool" where
  "operand s b g \<longleftrightarrow>
     (shape b = s \<and> well_shaped b \<and> (\<forall>k < length (data b). data b ! k = g k))
     \<or> (\<exists>v. b = scalar v \<and> (\<forall>k. g k = v))"

section \<open>Models built by \<^verbatim>\<open>CVAE.__init__\<close>\<close>

text \<open>
  A function on batches runs a stack of layers when, on every batch, it fails where the
  shapes do not fit and otherwise returns a batch of as many examples, each of the shape
  the stack gives. A model is one that \<^verbatim>\<open>CVAE(latent_dim)\<close> builds, with whatever weights,
  when its two networks run the two stacks of the constructor.
\<close>

definition runs_layers :: "layer list \<Rightarrow> (real tensor \<Rightarrow> error + real tensor) \<Rightarrow> bool" where
  "runs_layers layers net \<longleftrightarrow>
     (\<forall>x. well_shaped x \<longrightarrow>
        (case shape x of
           [] \<Rightarrow> (\<exists>e. net x = Inl e)
         | b # s \<Rightarrow>
             (case sequential_shape layers s of
                Inl e \<Rightarrow> net x = Inl e
              | Inr s' \<Rightarrow> (\<exists>y. net x = Inr y \<and> shape y = b # s' \<and> well_shaped y))))"

definition is_CVAE :: "cvae \<Rightarrow> nat \<Rightarrow> bool" where
  "is_CVAE model L \<longleftrightarrow>
     latent_dim model = L
     \<and> runs_layers (inference_layers L) (inference_net model)
     \<and> runs_layers (generative_layers L) (generative_net model)"

text \<open>An example of such a model: networks whose outputs are all zero.\<close>

definition zero_net :: "layer list \<Rightarrow> real tensor \<Rightarrow> error + real tensor" where
  "zero_net layers x =
     (case shape x of
        [] \<Rightarrow> Inl ValueError
      | b # s \<Rightarrow>
          and_then (sequential_shape layers s) (\<lambda>s'.
            Inr \<lparr>shape = b # s', data = replicate (b * prod_list s') 0\<rparr>))"

definition zero_model :: "nat \<Rightarrow> cvae" where
  "zero_model L =
     \<lparr>latent_dim = L,
      inference_net = zero_net (inference_layers L),
      generative_net = zero_net (generative_layers L)\<rparr>"

text \<open>
  The three terms of the objective for the example \<open>i\<close> of a batch, as the specification
  words them: the negated cross-entropy between logits and pixels summed over the pixel
  axes, and the Gaussian log-densities of the latent sample, under mean 0 and log-variance
  0 and under the encoder's mean and log-variance, summed over the latent axis.
\<close>

definition logpx_z :: "real tensor \<Rightarrow> real tensor \<Rightarrow> nat \<Rightarrow> real" where
  "logpx_z x_logit x i =
     - (\<Sum>r < shape x ! 1. \<Sum>c < shape x ! 2. \<Sum>k < shape x ! 3.
          cross_entropy_with_logit (at4 x_logit i r c k) (at4 x i r c k))"

definition logpz :: "real tensor \<Rightarrow> nat \<Rightarrow> real" where
  "logpz z i = (\<Sum>j < shape z ! 1. normal_logpdf (at2 z i j) 0 0)"

definition logqz_x :: "real tensor \<Rightarrow> real tensor \<Rightarrow> real tensor \<Rightarrow> nat \<Rightarrow> real" where
  "logqz_x z mean logvar i =
     (\<Sum>j < shape z ! 1. normal_logpdf (at2 z i j) (at2 mean i j) (at2 logvar i j))"

text \<open>
  Small inputs for the functions of the model: a mean, a log-variance and a sample of one
  example with two latent dimensions, two noise draws, and a batch of one black image.
\<close>

definition example_mean :: "real tensor" where
  "example_mean = \<lparr>shape = [1, 2], data = [1, 2]\<rparr>"

definition example_logvar :: "real tensor" where
  "example_logvar = \<lparr>shape = [1, 2], data = [0, 0]\<rparr>"

definition example_noise :: "nat \<Rightarrow> real" where
  "example_noise k = (if k = 0 then 1 else - 1)"


definition example_batch :: "real tensor" where
  "example_batch = \<lparr>shape = [1, 28, 28, 1], data = replicate 784 0\<rparr>"

section \<open>Training: \<^verbatim>\<open>train_step\<close>, \<^verbatim>\<open>generate_and_save_images\<close> and the main program\<close>

text \<open>
  What the run takes from outside: the arrays that \<^verbatim>\<open>mnist.load_data()\<close> returns, the model
  that \<^verbatim>\<open>CVAE(latent_dim)\<close> builds with its initial weights, the model that the gradient of
  the loss and the Adam update leave after one step, every draw of \<^verbatim>\<open>tf.random.normal\<close>
  (for the vectors to generate from and for the loss on batch \<open>k\<close> of an epoch, in training
  and in evaluation) and the order in which each epoch iterates over the two datasets.
\<close>

record env =
  load_data :: "8 word tensor \<times> 8 word tensor"
  CVAE :: "nat \<Rightarrow> cvae"
  apply_gradients :: "cvae \<Rightarrow> (nat \<Rightarrow> real) \<Rightarrow> real tensor \<Rightarrow> cvae"
  generation_noise :: "nat \<Rightarrow> real"
  train_noise :: "nat \<Rightarrow> nat \<Rightarrow> nat \<Rightarrow> real"
  test_noise :: "nat \<Rightarrow> nat \<Rightarrow> nat \<Rightarrow> real"
  train_order :: "nat \<Rightarrow> nat list"
  test_order :: "nat \<Rightarrow> nat list"

text \<open>
  \<^verbatim>\<open>train_step\<close>: the loss is computed under the gradient tape, then the optimizer updates
  the variables of the model.
\<close>

definition train_step :: "env \<Rightarrow> (nat \<Rightarrow> real) \<Rightarrow> cvae \<Rightarrow> real tensor \<Rightarrow> error + cvae" where
  "train_step e noise model x =
     and_then (compute_loss model noise x) (\<lambda>loss. Inr (apply_gradients e model noise x))"

text \<open>\<^verbatim>\<open>'{:04d}'.format(n)\<close>: the decimal digits of \<open>n\<close>, filled with zeros to four.\<close>

function decimal :: "nat \<Rightarrow> string" where
  "decimal n = (if n < 10 then [''0123456789'' ! n] else decimal (n div 10) @ [''0123456789'' ! (n mod 10)])"
  by pat_completeness auto
termination
  by (relation "measure (\<lambda>n. n)") auto

declare decimal.simps [simp del]

definition format_04d :: "nat \<Rightarrow> string" where
  "format_04d n = replicate (4 - length (decimal n)) CHR ''0'' @ decimal n"

text \<open>
  The effects of the run that the claims are about, in the order they happen: the end of
  the training pass of an epoch, the line printed with the epoch and the ELBO of the test
  set, and the figure saved under a file name, with the predictions it shows.
\<close>

datatype event =
    Trained nat
  | Printed nat real
  | Saved string "real tensor"

text \<open>
  \<^verbatim>\<open>generate_and_save_images\<close>. The loop over the predictions puts prediction \<open>i\<close> in cell
  \<open>i + 1\<close> of a 4 by 4 grid, which fails beyond 16, and shows its slice \<^verbatim>\<open>[i, :, :, 0]\<close>,
  which fails unless the predictions have four axes, the last not empty. \<^verbatim>\<open>sample\<close> is
  given the latent input and draws nothing.
\<close>

definition generate_and_save_images :: "cvae \<Rightarrow> nat \<Rightarrow> real tensor \<Rightarrow> error + event" where
  "generate_and_save_images model epoch test_input =
     and_then (sample model (\<lambda>k. 0) (Some test_input)) (\<lambda>predictions.
       case shape predictions of
         [] \<Rightarrow> Inl IndexError
       | n # rest \<Rightarrow>
           if n = 0 then Inr (Saved (''image_at_epoch_'' @ format_04d epoch @ ''.png'') predictions)
           else if length rest \<noteq> 3 \<or> last rest = 0 then Inl InvalidArgumentError
           else if 16 < n then Inl ValueError
           else Inr (Saved (''image_at_epoch_'' @ format_04d epoch @ ''.png'') predictions))"

text \<open>\<^verbatim>\<open>tf.keras.metrics.Mean\<close>: the sum and the number of the values it was called on.\<close>

record mean_metric =
  total :: real
  count :: nat

definition update_state :: "mean_metric \<Rightarrow> real tensor \<Rightarrow> mean_metric" where
  "update_state m values = \<lparr>total = total m + sum_list (data values),
                            count = count m + length (data values)\<rparr>"

definition result :: "mean_metric \<Rightarrow> real" where
  "result m = (if count m = 0 then 0 else total m / real (count m))"

text \<open>The two inner loops of an epoch, over the batches \<open>k, k + 1, \<dots>\<close> of an iteration.\<close>

fun train_batches :: "env \<Rightarrow> nat \<Rightarrow> nat \<Rightarrow> cvae \<Rightarrow> real tensor list \<Rightarrow> error + cvae" where
  "train_batches e epoch k model [] = Inr model"
| "train_batches e epoch k model (train_x # rest) =
     and_then (train_step e (train_noise e epoch k) model train_x) (\<lambda>model.
       train_batches e epoch (Suc k) model rest)"

fun test_batches ::
  "env \<Rightarrow> nat \<Rightarrow> nat \<Rightarrow> cvae \<Rightarrow> mean_metric \<Rightarrow> real tensor list \<Rightarrow> error + mean_metric" where
  "test_batches e epoch k model loss [] = Inr loss"
| "test_batches e epoch k model loss (test_x # rest) =
     and_then (compute_loss model (test_noise e epoch k) test_x) (\<lambda>v.
       test_batches e epoch (Suc k) model (update_state loss v) rest)"

record run_state =
  model_v :: cvae
  events :: "event list"

text \<open>The body of the loop over the epochs.\<close>

definition run_epoch ::
  "env \<Rightarrow> dataset \<Rightarrow> dataset \<Rightarrow> real tensor \<Rightarrow> nat \<Rightarrow> run_state \<Rightarrow> error + run_state" where
  "run_epoch e train_dataset test_dataset random_vector_for_generation epoch st =
     and_then (train_batches e epoch 0 (model_v st)
                 (iterate train_dataset (train_order e epoch))) (\<lambda>model.
       let st = st\<lparr>model_v := model, events := events st @ [Trained epoch]\<rparr>
       in if epoch mod 10 = 0
          then and_then (test_batches e epoch 0 model \<lparr>total = 0, count = 0\<rparr>
                           (iterate test_dataset (test_order e epoch))) (\<lambda>loss.
                 let elbo = - result loss
                 in and_then (generate_and_save_images model epoch random_vector_for_generation)
                      (\<lambda>saved. Inr (st\<lparr>events := events st @ [Printed epoch elbo, saved]\<rparr>)))
          else Inr st)"

fun run_epochs ::
  "env \<Rightarrow> dataset \<Rightarrow> dataset \<Rightarrow> real tensor \<Rightarrow> nat list \<Rightarrow> run_state \<Rightarrow> error + run_state" where
  "run_epochs e train_dataset test_dataset rv [] st = Inr st"
| "run_epochs e train_dataset test_dataset rv (epoch # rest) st =
     and_then (run_epoch e train_dataset test_dataset rv epoch st)
       (run_epochs e train_dataset test_dataset rv rest)"

text \<open>The main program.\<close>

definition main :: "env \<Rightarrow> error + run_state" where
  "main e =
     (let epochs = 100;
          latent_dim = 50;
          num_examples_to_generate = 16;
          random_vector_for_generation =
            random_normal (generation_noise e) [num_examples_to_generate, latent_dim];
          model = CVAE e latent_dim
      in and_then (prepare_data (load_data e)) (\<lambda>(train_dataset, test_dataset).
           run_epochs e train_dataset test_dataset random_vector_for_generation [0..<epochs]
             \<lparr>model_v = model, events = []\<rparr>))"

text \<open>
  For stating what the run does. The model that the gradient steps on the batches
  \<open>k, k + 1, \<dots>\<close> of an epoch leave, and the model after the training passes of the first
  \<open>n\<close> epochs, starting from the model that \<^verbatim>\<open>CVAE(50)\<close> builds. What one epoch adds to
  the log, given the ELBO it prints and the predictions it draws if it is an epoch of
  evaluation.
\<close>

primrec updated :: "env \<Rightarrow> nat \<Rightarrow> nat \<Rightarrow> cvae \<Rightarrow> real tensor list \<Rightarrow> cvae" where
  "updated e epoch k model [] = model"
| "updated e epoch k model (x # rest) =
     updated e epoch (Suc k) (apply_gradients e model (train_noise e epoch k) x) rest"

primrec trained_model :: "env \<Rightarrow> dataset \<Rightarrow> nat \<Rightarrow> cvae" where
  "trained_model e train_dataset 0 = CVAE e 50"
| "trained_model e train_dataset (Suc n) =
     updated e n 0 (trained_model e train_dataset n) (iterate train_dataset (train_order e n))"

definition epoch_events :: "nat \<Rightarrow> real \<Rightarrow> real tensor \<Rightarrow> event list" where
  "epoch_events epoch elbo predictions =
     (if epoch mod 10 = 0
      then [Trained epoch, Printed epoch elbo,
            Saved (''image_at_epoch_'' @ format_04d epoch @ ''.png'') predictions]
      else [Trained epoch])"

text \<open>
  What an epoch of evaluation prints and draws, for the model it evaluates: the ELBO is
  the negated mean of the losses that \<^verbatim>\<open>compute_loss\<close> returns on the batches of the test
  dataset, in the order of the iteration (0 when there is no batch), and the predictions
  are the sigmoid of the logits that the generative network returns on the latent input.
\<close>

definition evaluated ::
  "env \<Rightarrow> dataset \<Rightarrow> real tensor \<Rightarrow> nat \<Rightarrow> cvae \<Rightarrow> real \<Rightarrow> real tensor \<Rightarrow> bool" where
  "evaluated e test_dataset rv epoch model elbo predictions \<longleftrightarrow>
     (\<exists>losses.
        length losses = length (iterate test_dataset (test_order e epoch))
      \<and> (\<forall>k < length losses.
            compute_loss model (test_noise e epoch k) (iterate test_dataset (test_order e epoch) ! k)
              = Inr (scalar (losses ! k)))
      \<and> elbo = - (if losses = [] then 0 else sum_list losses / real (length losses)))
     \<and> (\<exists>logits. generative_net model rv = Inr logits \<and> shape logits = [16, 28, 28, 1]
           \<and> predictions = tmap sigmoid logits)"

text \<open>
  A small run: one train and one test image, the model whose networks return zeros, an
  optimizer that leaves it as it is, and noise that is zero.
\<close>

definition example_env :: env where
  "example_env =
     \<lparr>load_data = (example_train_raw, example_test_raw),
      CVAE = zero_model,
      apply_gradients = (\<lambda>model noise x. model),
      generation_noise = (\<lambda>k. 0),
      train_noise = (\<lambda>epoch k i. 0),
      test_noise = (\<lambda>epoch k i. 0),
      train_order = (\<lambda>epoch. [0]),
      test_order = (\<lambda>epoch. [0])\<rparr>"

section \<open>Properties of \<^verbatim>\<open>draw_gif\<close>\<close>

subsection \<open>Rounding\<close>

lemma py_round_unique:
  assumes "of_int k - 1 / 2 < x" and "x < of_int k + 1 / 2"
  shows "py_round x = k"
proof -
  have "\<lfloor>x\<rfloor> = k \<or> \<lfloor>x\<rfloor> = k - 1"
    using assms by linarith
  then show ?thesis
  proof
    assume "\<lfloor>x\<rfloor> = k"
    then show ?thesis using assms by (simp add: py_round_def Let_def)
  next
    assume "\<lfloor>x\<rfloor> = k - 1"
    then show ?thesis using assms by (simp add: py_round_def Let_def)
  qed
qed

lemma py_round_near: "\<bar>x - of_int (py_round x)\<bar> \<le> 1 / 2"
  unfolding py_round_def Let_def by (auto; linarith)

lemma py_round_mono:
  assumes "x \<le> y"
  shows "py_round x \<le> py_round y"
proof (rule ccontr)
  assume "\<not> py_round x \<le> py_round y"
  then have gap: "py_round y + 1 \<le> py_round x" by simp
  have "of_int (py_round x) - 1 / 2 \<le> x"
    using py_round_near [of x] by linarith
  moreover have "y \<le> of_int (py_round y) + 1 / 2"
    using py_round_near [of y] by linarith
  moreover have "real_of_int (py_round y) + 1 \<le> of_int (py_round x)"
    using gap by linarith
  ultimately have "y \<le> x" by linarith
  with assms have "x = y" by simp
  with gap show False by simp
qed

lemma frame_mono: "i \<le> j \<Longrightarrow> frame i \<le> frame j"
  by (simp add: frame_def)

lemma round_frame_mono: "i \<le> j \<Longrightarrow> py_round (frame i) \<le> py_round (frame j)"
  by (rule py_round_mono) (rule frame_mono)

lemma nf_search_lower: "nf_search n m = 0 \<or> nf_search n m * (nf_search n m - 1) < n"
  by (induction m) auto

lemma nf_search_upper: "nf_search n m < k \<Longrightarrow> k \<le> m \<Longrightarrow> n \<le> k * (k - 1)"
proof (induction m)
  case 0
  then show ?case by simp
next
  case (Suc m)
  show ?case
  proof (cases "Suc m * m < n")
    case True
    with Suc.prems show ?thesis by simp
  next
    case False
    show ?thesis
    proof (cases "k = Suc m")
      case True
      with False show ?thesis by simp
    next
      case neq: False
      with Suc.prems False have "nf_search n m < k" "k \<le> m" by simp_all
      then show ?thesis by (rule Suc.IH)
    qed
  qed
qed

lemma nf_search_le: "nf_search n m \<le> m"
  by (induction m) auto

lemma round_frame_nearest: "py_round (frame i) = int (nearest_frame i)"
proof (rule py_round_unique)
  define r where "r = nearest_frame i"
  have r: "r = nf_search (4 * i) (4 * i)" by (simp add: r_def nearest_frame_def)
  have four: "4 * sqrt (real i) = sqrt (real (16 * i))"
    by (simp add: real_sqrt_mult)
  show "real_of_int (int (nearest_frame i)) - 1 / 2 < frame i"
  proof (cases "r = 0")
    case True
    have "0 \<le> 2 * sqrt (real i)" by simp
    then have "- (1 / 2) < 2 * sqrt (real i)" by linarith
    with True show ?thesis by (simp add: r_def [symmetric] frame_def)
  next
    case False
    with nf_search_lower [of "4 * i" "4 * i"] have "r * (r - 1) < 4 * i"
      by (simp add: r)
    moreover from False obtain q where q: "r = Suc q"
      by (cases r) simp_all
    ultimately have "(2 * r - 1)\<^sup>2 < 16 * i"
      by (simp add: power2_eq_square algebra_simps)
    then have "(real (2 * r - 1))\<^sup>2 < real (16 * i)"
      by (metis of_nat_less_iff of_nat_power)
    then have "real (2 * r - 1) < sqrt (real (16 * i))"
      by (rule real_less_rsqrt)
    then have "real (2 * r - 1) < 4 * sqrt (real i)"
      by (simp only: four)
    moreover have "real (2 * r - 1) = 2 * real r - 1"
      using False by (simp add: of_nat_diff)
    ultimately have "real r - 1 / 2 < 2 * sqrt (real i)" by linarith
    then show ?thesis
      by (simp add: r_def [symmetric] frame_def)
  qed
  show "frame i < real_of_int (int (nearest_frame i)) + 1 / 2"
  proof -
    have "4 * i \<le> (r + 1) * r"
    proof (cases "r < 4 * i")
      case True
      then show ?thesis using nf_search_upper [of "4 * i" "4 * i" "r + 1"] by (simp add: r)
    next
      case False
      then have "r = 4 * i" using nf_search_le [of "4 * i" "4 * i"] by (simp add: r)
      then show ?thesis by simp
    qed
    then have "16 * i < (2 * r + 1)\<^sup>2"
      by (simp add: power2_eq_square algebra_simps)
    then have "real (16 * i) < (real (2 * r + 1))\<^sup>2"
      by (metis of_nat_less_iff of_nat_power)
    then have "sqrt (real (16 * i)) < real (2 * r + 1)"
      by (intro real_less_lsqrt) simp_all
    then have "real (2 * r + 1) > 4 * sqrt (real i)"
      by (simp only: four)
    then have "2 * sqrt (real i) < real r + 1 / 2" by simp
    then show ?thesis
      by (simp add: r_def [symmetric] frame_def)
  qed
qed

subsection \<open>The selection loop\<close>

lemma round_frame_nonneg: "0 \<le> py_round (frame i)"
  by (simp add: round_frame_nearest)

lemma running_max_test:
  assumes "running_max k v"
  shows "py_round (frame k) > v \<longleftrightarrow> kept k"
proof
  assume "v < py_round (frame k)"
  with assms show "kept k"
    unfolding running_max_def kept_def by force
next
  assume k: "kept k"
  from assms have "v = - 1 \<or> (\<exists>j < k. v = py_round (frame j))"
    by (simp add: running_max_def)
  then show "v < py_round (frame k)"
  proof
    assume "v = - 1"
    with round_frame_nonneg [of k] show ?thesis by simp
  next
    assume "\<exists>j < k. v = py_round (frame j)"
    with k show ?thesis by (auto simp: kept_def)
  qed
qed

lemma running_max_step:
  assumes "running_max k v"
  shows "running_max (Suc k) (if py_round (frame k) > v then py_round (frame k) else v)"
  using assms unfolding running_max_def
  by (auto simp: less_Suc_eq)

lemma gif_loop_enumerate:
  assumes "running_max k (py_round (last_v s))"
  shows "appended (gif_loop (enumerate k fs) s) =
           appended s @ map snd (filter (\<lambda>p. kept (fst p)) (enumerate k fs))
       \<and> filename (gif_loop (enumerate k fs) s) =
           (if fs = [] then filename s else Some (last fs))"
  using assms
proof (induction fs arbitrary: k s)
  case Nil
  then show ?case by simp
next
  case (Cons f rest)
  let ?s1 = "s\<lparr>filename := Some f\<rparr>"
  let ?s2 = "?s1\<lparr>last_v := frame k, appended := appended ?s1 @ [f]\<rparr>"
  have test: "py_round (frame k) > py_round (last_v s) \<longleftrightarrow> kept k"
    using Cons.prems by (rule running_max_test)
  have step: "running_max (Suc k) (if py_round (frame k) > py_round (last_v s) then py_round (frame k) else py_round (last_v s))"
    using Cons.prems by (rule running_max_step)
  show ?case
  proof (cases "kept k")
    case True
    with test step have "running_max (Suc k) (py_round (last_v ?s2))" by simp
    from Cons.IH [OF this] True test show ?thesis by (simp add: Let_def)
  next
    case False
    with test step have "running_max (Suc k) (py_round (last_v ?s1))" by simp
    from Cons.IH [OF this] False test show ?thesis by (simp add: Let_def)
  qed
qed

lemma enumerate_nth: "enumerate 0 xs = map (\<lambda>i. (i, xs ! i)) [0..<length xs]"
  by (rule nth_equalityI) (simp_all add: nth_enumerate_eq)

lemma kept_of_enumerate:
  "map snd (filter (\<lambda>p. kept (fst p)) (enumerate 0 xs)) = map ((!) xs) (selected (length xs))"
  by (simp add: enumerate_nth selected_def filter_map comp_def)

lemma py_round_initial: "py_round (- 1) = - 1"
proof -
  have "\<lfloor>- 1 :: real\<rfloor> = - 1"
    using floor_of_int [of "- 1", where ?'a = real] by simp
  then show ?thesis by (simp add: py_round_def)
qed

lemma running_max_initial: "running_max 0 (py_round (- 1))"
  by (simp add: running_max_def py_round_initial)

lemma draw_gif_eq:
  "draw_gif globbed =
     (if globbed = [] then Inl UnboundLocalError
      else Inr (map ((!) (sort globbed)) (selected (length globbed)) @ [last (sort globbed)]))"
proof -
  let ?init = "\<lparr>last_v = - 1, filename = None, appended = []\<rparr>"
  have "running_max 0 (py_round (last_v ?init))"
    using running_max_initial by simp
  moreover have "sort globbed = [] \<longleftrightarrow> globbed = []"
    by (metis length_0_conv length_sort)
  ultimately have a: "appended (gif_loop (enumerate 0 (sort globbed)) ?init) =
             map ((!) (sort globbed)) (selected (length globbed))"
    and f: "filename (gif_loop (enumerate 0 (sort globbed)) ?init) =
             (if globbed = [] then None else Some (last (sort globbed)))"
    using gif_loop_enumerate [of 0 ?init "sort globbed"]
    by (simp_all add: kept_of_enumerate)
  show ?thesis
    by (simp add: draw_gif_def Let_def a f)
qed

lemma kept_code [code]: "kept i = (\<forall>j \<in> {..<i}. nearest_frame j < nearest_frame i)"
  by (auto simp: kept_def round_frame_nearest)

lemma nearest_frame_values:
  "nearest_frame 0 = 0" "nearest_frame (Suc 0) = 2" "nearest_frame (Suc (Suc 0)) = 3"
  "nearest_frame (Suc (Suc (Suc 0))) = 3" "nearest_frame (Suc (Suc (Suc (Suc 0)))) = 4"
  by code_simp+

lemma draw_gif_run_four:
  "draw_gif [''c'', ''a'', ''b'', ''d''] = Inr [''a'', ''b'', ''c'', ''d'']"
  by (simp add: draw_gif_def Let_def round_frame_nearest py_round_initial nearest_frame_values)

lemma draw_gif_run_five:
  "draw_gif [''c'', ''a'', ''b'', ''e'', ''d''] = Inr [''a'', ''b'', ''c'', ''e'', ''e'']"
  by (simp add: draw_gif_def Let_def round_frame_nearest py_round_initial nearest_frame_values)

declare draw_gif_eq [code]

lemma sorted_wrt_filter_snd:
  "sorted_wrt R xs \<Longrightarrow> sorted_wrt (\<lambda>x y. R x y \<and> Q y) (filter Q xs)"
  by (induction xs) auto

lemma selected_sorted: "sorted_wrt (<) (selected n)"
  by (simp add: selected_def sorted_wrt_filter)

lemma selected_round_increasing:
  "sorted_wrt (<) (map (\<lambda>i. py_round (frame i)) (selected n))"
proof -
  have "sorted_wrt (\<lambda>i j. i < j \<and> kept j) (selected n)"
    unfolding selected_def by (rule sorted_wrt_filter_snd) simp
  then have "sorted_wrt (\<lambda>i j. py_round (frame i) < py_round (frame j)) (selected n)"
    by (rule sorted_wrt_mono_rel [rotated]) (auto simp: kept_def)
  then show ?thesis by (simp add: sorted_wrt_map)
qed

lemma kept_dominates: "\<exists>j' \<le> j. kept j' \<and> py_round (frame j) \<le> py_round (frame j')"
proof (induction j rule: less_induct)
  case (less j)
  show ?case
  proof (cases "kept j")
    case True
    then show ?thesis by auto
  next
    case False
    then obtain j2 where j2: "j2 < j" "py_round (frame j) \<le> py_round (frame j2)"
      by (auto simp: kept_def not_less)
    from less.IH [OF j2(1)] obtain j' where "j' \<le> j2" "kept j'" "py_round (frame j2) \<le> py_round (frame j')"
      by blast
    with j2 show ?thesis by (intro exI [of _ j']) auto
  qed
qed

lemma selected_Suc: "selected (Suc m) = selected m @ (if kept m then [m] else [])"
  by (simp add: selected_def)

lemma selected_bound: "i \<in> set (selected n) \<Longrightarrow> i < n"
  by (simp add: selected_def)

lemma selected_iff: "i \<in> set (selected n) \<longleftrightarrow> i < n \<and> kept i"
  by (auto simp: selected_def)

lemma kept_iff_exceeds_selected:
  assumes "i < n"
  shows "kept i \<longleftrightarrow> (\<forall>j \<in> set (selected n). j < i \<longrightarrow> py_round (frame j) < py_round (frame i))"
proof
  assume "kept i"
  then show "\<forall>j \<in> set (selected n). j < i \<longrightarrow> py_round (frame j) < py_round (frame i)"
    by (simp add: kept_def)
next
  assume sel: "\<forall>j \<in> set (selected n). j < i \<longrightarrow> py_round (frame j) < py_round (frame i)"
  show "kept i"
    unfolding kept_def
  proof (intro allI impI)
    fix j assume "j < i"
    from kept_dominates [of j] obtain j' where j': "j' \<le> j" "kept j'"
      "py_round (frame j) \<le> py_round (frame j')" by blast
    with \<open>j < i\<close> assms have "j' \<in> set (selected n)" "j' < i"
      by (simp_all add: selected_iff)
    with sel have "py_round (frame j') < py_round (frame i)" by blast
    with j' show "py_round (frame j) < py_round (frame i)" by simp
  qed
qed

lemma sorted_last_nth:
  "xs \<noteq> [] \<Longrightarrow> last (sort xs) = sort xs ! (length xs - 1)"
  by (metis last_conv_nth length_0_conv length_sort)

subsection \<open>Claims about \<^verbatim>\<open>draw_gif\<close>\<close>

text \<open>
  Claim C5. For every non-empty list of frame files, \<^verbatim>\<open>draw_gif\<close> returns normally. The
  animation holds the files at the selected positions of the sorted list, followed by the
  file at the last position \<open>N - 1\<close>. The selected positions are strictly increasing, and so
  are their rounded frame values \<open>round(2 * sqrt i)\<close>; a position is selected exactly when
  its rounded value exceeds that of every position selected before it, and skipped
  otherwise. The last file is always part of the animation.
\<close>

theorem draw_gif_selection_increasing_last_included:
  assumes "globbed \<noteq> []"
  shows "\<exists>out. draw_gif globbed = Inr out
    \<and> out = map ((!) (sort globbed)) (selected (length globbed))
             @ [sort globbed ! (length globbed - 1)]
    \<and> sorted_wrt (<) (selected (length globbed))
    \<and> sorted_wrt (<) (map (\<lambda>i. py_round (frame i)) (selected (length globbed)))
    \<and> (\<forall>i < length globbed.
          i \<in> set (selected (length globbed)) \<longleftrightarrow>
          (\<forall>j \<in> set (selected (length globbed)).
             j < i \<longrightarrow> py_round (frame j) < py_round (frame i)))
    \<and> sort globbed ! (length globbed - 1) \<in> set out"
proof -
  have "draw_gif globbed =
          Inr (map ((!) (sort globbed)) (selected (length globbed))
               @ [sort globbed ! (length globbed - 1)])"
    using assms by (simp add: draw_gif_eq sorted_last_nth)
  moreover have "\<forall>i < length globbed.
          i \<in> set (selected (length globbed)) \<longleftrightarrow>
          (\<forall>j \<in> set (selected (length globbed)).
             j < i \<longrightarrow> py_round (frame j) < py_round (frame i))"
    using kept_iff_exceeds_selected [of _ "length globbed"] by (simp add: selected_iff)
  ultimately show ?thesis
    using selected_sorted [of "length globbed"] selected_round_increasing [of "length globbed"]
    by simp
qed

lemma selected_five: "selected 5 = [0, 1, 2, 4]"
  by code_simp

lemma sort_five:
  "sort [''image_at_epoch_0020.png'', ''image_at_epoch_0000.png'', ''image_at_epoch_0040.png'',
         ''image_at_epoch_0010.png'', ''image_at_epoch_0030.png'']
   = [''image_at_epoch_0000.png'', ''image_at_epoch_0010.png'', ''image_at_epoch_0020.png'',
      ''image_at_epoch_0030.png'', ''image_at_epoch_0040.png'']"
  by code_simp

text \<open>
  Five files: the positions 0, 1, 2 and 4 are selected, position 3 is skipped, and the last
  file is appended after the loop.
\<close>

theorem draw_gif_selection_increasing_last_included_witness:
  "draw_gif [''image_at_epoch_0020.png'', ''image_at_epoch_0000.png'', ''image_at_epoch_0040.png'',
             ''image_at_epoch_0010.png'', ''image_at_epoch_0030.png'']
     = Inr [''image_at_epoch_0000.png'', ''image_at_epoch_0010.png'', ''image_at_epoch_0020.png'',
            ''image_at_epoch_0040.png'', ''image_at_epoch_0040.png'']
   \<and> sorted_wrt (<) (map (\<lambda>i. py_round (frame i)) [0, 1, 2, 4])"
proof -
  let ?g = "[''image_at_epoch_0020.png'', ''image_at_epoch_0000.png'', ''image_at_epoch_0040.png'',
             ''image_at_epoch_0010.png'', ''image_at_epoch_0030.png'']"
  have ne: "?g \<noteq> []" by simp
  have len: "length ?g = 5" by simp
  from draw_gif_selection_increasing_last_included [OF ne]
  show ?thesis
    unfolding len selected_five sort_five by simp
qed

text \<open>
  Claim C8. When the pattern matches no file the loop body never runs, no frame is
  appended, and the read of \<^verbatim>\<open>filename\<close> after the loop fails, the name being unbound:
  \<^verbatim>\<open>draw_gif\<close> ends with that error and produces no animation.
\<close>

theorem draw_gif_without_files_fails:
  "draw_gif [] = Inl UnboundLocalError
   \<and> appended (gif_loop (enumerate 0 (sort [])) \<lparr>last_v = - 1, filename = None, appended = []\<rparr>) = []"
  by (simp add: draw_gif_def)

text \<open>
  Claim C9. The last file is appended unconditionally after the loop. For every non-empty
  list of distinct file names: when the last position \<open>N - 1\<close> is itself selected, the
  animation ends with the last file twice in a row and holds it exactly twice; otherwise it
  holds it exactly once.
\<close>

theorem draw_gif_final_frame_twice_iff_selected:
  assumes "globbed \<noteq> []" and "distinct globbed"
  shows "\<exists>out. draw_gif globbed = Inr out \<and>
     (if length globbed - 1 \<in> set (selected (length globbed))
      then (\<exists>pre. out = pre @ [last (sort globbed), last (sort globbed)])
           \<and> count_list out (last (sort globbed)) = 2
      else count_list out (last (sort globbed)) = 1)"
proof -
  define S where "S = sort globbed"
  from assms obtain m where m: "length globbed = Suc m"
    by (cases globbed) simp_all
  have lenS: "length S = Suc m" and dS: "distinct S"
    using m assms by (simp_all add: S_def)
  have lastS: "last S = S ! m"
    using lenS by (metis diff_Suc_1 last_conv_nth length_0_conv nat.distinct(1))
  have "S ! m \<notin> set (map ((!) S) (selected m))"
  proof
    assume "S ! m \<in> set (map ((!) S) (selected m))"
    then obtain i where "i \<in> set (selected m)" "S ! i = S ! m" by auto
    then have "i < m" "S ! i = S ! m" by (simp_all add: selected_iff)
    with dS lenS show False by (simp add: nth_eq_iff_index_eq)
  qed
  then have zero: "count_list (map ((!) S) (selected m)) (S ! m) = 0"
    by (simp add: count_list_0_iff)
  have out: "draw_gif globbed =
      Inr (map ((!) S) (selected m) @ (if kept m then [S ! m] else []) @ [S ! m])"
    using assms(1) by (simp add: draw_gif_eq m selected_Suc S_def [symmetric] lastS)
  have sel: "m \<in> set (selected (Suc m)) \<longleftrightarrow> kept m"
    by (simp add: selected_iff)
  show ?thesis
    using zero by (simp add: out m sel S_def [symmetric] lastS)
qed


lemma selected_four: "selected 4 = [0, 1, 2]"
  by code_simp

lemma sort_four:
  "sort [''image_at_epoch_0020.png'', ''image_at_epoch_0000.png'',
         ''image_at_epoch_0010.png'', ''image_at_epoch_0030.png'']
   = [''image_at_epoch_0000.png'', ''image_at_epoch_0010.png'', ''image_at_epoch_0020.png'',
      ''image_at_epoch_0030.png'']"
  by code_simp

text \<open>
  With five files the last position is selected and the last frame is written twice; with
  four files it is skipped by the loop and written once.
\<close>

theorem draw_gif_final_frame_twice_iff_selected_witness:
  "(\<exists>out. draw_gif [''image_at_epoch_0020.png'', ''image_at_epoch_0000.png'',
                       ''image_at_epoch_0040.png'', ''image_at_epoch_0010.png'',
                       ''image_at_epoch_0030.png''] = Inr out
      \<and> (\<exists>pre. out = pre @ [''image_at_epoch_0040.png'', ''image_at_epoch_0040.png''])
      \<and> count_list out ''image_at_epoch_0040.png'' = 2)
   \<and> (\<exists>out. draw_gif [''image_at_epoch_0020.png'', ''image_at_epoch_0000.png'',
                         ''image_at_epoch_0010.png'', ''image_at_epoch_0030.png''] = Inr out
      \<and> count_list out ''image_at_epoch_0030.png'' = 1)"
proof -
  let ?g5 = "[''image_at_epoch_0020.png'', ''image_at_epoch_0000.png'',
              ''image_at_epoch_0040.png'', ''image_at_epoch_0010.png'',
              ''image_at_epoch_0030.png'']"
  let ?g4 = "[''image_at_epoch_0020.png'', ''image_at_epoch_0000.png'',
              ''image_at_epoch_0010.png'', ''image_at_epoch_0030.png'']"
  have ne5: "?g5 \<noteq> []" and d5: "distinct ?g5" and len5: "length ?g5 = 5" by simp_all
  have ne4: "?g4 \<noteq> []" and d4: "distinct ?g4" and len4: "length ?g4 = 4" by simp_all
  from draw_gif_final_frame_twice_iff_selected [OF ne5 d5]
  have five: "\<exists>out. draw_gif ?g5 = Inr out
      \<and> (\<exists>pre. out = pre @ [''image_at_epoch_0040.png'', ''image_at_epoch_0040.png''])
      \<and> count_list out ''image_at_epoch_0040.png'' = 2"
    unfolding len5 selected_five sort_five by simp
  from draw_gif_final_frame_twice_iff_selected [OF ne4 d4]
  have four: "\<exists>out. draw_gif ?g4 = Inr out \<and> count_list out ''image_at_epoch_0030.png'' = 1"
    unfolding len4 selected_four sort_four by simp
  from five four show ?thesis by blast
qed

section \<open>Properties of \<^verbatim>\<open>prepare_data\<close>\<close>

lemma binarize_data:
  "data (binarize t) = map (\<lambda>x. if x \<ge> 0.5 then 1 else 0) (data t)"
  by (simp add: binarize_def assign_where_def Let_def)

lemma binarize_shape: "shape (binarize t) = shape t"
  by (simp add: binarize_def assign_where_def Let_def)

lemma normalize_data: "data (normalize t) = map (\<lambda>p. real (unat p) / 255) (data t)"
  by (simp add: normalize_def divide_by_def astype_float32_def)

lemma normalize_shape: "shape (normalize t) = shape t"
  by (simp add: normalize_def divide_by_def astype_float32_def)

lemma chunks_subset: "c \<in> set (chunks n xs) \<Longrightarrow> set c \<subseteq> set xs"
proof (induction n xs rule: chunks.induct)
  case (1 n xs)
  show ?case
  proof (cases "n = 0 \<or> xs = []")
    case True
    with "1.prems" show ?thesis by (simp add: chunks.simps [of n xs])
  next
    case False
    with "1.prems" have "c = take n xs \<or> c \<in> set (chunks n (drop n xs))"
      by (simp add: chunks.simps [of n xs])
    then show ?thesis
    proof
      assume "c = take n xs"
      then show ?thesis by (simp add: set_take_subset)
    next
      assume "c \<in> set (chunks n (drop n xs))"
      with "1.IH" False have "set c \<subseteq> set (drop n xs)" by simp
      then show ?thesis using set_drop_subset [of n xs] by blast
    qed
  qed
qed

lemma block_subset: "set (block n i xs) \<subseteq> set xs"
  unfolding block_def using set_take_subset set_drop_subset by fast

lemma block_nth:
  "k < n \<Longrightarrow> i * n + k < length xs \<Longrightarrow> block n i xs ! k = xs ! (i * n + k)"
  by (simp add: block_def)

lemma block_length: "Suc i * n \<le> length xs \<Longrightarrow> length (block n i xs) = n"
  by (simp add: block_def)

lemma prepare_data_Inr:
  assumes "prepare_data (train_raw, test_raw) = Inr (train_data, test_data)"
  shows "elements train_data =
           map (\<lambda>i. \<lparr>shape = [28, 28, 1],
                     data = block 784 i (data (binarize (normalize
                       \<lparr>shape = [hd (shape train_raw), 28, 28, 1], data = data train_raw\<rparr>)))\<rparr>)
               [0..<hd (shape train_raw)]"
    and "elements test_data =
           map (\<lambda>i. \<lparr>shape = [28, 28, 1],
                     data = block 784 i (data (binarize (normalize
                       \<lparr>shape = [hd (shape test_raw), 28, 28, 1], data = data test_raw\<rparr>)))\<rparr>)
               [0..<hd (shape test_raw)]"
    and "batch_size train_data = 128" and "batch_size test_data = 128"
    and "prod_list (shape train_raw) = hd (shape train_raw) * 784"
    and "prod_list (shape test_raw) = hd (shape test_raw) * 784"
  using assms
  by (auto simp: prepare_data_def reshape_images_def from_tensor_slices_def
      binarize_shape normalize_shape Let_def
      split: list.splits if_splits sum.splits)

lemma prepare_data_succeeds:
  assumes "shape train_raw = [n, 28, 28]" and "shape test_raw = [m, 28, 28]"
  shows "\<exists>train_data test_data. prepare_data (train_raw, test_raw) = Inr (train_data, test_data)"
  using assms
  by (simp add: prepare_data_def reshape_images_def from_tensor_slices_def
      binarize_shape normalize_shape Let_def)

lemma binarized_pixels: "v \<in> set (data (binarize t)) \<Longrightarrow> v = 0 \<or> v = 1"
  by (auto simp: binarize_data)

lemma prepared_element_pixels:
  assumes "prepare_data (train_raw, test_raw) = Inr (train_data, test_data)"
    and "img \<in> set (elements train_data) \<union> set (elements test_data)"
  shows "shape img = [28, 28, 1] \<and> (\<forall>v \<in> set (data img). v = 0 \<or> v = 1)"
proof -
  from assms(2) prepare_data_Inr(1,2) [OF assms(1)]
  obtain t i where "shape img = [28, 28, 1]" "data img = block 784 i (data (binarize t))"
    by auto
  then show ?thesis
    using block_subset [of 784 i "data (binarize t)"] binarized_pixels [of _ t] by auto
qed

lemma iterate_pixels:
  assumes "set order \<subseteq> {..<length (elements ds)}"
    and "batch \<in> set (iterate ds order)" and "v \<in> set (data batch)"
  shows "\<exists>img \<in> set (elements ds). v \<in> set (data img)"
proof -
  from assms(2) obtain c where c: "c \<in> set (chunks (batch_size ds) (map ((!) (elements ds)) order))"
    and b: "batch = stack c"
    by (auto simp: iterate_def)
  from assms(3) b obtain img where img: "img \<in> set c" "v \<in> set (data img)"
    by (auto simp: stack_def)
  from chunks_subset [OF c] img(1) have "img \<in> set (map ((!) (elements ds)) order)" by blast
  then obtain i where "i \<in> set order" "img = elements ds ! i" by auto
  with assms(1) have "img \<in> set (elements ds)" by auto
  with img(2) show ?thesis by blast
qed

text \<open>
  Claim C4. On arrays of the shape of the dataset, \<open>n \<times> 28 \<times> 28\<close>, \<^verbatim>\<open>prepare_data\<close>
  returns the two datasets; and whenever it returns them, every prepared image has shape
  \<open>28 \<times> 28 \<times> 1\<close> and each of its pixels is exactly 0 or exactly 1, and so is every pixel
  of every batch that an iteration over the train or the test dataset yields.
\<close>

theorem prepare_data_pixels_binary:
  "(shape train_raw = [n, 28, 28] \<and> shape test_raw = [m, 28, 28] \<longrightarrow>
      (\<exists>train_data test_data. prepare_data (train_raw, test_raw) = Inr (train_data, test_data)))
   \<and> (\<forall>train_data test_data.
        prepare_data (train_raw, test_raw) = Inr (train_data, test_data) \<longrightarrow>
        (\<forall>img \<in> set (elements train_data) \<union> set (elements test_data).
           shape img = [28, 28, 1] \<and> (\<forall>v \<in> set (data img). v = 0 \<or> v = 1))
        \<and> (\<forall>order. is_order order train_data \<longrightarrow>
             (\<forall>batch \<in> set (iterate train_data order). \<forall>v \<in> set (data batch). v = 0 \<or> v = 1))
        \<and> (\<forall>order. is_order order test_data \<longrightarrow>
             (\<forall>batch \<in> set (iterate test_data order). \<forall>v \<in> set (data batch). v = 0 \<or> v = 1)))"
proof (intro conjI allI impI ballI)
  assume "shape train_raw = [n, 28, 28] \<and> shape test_raw = [m, 28, 28]"
  then show "\<exists>train_data test_data. prepare_data (train_raw, test_raw) = Inr (train_data, test_data)"
    using prepare_data_succeeds by blast
next
  fix train_data test_data img
  assume "prepare_data (train_raw, test_raw) = Inr (train_data, test_data)"
    and "img \<in> set (elements train_data) \<union> set (elements test_data)"
  then have r: "shape img = [28, 28, 1] \<and> (\<forall>v \<in> set (data img). v = 0 \<or> v = 1)"
    by (rule prepared_element_pixels)
  from r show "shape img = [28, 28, 1]" by simp
  fix v assume "v \<in> set (data img)"
  with r show "v = 0 \<or> v = 1" by simp
next
  fix train_data test_data order batch v
  assume p: "prepare_data (train_raw, test_raw) = Inr (train_data, test_data)"
    and "is_order order train_data" "batch \<in> set (iterate train_data order)" "v \<in> set (data batch)"
  then obtain img where "img \<in> set (elements train_data)" "v \<in> set (data img)"
    using iterate_pixels [of order train_data batch v] by (auto simp: is_order_def)
  with prepared_element_pixels [OF p, of img] show "v = 0 \<or> v = 1" by simp
next
  fix train_data test_data order batch v
  assume p: "prepare_data (train_raw, test_raw) = Inr (train_data, test_data)"
    and "is_order order test_data" "batch \<in> set (iterate test_data order)" "v \<in> set (data batch)"
  then obtain img where "img \<in> set (elements test_data)" "v \<in> set (data img)"
    using iterate_pixels [of order test_data batch v] by (auto simp: is_order_def)
  with prepared_element_pixels [OF p, of img] show "v = 0 \<or> v = 1" by simp
qed

lemma prepared_element_nth:
  assumes "well_shaped raw" and "prod_list (shape raw) = hd (shape raw) * 784"
    and "i < hd (shape raw)" and "k < 784"
  shows "block 784 i (data (binarize (normalize
           \<lparr>shape = [hd (shape raw), 28, 28, 1], data = data raw\<rparr>))) ! k
         = (if real (unat (data raw ! (i * 784 + k))) / 255 \<ge> 0.5 then 1 else 0)"
proof -
  have "i * 784 + k < hd (shape raw) * 784"
  proof -
    have "i * 784 + k < Suc i * 784" using assms(4) by simp
    also have "\<dots> \<le> hd (shape raw) * 784" using assms(3) by (intro mult_le_mono1) simp
    finally show ?thesis .
  qed
  then have len: "i * 784 + k < length (data raw)"
    using assms(1,2) by (simp add: well_shaped_def)
  then show ?thesis
    using assms(4) by (simp add: block_nth binarize_data normalize_data)
qed

text \<open>
  Claim C10. The threshold is inclusive on the high side: each pixel of each prepared train
  and test image is 1 when its normalized value \<open>p / 255\<close> is at least 0.5 and 0 when it is
  below 0.5; and on any array of reals the two masked assignments send every value
  \<open>\<ge> 0.5\<close>, the value 0.5 itself included, to 1 and every smaller value to 0.
\<close>

theorem binarization_threshold_inclusive:
  assumes "well_shaped train_raw" and "well_shaped test_raw"
    and "prepare_data (train_raw, test_raw) = Inr (train_data, test_data)"
  shows "(\<forall>i < length (elements train_data). \<forall>k < 784.
            data (elements train_data ! i) ! k
            = (if real (unat (data train_raw ! (i * 784 + k))) / 255 \<ge> 0.5 then 1 else 0))
       \<and> (\<forall>i < length (elements test_data). \<forall>k < 784.
            data (elements test_data ! i) ! k
            = (if real (unat (data test_raw ! (i * 784 + k))) / 255 \<ge> 0.5 then 1 else 0))
       \<and> (\<forall>t. data (binarize t) = map (\<lambda>x. if x \<ge> 0.5 then 1 else 0) (data t))"
proof (intro conjI allI impI)
  fix i k assume "i < length (elements train_data)" "k < (784::nat)"
  then show "data (elements train_data ! i) ! k
      = (if real (unat (data train_raw ! (i * 784 + k))) / 255 \<ge> 0.5 then 1 else 0)"
    using prepare_data_Inr(1,5) [OF assms(3)] prepared_element_nth [OF assms(1), of i k]
    by simp
next
  fix i k assume "i < length (elements test_data)" "k < (784::nat)"
  then show "data (elements test_data ! i) ! k
      = (if real (unat (data test_raw ! (i * 784 + k))) / 255 \<ge> 0.5 then 1 else 0)"
    using prepare_data_Inr(2,6) [OF assms(3)] prepared_element_nth [OF assms(2), of i k]
    by simp
next
  fix t show "data (binarize t) = map (\<lambda>x. if x \<ge> 0.5 then 1 else 0) (data t)"
    by (rule binarize_data)
qed

lemma normalized_threshold: "real (unat (p :: 8 word)) / 255 \<ge> 0.5 \<longleftrightarrow> 128 \<le> unat p"
proof -
  have "real (unat p) / 255 \<ge> 0.5 \<longleftrightarrow> real 255 \<le> real (2 * unat p)"
    by (simp add: field_simps)
  also have "\<dots> \<longleftrightarrow> 255 \<le> 2 * unat p"
    by (simp only: of_nat_le_iff)
  also have "\<dots> \<longleftrightarrow> 128 \<le> unat p"
    by arith
  finally show ?thesis .
qed

lemma prepare_data_example:
  "prepare_data (example_train_raw, example_test_raw) =
     Inr (\<lparr>elements = [\<lparr>shape = [28, 28, 1], data = replicate 392 1 @ replicate 392 0\<rparr>],
           buffer_size = 60000, batch_size = 128\<rparr>,
          \<lparr>elements = [\<lparr>shape = [28, 28, 1], data = replicate 784 1\<rparr>],
           buffer_size = 10000, batch_size = 128\<rparr>)"
  by (simp add: prepare_data_def example_train_raw_def example_test_raw_def reshape_images_def normalize_def
      astype_float32_def divide_by_def binarize_def assign_where_def from_tensor_slices_def
      block_def Let_def)

text \<open>One image per dataset, iterated in its only order.\<close>

theorem prepare_data_pixels_binary_witness:
  "shape example_train_raw = [1, 28, 28] \<and> shape example_test_raw = [1, 28, 28]
   \<and> (\<exists>train_data test_data.
         prepare_data (example_train_raw, example_test_raw) = Inr (train_data, test_data)
       \<and> is_order [0] train_data
       \<and> iterate train_data [0]
           = [\<lparr>shape = [1, 28, 28, 1], data = replicate 392 1 @ replicate 392 0\<rparr>]
       \<and> (\<forall>batch \<in> set (iterate train_data [0]). \<forall>v \<in> set (data batch). v = 0 \<or> v = 1))"
proof -
  let ?train = "\<lparr>elements = [\<lparr>shape = [28, 28, 1], data = replicate 392 1 @ replicate 392 (0::real)\<rparr>],
           buffer_size = 60000, batch_size = 128\<rparr>"
  have sh: "shape example_train_raw = [1, 28, 28] \<and> shape example_test_raw = [1, 28, 28]"
    by (simp add: example_train_raw_def example_test_raw_def)
  have ord: "is_order [0] ?train"
    by (simp add: is_order_def lessThan_Suc)
  have it: "iterate ?train [0]
      = [\<lparr>shape = [1, 28, 28, 1], data = replicate 392 1 @ replicate 392 0\<rparr>]"
    by (simp add: iterate_def chunks.simps stack_def)
  from prepare_data_pixels_binary [of example_train_raw 1 example_test_raw 1] prepare_data_example ord
  have "\<forall>batch \<in> set (iterate ?train [0]). \<forall>v \<in> set (data batch). v = 0 \<or> v = 1"
    by blast
  with sh ord it prepare_data_example show ?thesis by blast
qed

text \<open>
  The pixel 128 becomes 1 and the pixel 127 becomes 0; the value 0.5 itself becomes 1.
\<close>

theorem binarization_threshold_inclusive_witness:
  "well_shaped example_train_raw \<and> well_shaped example_test_raw
   \<and> (\<exists>train_data test_data.
         prepare_data (example_train_raw, example_test_raw) = Inr (train_data, test_data)
       \<and> data example_train_raw ! 0 = 128 \<and> data (elements train_data ! 0) ! 0 = 1
       \<and> data example_train_raw ! 783 = 127 \<and> data (elements train_data ! 0) ! 783 = 0)
   \<and> data (binarize \<lparr>shape = [3], data = [0.5, 0.25, 0.75]\<rparr>) = [1, 0, 1]"
proof -
  have w: "well_shaped example_train_raw" "well_shaped example_test_raw"
    by (simp_all add: well_shaped_def example_train_raw_def example_test_raw_def)
  have raw: "data example_train_raw ! 0 = 128" "data example_train_raw ! 783 = 127"
    by (simp_all add: example_train_raw_def nth_append)
  note t = binarization_threshold_inclusive [OF w prepare_data_example]
  from t have "data (elements \<lparr>elements = [\<lparr>shape = [28, 28, 1], data = replicate 392 1 @ replicate 392 (0::real)\<rparr>],
           buffer_size = 60000, batch_size = 128\<rparr> ! 0) ! 0 = 1"
    by (simp add: nth_append)
  moreover from t have "data (binarize \<lparr>shape = [3], data = [0.5, 0.25, 0.75]\<rparr>) = [1, 0, 1]"
    by simp
  ultimately show ?thesis
    using w raw prepare_data_example by (simp add: nth_append)
qed

section \<open>Properties of the tensor operations\<close>

lemma bshape_same: "bshape s s = Some s"
  by (induction s) simp_all

lemma bshape_Nil_right: "bshape s [] = Some s"
  by (cases s) simp_all

lemma broadcast_shape_same: "broadcast_shape s s = Some s"
  by (simp add: broadcast_shape_def bshape_same)

lemma broadcast_shape_scalar_right: "broadcast_shape s [] = Some s"
  by (simp add: broadcast_shape_def bshape_Nil_right)

lemma broadcast_shape_scalar_left: "broadcast_shape [] s = Some s"
  by (simp add: broadcast_shape_def)

lemma concat_blocks_take:
  "d * n \<le> length xs \<Longrightarrow> concat (map (\<lambda>i. block n i xs) [0..<d]) = take (d * n) xs"
proof (induction d)
  case 0
  then show ?case by simp
next
  case (Suc d)
  then have "concat (map (\<lambda>i. block n i xs) [0..<d]) = take (d * n) xs" by simp
  then have "concat (map (\<lambda>i. block n i xs) [0..<Suc d]) = take (d * n) xs @ block n d xs"
    by simp
  also have "\<dots> = take (d * n + n) xs"
    by (simp only: block_def take_add)
  also have "d * n + n = Suc d * n" by simp
  finally show ?case .
qed

lemma concat_blocks: "length xs = d * n \<Longrightarrow> concat (map (\<lambda>i. block n i xs) [0..<d]) = xs"
  by (simp add: concat_blocks_take)

lemma block_length_le: "i < d \<Longrightarrow> length xs = d * n \<Longrightarrow> length (block n i xs) = n"
proof -
  assume a: "i < d" "length xs = d * n"
  then have "Suc i * n \<le> d * n" by (intro mult_le_mono1) simp
  with a show ?thesis by (simp add: block_length)
qed

lemma expand_same: "length xs = prod_list s \<Longrightarrow> expand s s xs = xs"
proof (induction s arbitrary: xs)
  case Nil
  then show ?case by simp
next
  case (Cons d s)
  have "map (\<lambda>i. expand s s (block (prod_list s) i xs)) [0..<d]
      = map (\<lambda>i. block (prod_list s) i xs) [0..<d]"
  proof (rule map_cong [OF refl])
    fix i assume "i \<in> set [0..<d]"
    then have "length (block (prod_list s) i xs) = prod_list s"
      using Cons.prems by (intro block_length_le [of i d]) simp_all
    then show "expand s s (block (prod_list s) i xs) = block (prod_list s) i xs"
      by (rule Cons.IH)
  qed
  then have "expand (d # s) (d # s) xs = concat (map (\<lambda>i. block (prod_list s) i xs) [0..<d])"
    by (simp only: expand.simps refl if_True)
  also have "\<dots> = xs"
    using Cons.prems by (intro concat_blocks) simp
  finally show ?case .
qed

lemma concat_replicate_replicate: "concat (replicate e (replicate n v)) = replicate (e * n) v"
  by (induction e) (simp_all add: replicate_add)

lemma expand_scalar: "expand (replicate (length r) (Suc 0)) r [v] = replicate (prod_list r) v"
proof (induction r)
  case Nil
  then show ?case by simp
next
  case (Cons e r)
  show ?case
  proof (cases "e = 1")
    case True
    then show ?thesis using Cons.IH by (simp add: block_def)
  next
    case False
    then show ?thesis using Cons.IH by (simp add: concat_replicate_replicate)
  qed
qed

lemma elementwise_same:
  assumes "shape a = shape b" and "well_shaped a" and "well_shaped b"
  shows "elementwise f a b = Inr \<lparr>shape = shape a, data = map2 f (data a) (data b)\<rparr>"
  using assms
  by (simp add: elementwise_def broadcast_shape_same pad_shape_def expand_same well_shaped_def)

lemma elementwise_scalar_right:
  assumes "well_shaped a"
  shows "elementwise f a (scalar v) = Inr \<lparr>shape = shape a, data = map (\<lambda>x. f x v) (data a)\<rparr>"
proof -
  have "map2 f (data a) (replicate (prod_list (shape a)) v) = map (\<lambda>x. f x v) (data a)"
    using assms unfolding well_shaped_def
    by (intro nth_equalityI) simp_all
  then show ?thesis
    using assms
    by (simp add: elementwise_def scalar_def broadcast_shape_scalar_right pad_shape_def
        expand_same expand_scalar well_shaped_def)
qed

lemma elementwise_scalar_left:
  assumes "well_shaped b"
  shows "elementwise f (scalar v) b = Inr \<lparr>shape = shape b, data = map (f v) (data b)\<rparr>"
proof -
  have "map2 f (replicate (prod_list (shape b)) v) (data b) = map (f v) (data b)"
    using assms unfolding well_shaped_def
    by (intro nth_equalityI) simp_all
  then show ?thesis
    using assms
    by (simp add: elementwise_def scalar_def broadcast_shape_scalar_left pad_shape_def
        expand_same expand_scalar well_shaped_def)
qed

lemma and_then_simps [simp]:
  "and_then (Inr v) f = f v" "and_then (Inl e) f = Inl e"
  by (simp_all add: and_then_def)

lemma tmap_simps [simp]:
  "shape (tmap f t) = shape t" "data (tmap f t) = map f (data t)"
  by (simp_all add: tmap_def)

lemma well_shaped_tmap [simp]: "well_shaped (tmap f t) = well_shaped t"
  by (simp add: well_shaped_def)

lemma random_normal_simps [simp]:
  "shape (random_normal noise s) = s" "data (random_normal noise s) = map noise [0..<prod_list s]"
  "well_shaped (random_normal noise s)"
  by (simp_all add: random_normal_def well_shaped_def)

section \<open>Properties of \<^verbatim>\<open>reparameterize\<close>\<close>

lemma reparameterize_eq:
  assumes "well_shaped mean" and "well_shaped logvar" and "shape logvar = shape mean"
  shows "reparameterize noise mean logvar =
           Inr \<lparr>shape = shape mean,
                data = map (\<lambda>k. noise k * exp (data logvar ! k * 0.5) + data mean ! k)
                           [0..<length (data mean)]\<rparr>"
proof -
  let ?n = "length (data mean)"
  have n: "prod_list (shape mean) = ?n" "length (data logvar) = ?n"
    using assms by (simp_all add: well_shaped_def)
  let ?h = "\<lparr>shape = shape logvar, data = map (\<lambda>x. x * 0.5) (data logvar)\<rparr>"
  let ?eps = "random_normal noise (shape mean)"
  let ?p = "\<lparr>shape = shape mean, data = map2 (*) (data ?eps) (data (tmap exp ?h))\<rparr>"
  have h: "elementwise (*) logvar (scalar 0.5) = Inr ?h"
    using assms(2) by (rule elementwise_scalar_right)
  have wh: "well_shaped (tmap exp ?h)"
    using assms(2) by (simp add: well_shaped_def)
  have p: "elementwise (*) ?eps (tmap exp ?h) = Inr ?p"
    using elementwise_same [of ?eps "tmap exp ?h" "(*)"] wh assms(3) by simp
  have wp: "well_shaped ?p"
    using n by (simp add: well_shaped_def)
  have r: "elementwise (+) ?p mean = Inr \<lparr>shape = shape mean, data = map2 (+) (data ?p) (data mean)\<rparr>"
    using elementwise_same [of ?p mean "(+)"] wp assms(1) by simp
  have "map2 (+) (data ?p) (data mean)
      = map (\<lambda>k. noise k * exp (data logvar ! k * 0.5) + data mean ! k) [0..<?n]"
    using n by (intro nth_equalityI) simp_all
  with r have r2: "elementwise (+) ?p mean =
      Inr \<lparr>shape = shape mean,
           data = map (\<lambda>k. noise k * exp (data logvar ! k * 0.5) + data mean ! k) [0..<?n]\<rparr>"
    by simp
  show ?thesis
    by (simp only: reparameterize_def Let_def h p r2 and_then_simps)
qed

text \<open>
  Claim C2. For the noise drawn, \<^verbatim>\<open>reparameterize\<close> is a function of the mean, the
  log-variance and the noise: for every mean and log-variance of one shape it returns a
  sample of the shape of the mean, whose every element is
  \<open>noise * exp (0.5 * logvar) + mean\<close> at that element.
\<close>

theorem reparameterize_elementwise:
  assumes "well_shaped mean" and "well_shaped logvar" and "shape logvar = shape mean"
  shows "\<exists>z. reparameterize noise mean logvar = Inr z
           \<and> shape z = shape mean
           \<and> well_shaped z
           \<and> (\<forall>k < length (data mean).
                  data z ! k = noise k * exp (0.5 * data logvar ! k) + data mean ! k)
           \<and> (shape mean = [b, d] \<longrightarrow>
                (\<forall>i < b. \<forall>j < d.
                   at2 z i j = noise (i * d + j) * exp (0.5 * at2 logvar i j) + at2 mean i j))"
proof -
  let ?z = "\<lparr>shape = shape mean,
            data = map (\<lambda>k. noise k * exp (data logvar ! k * 0.5) + data mean ! k)
                       [0..<length (data mean)]\<rparr>"
  have eq: "reparameterize noise mean logvar = Inr ?z"
    using assms by (rule reparameterize_eq)
  have nth: "\<forall>k < length (data mean).
      data ?z ! k = noise k * exp (0.5 * data logvar ! k) + data mean ! k"
    by (simp add: mult.commute)
  have ws: "well_shaped ?z"
    using assms(1) by (simp add: well_shaped_def)
  have "shape mean = [b, d] \<longrightarrow>
      (\<forall>i < b. \<forall>j < d. at2 ?z i j = noise (i * d + j) * exp (0.5 * at2 logvar i j) + at2 mean i j)"
  proof (intro impI allI)
    fix i j assume s: "shape mean = [b, d]" and "i < b" "j < d"
    then have "i * d + j < Suc i * d" "Suc i * d \<le> b * d"
      by (simp, intro mult_le_mono1, simp)
    then have "i * d + j < length (data mean)"
      using assms(1) s by (simp add: well_shaped_def)
    then show "at2 ?z i j = noise (i * d + j) * exp (0.5 * at2 logvar i j) + at2 mean i j"
      using s assms(3) by (simp add: at2_def mult.commute)
  qed
  with eq nth ws show ?thesis by (intro exI [of _ ?z]) simp
qed

lemma operand_tensor: "well_shaped b \<Longrightarrow> operand (shape b) b (\<lambda>k. data b ! k)"
  by (simp add: operand_def)

lemma operand_scalar: "operand s (scalar v) (\<lambda>k. v)"
  by (auto simp: operand_def)

lemma operand_tmap: "operand s b g \<Longrightarrow> operand s (tmap h b) (\<lambda>k. h (g k))"
  unfolding operand_def by (auto simp: scalar_def tmap_def well_shaped_def)

lemma well_shaped_tab: "prod_list s = n \<Longrightarrow> well_shaped \<lparr>shape = s, data = map u [0..<n]\<rparr>"
  by (simp add: well_shaped_def)

lemma elementwise_tab:
  assumes a: "shape a = s" "data a = map u [0..<n]" "prod_list s = n"
    and b: "operand s b g"
  shows "elementwise f a b = Inr \<lparr>shape = s, data = map (\<lambda>k. f (u k) (g k)) [0..<n]\<rparr>"
proof -
  have wa: "well_shaped a" using a by (simp add: well_shaped_def)
  from b consider (tensor) "shape b = s" "well_shaped b" "\<forall>k < length (data b). data b ! k = g k"
    | (scalar) v where "b = scalar v" "\<forall>k. g k = v"
    unfolding operand_def by blast
  then show ?thesis
  proof cases
    case tensor
    then have len: "length (data b) = n" using a by (simp add: well_shaped_def)
    have "map2 f (data a) (data b) = map (\<lambda>k. f (u k) (g k)) [0..<n]"
      using a len tensor(3) by (intro nth_equalityI) simp_all
    then show ?thesis
      using elementwise_same [of a b f] wa tensor a by simp
  next
    case scalar
    have "map (\<lambda>x. f x v) (data a) = map (\<lambda>k. f (u k) (g k)) [0..<n]"
      using a scalar by simp
    then show ?thesis
      using elementwise_scalar_right [OF wa, of f v] scalar a by simp
  qed
qed

lemma elementwise_tab_left:
  assumes "shape b = s" "data b = map u [0..<n]" "prod_list s = n"
  shows "elementwise f (scalar v) b = Inr \<lparr>shape = s, data = map (\<lambda>k. f v (u k)) [0..<n]\<rparr>"
proof -
  have "well_shaped b" using assms by (simp add: well_shaped_def)
  from elementwise_scalar_left [OF this, of f v] assms show ?thesis by simp
qed

lemma tmap_tab:
  "tmap h \<lparr>shape = s, data = map u [0..<n]\<rparr> = \<lparr>shape = s, data = map (\<lambda>k. h (u k)) [0..<n]\<rparr>"
  by (simp add: tmap_def comp_def)

lemma concat_map_singleton: "concat (map (\<lambda>x. [f x]) xs) = map f xs"
  by (induction xs) simp_all

lemma reduce_axis_last:
  assumes "shape t = s @ [n]"
  shows "reduce_axis (length s) t =
           \<lparr>shape = s,
            data = map (\<lambda>oi. sum_list (map (\<lambda>j. data t ! (oi * n + j)) [0..<n])) [0..<prod_list s]\<rparr>"
  using assms by (simp add: reduce_axis_def Let_def concat_map_singleton)

lemma reduce_axis_last_tab:
  assumes "prod_list s * n = m"
  shows "reduce_axis (length s) \<lparr>shape = s @ [n], data = map u [0..<m]\<rparr> =
           \<lparr>shape = s,
            data = map (\<lambda>oi. sum_list (map (\<lambda>j. u (oi * n + j)) [0..<n])) [0..<prod_list s]\<rparr>"
proof -
  have "map (\<lambda>oi. sum_list (map (\<lambda>j. map u [0..<m] ! (oi * n + j)) [0..<n])) [0..<prod_list s]
      = map (\<lambda>oi. sum_list (map (\<lambda>j. u (oi * n + j)) [0..<n])) [0..<prod_list s]"
  proof (rule map_cong [OF refl], rule arg_cong [of _ _ sum_list], rule map_cong [OF refl])
    fix oi j assume "oi \<in> set [0..<prod_list s]" "j \<in> set [0..<n]"
    then have "oi * n + j < Suc oi * n" "Suc oi * n \<le> prod_list s * n"
      by (simp, intro mult_le_mono1, simp)
    then have "oi * n + j < m" using assms by simp
    then show "map u [0..<m] ! (oi * n + j) = u (oi * n + j)" by simp
  qed
  then show ?thesis
    using reduce_axis_last [of "\<lparr>shape = s @ [n], data = map u [0..<m]\<rparr>" s n] by simp
qed

section \<open>Properties of \<^verbatim>\<open>log_normal_pdf\<close>\<close>

lemma sum_list_upt: "sum_list (map f [0..<n]) = (\<Sum>j<n. f j)"
  by (simp add: interv_sum_list_conv_sum_set_nat atLeast0LessThan)

lemma reduce_sum_axis1_tab:
  assumes "b * d = n"
  shows "reduce_sum \<lparr>shape = [b, d], data = map u [0..<n]\<rparr> [1] =
           Inr \<lparr>shape = [b],
                data = map (\<lambda>i. sum_list (map (\<lambda>j. u (i * d + j)) [0..<d])) [0..<b]\<rparr>"
  using reduce_axis_last_tab [of "[b]" d n u] assms
  by (simp add: reduce_sum_def)

lemma log_normal_pdf_pointwise:
  assumes sv: "shape sv = s" "well_shaped sv"
    and m: "operand s mean gm" and lv: "operand s logvar gl"
  shows "log_normal_pdf sv mean logvar raxis =
           reduce_sum \<lparr>shape = s,
                       data = map (\<lambda>k. normal_logpdf (data sv ! k) (gm k) (gl k))
                                  [0..<prod_list s]\<rparr> [raxis]"
proof -
  define n where "n = prod_list s"
  have pn: "prod_list s = n" by (simp add: n_def)
  have dsv: "data sv = map (\<lambda>k. data sv ! k) [0..<n]"
    using sv map_nth [of "data sv"] by (simp add: well_shaped_def n_def)
  let ?D = "\<lparr>shape = s, data = map (\<lambda>k. data sv ! k - gm k) [0..<n]\<rparr>"
  let ?S = "\<lparr>shape = s, data = map (\<lambda>k. (data sv ! k - gm k)\<^sup>2) [0..<n]\<rparr>"
  let ?Q1 = "\<lparr>shape = s, data = map (\<lambda>k. (data sv ! k - gm k)\<^sup>2 * exp (- gl k)) [0..<n]\<rparr>"
  let ?Q2 = "\<lparr>shape = s, data = map (\<lambda>k. (data sv ! k - gm k)\<^sup>2 * exp (- gl k) + gl k) [0..<n]\<rparr>"
  let ?Q3 = "\<lparr>shape = s, data = map (\<lambda>k. (data sv ! k - gm k)\<^sup>2 * exp (- gl k) + gl k + ln (2 * pi)) [0..<n]\<rparr>"
  let ?Q4 = "\<lparr>shape = s, data = map (\<lambda>k. - 0.5 * ((data sv ! k - gm k)\<^sup>2 * exp (- gl k) + gl k + ln (2 * pi))) [0..<n]\<rparr>"
  have s1: "elementwise (-) sv mean = Inr ?D"
    using sv(1) dsv pn m by (rule elementwise_tab)
  have s2: "tmap (\<lambda>v. v\<^sup>2) ?D = ?S"
    by (rule tmap_tab)
  have o3: "operand s (tmap exp (tmap uminus logvar)) (\<lambda>k. exp (- gl k))"
    using lv by (intro operand_tmap)
  have s3: "elementwise (*) ?S (tmap exp (tmap uminus logvar)) = Inr ?Q1"
    using _ _ pn o3 by (rule elementwise_tab) simp_all
  have s4: "elementwise (+) ?Q1 logvar = Inr ?Q2"
    using _ _ pn lv by (rule elementwise_tab) simp_all
  have s5: "elementwise (+) ?Q2 (scalar (ln (2 * pi))) = Inr ?Q3"
    using _ _ pn operand_scalar by (rule elementwise_tab) simp_all
  have s6: "elementwise (*) (scalar (- 0.5)) ?Q3 = Inr ?Q4"
    using _ _ pn by (rule elementwise_tab_left) simp_all
  show ?thesis
    by (simp only: log_normal_pdf_def Let_def s1 s2 s3 s4 s5 s6 and_then_simps normal_logpdf_def pn)
qed

lemma log_normal_pdf_tab:
  assumes sv: "shape sv = [b, d]" "well_shaped sv"
    and m: "operand [b, d] mean gm" and lv: "operand [b, d] logvar gl"
  shows "log_normal_pdf sv mean logvar 1 =
           Inr \<lparr>shape = [b],
                data = map (\<lambda>i. sum_list (map (\<lambda>j. normal_logpdf (data sv ! (i * d + j))
                                                      (gm (i * d + j)) (gl (i * d + j)))
                                              [0..<d]))
                           [0..<b]\<rparr>"
  unfolding log_normal_pdf_pointwise [OF assms]
  by (rule reduce_sum_axis1_tab) simp

lemma at2_index:
  assumes "shape t = [b, d]" "well_shaped t" "i < b" "j < d"
  shows "i * d + j < length (data t)" and "at2 t i j = data t ! (i * d + j)"
proof -
  have "i * d + j < Suc i * d" "Suc i * d \<le> b * d"
    using assms(3,4) by (simp, intro mult_le_mono1, simp)
  then show "i * d + j < length (data t)"
    using assms(1,2) by (simp add: well_shaped_def)
  show "at2 t i j = data t ! (i * d + j)"
    using assms(1) by (simp add: at2_def)
qed


lemma inference_shape: "sequential_shape (inference_layers L) [28, 28, 1] = Inr [2 * L]"
  by (simp add: sequential_shape_def inference_layers_def conv_output_length_def)

lemma inference_shape_only:
  "sequential_shape (inference_layers L) s = (if s = [28, 28, 1] then Inr [2 * L] else Inl ValueError)"
  by (simp add: sequential_shape_def inference_layers_def conv_output_length_def)

lemma generative_shape: "sequential_shape (generative_layers L) [L] = Inr [28, 28, 1]"
  by (simp add: sequential_shape_def generative_layers_def deconv_output_length_def)

lemma generative_shape_only:
  "sequential_shape (generative_layers L) s = (if s = [L] then Inr [28, 28, 1] else Inl ValueError)"
  by (simp add: sequential_shape_def generative_layers_def deconv_output_length_def)

lemma runs_layers_zero_net: "runs_layers layers (zero_net layers)"
  by (auto simp: runs_layers_def zero_net_def well_shaped_def split: list.splits sum.splits)

lemma is_CVAE_zero_model: "is_CVAE (zero_model L) L"
  by (simp add: is_CVAE_def zero_model_def runs_layers_zero_net)

section \<open>Properties of the model\<close>

lemma concat_uniform_length:
  "(\<And>i. i < b \<Longrightarrow> length (f i) = n) \<Longrightarrow> length (concat (map f [0..<b])) = b * n"
  by (induction b) simp_all

lemma concat_uniform_nth:
  assumes "\<And>i. i < b \<Longrightarrow> length (f i) = n" and "i < b" and "j < n"
  shows "concat (map f [0..<b]) ! (i * n + j) = f i ! j"
  using assms
proof (induction b)
  case 0
  then show ?case by simp
next
  case (Suc b)
  have len: "length (concat (map f [0..<b])) = b * n"
    using Suc.prems(1) by (intro concat_uniform_length) simp
  show ?case
  proof (cases "i < b")
    case True
    then have "i * n + j < Suc i * n" "Suc i * n \<le> b * n"
      using Suc.prems(3) by (simp, intro mult_le_mono1, simp)
    then have "i * n + j < b * n" by simp
    moreover have "concat (map f [0..<b]) ! (i * n + j) = f i ! j"
      using Suc.prems True by (intro Suc.IH) simp_all
    ultimately show ?thesis by (simp add: nth_append len)
  next
    case False
    with Suc.prems(2) have "i = b" by simp
    then show ?thesis by (simp add: nth_append len)
  qed
qed

lemma tf_split_halves:
  assumes "shape h = [b, 2 * L]" and "well_shaped h"
  shows "\<exists>mean logvar. tf_split h = Inr (mean, logvar)
           \<and> shape mean = [b, L] \<and> well_shaped mean
           \<and> shape logvar = [b, L] \<and> well_shaped logvar
           \<and> (\<forall>i < b. \<forall>j < L. at2 mean i j = at2 h i j \<and> at2 logvar i j = at2 h i (L + j))"
proof -
  let ?xs = "data h"
  let ?fm = "\<lambda>i. take L (block (2 * L) i ?xs)"
  let ?fl = "\<lambda>i. drop L (block (2 * L) i ?xs)"
  let ?mean = "\<lparr>shape = [b, L], data = concat (map ?fm [0..<b])\<rparr>"
  let ?logvar = "\<lparr>shape = [b, L], data = concat (map ?fl [0..<b])\<rparr>"
  have len: "length ?xs = b * (2 * L)"
    using assms by (simp add: well_shaped_def)
  have bl: "\<And>i. i < b \<Longrightarrow> length (block (2 * L) i ?xs) = 2 * L"
    using len by (rule block_length_le [rotated])
  have lm: "\<And>i. i < b \<Longrightarrow> length (?fm i) = L" and ll: "\<And>i. i < b \<Longrightarrow> length (?fl i) = L"
    using bl by simp_all
  have eq: "tf_split h = Inr (?mean, ?logvar)"
    using assms(1) by (simp add: tf_split_def Let_def)
  have wm: "well_shaped ?mean" and wl: "well_shaped ?logvar"
    using concat_uniform_length [of b ?fm L, OF lm] concat_uniform_length [of b ?fl L, OF ll]
    by (simp_all add: well_shaped_def)
  have "\<forall>i < b. \<forall>j < L. at2 ?mean i j = at2 h i j \<and> at2 ?logvar i j = at2 h i (L + j)"
  proof (intro allI impI)
    fix i j assume i: "i < b" and j: "j < L"
    have in1: "i * (2 * L) + j < length ?xs" and in2: "i * (2 * L) + (L + j) < length ?xs"
    proof -
      have "i * (2 * L) + (L + j) < Suc i * (2 * L)" using j by simp
      moreover have "Suc i * (2 * L) \<le> b * (2 * L)" using i by (intro mult_le_mono1) simp
      ultimately show "i * (2 * L) + (L + j) < length ?xs" using len by simp
      then show "i * (2 * L) + j < length ?xs" by simp
    qed
    have "at2 ?mean i j = ?fm i ! j"
      using concat_uniform_nth [of b ?fm L i j, OF lm i j] by (simp add: at2_def)
    also have "\<dots> = ?xs ! (i * (2 * L) + j)"
      using j in1 by (simp add: block_nth)
    finally have m: "at2 ?mean i j = at2 h i j"
      using assms(1) by (simp add: at2_def)
    have "at2 ?logvar i j = ?fl i ! j"
      using concat_uniform_nth [of b ?fl L i j, OF ll i j] by (simp add: at2_def)
    also have "\<dots> = block (2 * L) i ?xs ! (L + j)"
      using bl [OF i] by simp
    also have "\<dots> = ?xs ! (i * (2 * L) + (L + j))"
      using j in2 by (intro block_nth) simp_all
    finally have l: "at2 ?logvar i j = at2 h i (L + j)"
      using assms(1) by (simp add: at2_def)
    from m l show "at2 ?mean i j = at2 h i j \<and> at2 ?logvar i j = at2 h i (L + j)" ..
  qed
  with eq wm wl show ?thesis
    by (intro exI [of _ ?mean] exI [of _ ?logvar]) simp
qed

lemma runs_layers_shape:
  assumes "runs_layers layers net" and "well_shaped x" and "shape x = b # s"
    and "sequential_shape layers s = Inr s'"
  shows "\<exists>y. net x = Inr y \<and> shape y = b # s' \<and> well_shaped y"
proof -
  from assms(1,2) have "case shape x of
           [] \<Rightarrow> (\<exists>e. net x = Inl e)
         | b # s \<Rightarrow>
             (case sequential_shape layers s of
                Inl e \<Rightarrow> net x = Inl e
              | Inr s' \<Rightarrow> (\<exists>y. net x = Inr y \<and> shape y = b # s' \<and> well_shaped y))"
    unfolding runs_layers_def by blast
  then show ?thesis
    by (simp only: assms(3,4) list.simps sum.simps)
qed

lemma inference_net_runs:
  assumes "is_CVAE model L" and "shape x = [b, 28, 28, 1]" and "well_shaped x"
  shows "\<exists>h. inference_net model x = Inr h \<and> shape h = [b, 2 * L] \<and> well_shaped h"
proof -
  from assms(1) have "runs_layers (inference_layers L) (inference_net model)"
    by (simp add: is_CVAE_def)
  from runs_layers_shape [OF this assms(3,2) inference_shape] show ?thesis .
qed

lemma generative_net_runs:
  assumes "is_CVAE model L" and "shape z = [b, L]" and "well_shaped z"
  shows "\<exists>y. generative_net model z = Inr y \<and> shape y = [b, 28, 28, 1] \<and> well_shaped y"
proof -
  from assms(1) have "runs_layers (generative_layers L) (generative_net model)"
    by (simp add: is_CVAE_def)
  from runs_layers_shape [OF this assms(3,2) generative_shape] show ?thesis .
qed

lemma forward_pass:
  assumes "is_CVAE model L" and "shape x = [b, 28, 28, 1]" and "well_shaped x"
  obtains h mean logvar z x_logit where
    "inference_net model x = Inr h" "shape h = [b, 2 * L]" "well_shaped h"
    "encode model x = Inr (mean, logvar)"
    "shape mean = [b, L]" "well_shaped mean" "shape logvar = [b, L]" "well_shaped logvar"
    "\<forall>i < b. \<forall>j < L. at2 mean i j = at2 h i j \<and> at2 logvar i j = at2 h i (L + j)"
    "reparameterize noise mean logvar = Inr z" "shape z = [b, L]" "well_shaped z"
    "z = \<lparr>shape = [b, L],
          data = map (\<lambda>k. noise k * exp (data logvar ! k * 0.5) + data mean ! k) [0..<b * L]\<rparr>"
    "decode model z False = Inr x_logit" "shape x_logit = [b, 28, 28, 1]" "well_shaped x_logit"
proof -
  from inference_net_runs [OF assms] obtain h where
    h: "inference_net model x = Inr h" "shape h = [b, 2 * L]" "well_shaped h" by blast
  from tf_split_halves [OF h(2,3)] obtain mean logvar where
    s: "tf_split h = Inr (mean, logvar)"
      "shape mean = [b, L]" "well_shaped mean" "shape logvar = [b, L]" "well_shaped logvar"
      "\<forall>i < b. \<forall>j < L. at2 mean i j = at2 h i j \<and> at2 logvar i j = at2 h i (L + j)"
    by blast
  have e: "encode model x = Inr (mean, logvar)"
    by (simp add: encode_def h(1) s(1))
  define z where "z = \<lparr>shape = [b, L],
          data = map (\<lambda>k. noise k * exp (data logvar ! k * 0.5) + data mean ! k) [0..<b * L]\<rparr>"
  have lm: "length (data mean) = b * L"
    using s(2,3) by (simp add: well_shaped_def)
  have r: "reparameterize noise mean logvar = Inr z"
    using reparameterize_eq [OF s(3) s(5), of noise] s(2,4) lm by (simp add: z_def)
  have z: "shape z = [b, L]" "well_shaped z"
    by (simp_all add: z_def well_shaped_def)
  from generative_net_runs [OF assms(1) z] obtain y where
    y: "generative_net model z = Inr y" "shape y = [b, 28, 28, 1]" "well_shaped y" by blast
  have d: "decode model z False = Inr y"
    by (simp add: decode_def y(1))
  show ?thesis
    by (rule that [OF h(1) h(2) h(3) e s(2) s(3) s(4) s(5) s(6) r z(1) z(2) z_def d y(2) y(3)])
qed

section \<open>The shapes through the model\<close>

text \<open>
  Claim C6. The encoder of a model built by \<^verbatim>\<open>CVAE(latent_dim)\<close> ends in
  \<open>2 * latent_dim\<close> outputs per example and the decoder takes \<open>latent_dim\<close> inputs per
  example, and nothing else, to an output of shape \<open>28 \<times> 28 \<times> 1\<close>. On every batch of \<open>b\<close>
  images, \<^verbatim>\<open>encode\<close> splits the encoder's output evenly into a mean and a log-variance of
  shape \<open>b \<times> latent_dim\<close> (its first and its last \<open>latent_dim\<close> columns),
  \<^verbatim>\<open>reparameterize\<close> returns a sample of that shape, and \<^verbatim>\<open>decode\<close> returns logits of
  shape \<open>b \<times> 28 \<times> 28 \<times> 1\<close>: the batch size is preserved from end to end.
\<close>

theorem cvae_shapes_preserve_batch:
  assumes "is_CVAE model L" and "shape x = [b, 28, 28, 1]" and "well_shaped x"
  shows "sequential_shape (inference_layers L) [28, 28, 1] = Inr [2 * L]
       \<and> (\<forall>s. sequential_shape (generative_layers L) s
               = (if s = [L] then Inr [28, 28, 1] else Inl ValueError))
       \<and> (\<exists>h mean logvar z x_logit.
            inference_net model x = Inr h \<and> shape h = [b, 2 * L]
          \<and> encode model x = Inr (mean, logvar)
          \<and> shape mean = [b, L] \<and> shape logvar = [b, L]
          \<and> (\<forall>i < b. \<forall>j < L. at2 mean i j = at2 h i j \<and> at2 logvar i j = at2 h i (L + j))
          \<and> reparameterize noise mean logvar = Inr z \<and> shape z = [b, L]
          \<and> decode model z False = Inr x_logit \<and> shape x_logit = [b, 28, 28, 1])"
proof (rule forward_pass [OF assms, of noise])
  fix h mean logvar z x_logit
  assume h: "inference_net model x = Inr h" "shape h = [b, 2 * L]" "well_shaped h"
    and e: "encode model x = Inr (mean, logvar)"
    and m: "shape mean = [b, L]" "well_shaped mean"
    and l: "shape logvar = [b, L]" "well_shaped logvar"
    and halves: "\<forall>i < b. \<forall>j < L. at2 mean i j = at2 h i j \<and> at2 logvar i j = at2 h i (L + j)"
    and z: "reparameterize noise mean logvar = Inr z" "shape z = [b, L]" "well_shaped z"
      "z = \<lparr>shape = [b, L],
          data = map (\<lambda>k. noise k * exp (data logvar ! k * 0.5) + data mean ! k) [0..<b * L]\<rparr>"
    and d: "decode model z False = Inr x_logit" "shape x_logit = [b, 28, 28, 1]"
      "well_shaped x_logit"
  have "inference_net model x = Inr h \<and> shape h = [b, 2 * L]
          \<and> encode model x = Inr (mean, logvar)
          \<and> shape mean = [b, L] \<and> shape logvar = [b, L]
          \<and> (\<forall>i < b. \<forall>j < L. at2 mean i j = at2 h i j \<and> at2 logvar i j = at2 h i (L + j))
          \<and> reparameterize noise mean logvar = Inr z \<and> shape z = [b, L]
          \<and> decode model z False = Inr x_logit \<and> shape x_logit = [b, 28, 28, 1]"
    using h(1,2) e m(1) l(1) halves z(1,2) d(1,2) by (intro conjI)
  then have "\<exists>h mean logvar z x_logit.
            inference_net model x = Inr h \<and> shape h = [b, 2 * L]
          \<and> encode model x = Inr (mean, logvar)
          \<and> shape mean = [b, L] \<and> shape logvar = [b, L]
          \<and> (\<forall>i < b. \<forall>j < L. at2 mean i j = at2 h i j \<and> at2 logvar i j = at2 h i (L + j))
          \<and> reparameterize noise mean logvar = Inr z \<and> shape z = [b, L]
          \<and> decode model z False = Inr x_logit \<and> shape x_logit = [b, 28, 28, 1]"
    by (intro exI)
  moreover have "\<forall>s. sequential_shape (generative_layers L) s
               = (if s = [L] then Inr [28, 28, 1] else Inl ValueError)"
    by (intro allI) (rule generative_shape_only)
  ultimately show ?thesis
    using inference_shape [of L] by (intro conjI)
qed

section \<open>Properties of \<^verbatim>\<open>compute_loss\<close>\<close>

lemma operand_tab: "prod_list s = n \<Longrightarrow> operand s \<lparr>shape = s, data = map g [0..<n]\<rparr> g"
  by (simp add: operand_def well_shaped_def)

lemma cross_entropy_tab:
  assumes "shape logits = s" "well_shaped logits" "shape labels = s" "well_shaped labels"
    and "prod_list s = n"
  shows "sigmoid_cross_entropy_with_logits logits labels =
           Inr \<lparr>shape = s,
                data = map (\<lambda>k. cross_entropy_with_logit (data logits ! k) (data labels ! k))
                           [0..<n]\<rparr>"
proof -
  have "length (data logits) = n" "length (data labels) = n"
    using assms by (simp_all add: well_shaped_def)
  then have "map2 cross_entropy_with_logit (data logits) (data labels)
      = map (\<lambda>k. cross_entropy_with_logit (data logits ! k) (data labels ! k)) [0..<n]"
    by (intro nth_equalityI) simp_all
  then show ?thesis
    using assms(1,3) by (simp add: sigmoid_cross_entropy_with_logits_def)
qed

lemma reduce_sum_axes123_tab:
  assumes "b * h * w * c = n"
  shows "reduce_sum \<lparr>shape = [b, h, w, c], data = map u [0..<n]\<rparr> [1, 2, 3] =
           Inr \<lparr>shape = [b],
                data = map (\<lambda>i. sum_list (map (\<lambda>y. sum_list (map (\<lambda>x. sum_list (map (\<lambda>k.
                              u (((i * h + y) * w + x) * c + k)) [0..<c])) [0..<w])) [0..<h]))
                           [0..<b]\<rparr>"
proof -
  let ?T = "\<lparr>shape = [b, h, w, c], data = map u [0..<n]\<rparr>"
  let ?u3 = "\<lambda>oi. sum_list (map (\<lambda>k. u (oi * c + k)) [0..<c])"
  let ?u2 = "\<lambda>oi. sum_list (map (\<lambda>x. ?u3 (oi * w + x)) [0..<w])"
  let ?u1 = "\<lambda>oi. sum_list (map (\<lambda>y. ?u2 (oi * h + y)) [0..<h])"
  have r3: "reduce_axis 3 ?T = \<lparr>shape = [b, h, w], data = map ?u3 [0..<b * h * w]\<rparr>"
    using reduce_axis_last_tab [of "[b, h, w]" c n u] assms
    by (simp add: mult.assoc numeral_3_eq_3)
  have r2: "reduce_axis 2 \<lparr>shape = [b, h, w], data = map ?u3 [0..<b * h * w]\<rparr>
      = \<lparr>shape = [b, h], data = map ?u2 [0..<b * h]\<rparr>"
    using reduce_axis_last_tab [of "[b, h]" w "b * h * w" ?u3]
    by (simp add: mult.assoc numeral_2_eq_2)
  have r1: "reduce_axis 1 \<lparr>shape = [b, h], data = map ?u2 [0..<b * h]\<rparr>
      = \<lparr>shape = [b], data = map ?u1 [0..<b]\<rparr>"
    using reduce_axis_last_tab [of "[b]" h "b * h" ?u2] by simp
  have srt: "rev (sort [1, 2, 3 :: nat]) = [3, 2, 1]" by simp
  have "reduce_sum ?T [1, 2, 3] = Inr (reduce_axis 1 (reduce_axis 2 (reduce_axis 3 ?T)))"
    unfolding reduce_sum_def srt by simp
  then show ?thesis
    by (simp only: r3 r2 r1)
qed

lemma reduce_mean_tab:
  assumes "0 < n"
  shows "reduce_mean \<lparr>shape = s, data = map u [0..<n]\<rparr> =
           Inr (scalar ((\<Sum>i < n. u i) / real n))"
  using assms by (simp add: reduce_mean_def sum_list_upt)

lemma tmap_scalar: "tmap f (scalar v) = scalar (f v)"
  by (simp add: tmap_def scalar_def)

lemma logpx_z_tab:
  assumes "shape x = [b, h, w, c]" and "shape x_logit = [b, h, w, c]"
  shows "- sum_list (map (\<lambda>y. sum_list (map (\<lambda>xx. sum_list (map (\<lambda>k.
             cross_entropy_with_logit (data x_logit ! (((i * h + y) * w + xx) * c + k))
                                      (data x ! (((i * h + y) * w + xx) * c + k)))
             [0..<c])) [0..<w])) [0..<h])
         = logpx_z x_logit x i"
  using assms by (simp add: logpx_z_def at4_def sum_list_upt)

lemma logpz_tab:
  assumes "shape z = [b, d]"
  shows "sum_list (map (\<lambda>j. normal_logpdf (data z ! (i * d + j)) 0 0) [0..<d]) = logpz z i"
  using assms by (simp add: logpz_def at2_def sum_list_upt)

lemma logqz_x_tab:
  assumes "shape z = [b, d]" and "shape mean = [b, d]" and "shape logvar = [b, d]"
  shows "sum_list (map (\<lambda>j. normal_logpdf (data z ! (i * d + j)) (data mean ! (i * d + j))
                                         (data logvar ! (i * d + j))) [0..<d])
         = logqz_x z mean logvar i"
  using assms by (simp add: logqz_x_def at2_def sum_list_upt)

lemma compute_loss_value:
  assumes "is_CVAE model L" and "shape x = [b, 28, 28, 1]" and "well_shaped x" and "0 < b"
  shows "\<exists>mean logvar z x_logit.
           encode model x = Inr (mean, logvar)
         \<and> reparameterize noise mean logvar = Inr z
         \<and> decode model z False = Inr x_logit
         \<and> compute_loss model noise x =
             Inr (scalar (- ((\<Sum>i < b. logpx_z x_logit x i + logpz z i - logqz_x z mean logvar i)
                             / real b)))"
proof (rule forward_pass [OF assms(1-3), of noise])
  fix h mean logvar z x_logit
  assume e: "encode model x = Inr (mean, logvar)"
    and m: "shape mean = [b, L]" "well_shaped mean"
    and l: "shape logvar = [b, L]" "well_shaped logvar"
    and z: "reparameterize noise mean logvar = Inr z" "shape z = [b, L]" "well_shaped z"
    and d: "decode model z False = Inr x_logit" "shape x_logit = [b, 28, 28, 1]"
      "well_shaped x_logit"
  let ?ce = "\<lambda>k. cross_entropy_with_logit (data x_logit ! k) (data x ! k)"
  let ?CE = "\<lparr>shape = [b, 28, 28, 1], data = map ?ce [0..<b * 28 * 28 * 1]\<rparr>"
  let ?s = "\<lambda>i. sum_list (map (\<lambda>y. sum_list (map (\<lambda>xx. sum_list (map (\<lambda>k.
               ?ce (((i * 28 + y) * 28 + xx) * 1 + k)) [0..<1])) [0..<28])) [0..<28])"
  let ?pz = "\<lambda>i. sum_list (map (\<lambda>j. normal_logpdf (data z ! (i * L + j)) 0 0) [0..<L])"
  let ?qz = "\<lambda>i. sum_list (map (\<lambda>j. normal_logpdf (data z ! (i * L + j))
               (data mean ! (i * L + j)) (data logvar ! (i * L + j))) [0..<L])"
  let ?S = "\<lparr>shape = [b], data = map ?s [0..<b]\<rparr>"
  let ?NS = "\<lparr>shape = [b], data = map (\<lambda>i. - ?s i) [0..<b]\<rparr>"
  let ?PZ = "\<lparr>shape = [b], data = map ?pz [0..<b]\<rparr>"
  let ?QZ = "\<lparr>shape = [b], data = map ?qz [0..<b]\<rparr>"
  let ?T1 = "\<lparr>shape = [b], data = map (\<lambda>i. - ?s i + ?pz i) [0..<b]\<rparr>"
  let ?T2 = "\<lparr>shape = [b], data = map (\<lambda>i. - ?s i + ?pz i - ?qz i) [0..<b]\<rparr>"
  have pb: "prod_list [b] = b" by simp
  have ce: "sigmoid_cross_entropy_with_logits x_logit x = Inr ?CE"
    using d(2,3) assms(2,3) by (rule cross_entropy_tab) simp
  have rs: "reduce_sum ?CE [1, 2, 3] = Inr ?S"
    by (rule reduce_sum_axes123_tab) simp
  have ns: "tmap uminus ?S = ?NS"
    by (rule tmap_tab)
  have pz: "log_normal_pdf z (scalar 0) (scalar 0) 1 = Inr ?PZ"
    using z(2,3) operand_scalar operand_scalar by (rule log_normal_pdf_tab)
  have om: "operand [b, L] mean (\<lambda>k. data mean ! k)"
    using operand_tensor [OF m(2)] m(1) by simp
  have ol: "operand [b, L] logvar (\<lambda>k. data logvar ! k)"
    using operand_tensor [OF l(2)] l(1) by simp
  have qz: "log_normal_pdf z mean logvar 1 = Inr ?QZ"
    using z(2,3) om ol by (rule log_normal_pdf_tab)
  have t1: "elementwise (+) ?NS ?PZ = Inr ?T1"
    using _ _ pb operand_tab [OF pb] by (rule elementwise_tab) simp_all
  have t2: "elementwise (-) ?T1 ?QZ = Inr ?T2"
    using _ _ pb operand_tab [OF pb] by (rule elementwise_tab) simp_all
  have rm: "reduce_mean ?T2 = Inr (scalar ((\<Sum>i < b. - ?s i + ?pz i - ?qz i) / real b))"
    using assms(4) by (rule reduce_mean_tab)
  have loss: "compute_loss model noise x =
      Inr (scalar (- ((\<Sum>i < b. - ?s i + ?pz i - ?qz i) / real b)))"
    by (simp only: compute_loss_def e z(1) d(1) ce rs ns pz qz t1 t2 rm Let_def
        and_then_simps prod.case tmap_scalar)
  have "(\<Sum>i < b. - ?s i + ?pz i - ?qz i)
      = (\<Sum>i < b. logpx_z x_logit x i + logpz z i - logqz_x z mean logvar i)"
    by (simp only: logpx_z_tab [OF assms(2) d(2)] logpz_tab [OF z(2)] logqz_x_tab [OF z(2) m(1) l(1)])
  with loss have "compute_loss model noise x =
      Inr (scalar (- ((\<Sum>i < b. logpx_z x_logit x i + logpz z i - logqz_x z mean logvar i)
                      / real b)))"
    by (simp only:)
  with e z(1) d(1) show ?thesis
    by (intro exI conjI)
qed

text \<open>
  Claim C1. For every model built by \<^verbatim>\<open>CVAE(latent_dim)\<close> and every non-empty batch \<open>x\<close>
  of images, \<^verbatim>\<open>compute_loss\<close> returns the negative mean over the batch of
  \<open>logpx_z + logpz - logqz_x\<close>, for the mean and log-variance that \<^verbatim>\<open>encode\<close> returns on
  \<open>x\<close>, the sample \<open>z\<close> that \<^verbatim>\<open>reparameterize\<close> draws from them and the logits that
  \<^verbatim>\<open>decode\<close> returns on \<open>z\<close>.
\<close>

theorem compute_loss_negative_mean_elbo:
  assumes "is_CVAE model L" and "shape x = [b, 28, 28, 1]" and "well_shaped x" and "0 < b"
  shows "\<exists>mean logvar z x_logit.
           encode model x = Inr (mean, logvar)
         \<and> reparameterize noise mean logvar = Inr z
         \<and> decode model z False = Inr x_logit
         \<and> compute_loss model noise x =
             Inr (scalar (- ((\<Sum>i < b. logpx_z x_logit x i + logpz z i - logqz_x z mean logvar i)
                             / real b)))"
  using assms by (rule compute_loss_value)

section \<open>The functions of the model on small inputs\<close>

lemma reparameterize_run:
  "reparameterize example_noise example_mean example_logvar = Inr \<lparr>shape = [1, 2], data = [2, 1]\<rparr>"
  by (simp add: reparameterize_def example_mean_def example_logvar_def example_noise_def
      elementwise_def broadcast_shape_def pad_shape_def scalar_def random_normal_def block_def
      tmap_def Let_def upt_rec [of _ "Suc (Suc 0)"] upt_rec [of _ "Suc 0"] numeral_2_eq_2)

text \<open>The sample for mean \<open>(1, 2)\<close>, log-variance \<open>(0, 0)\<close> and noise \<open>(1, -1)\<close> is \<open>(2, 1)\<close>.\<close>

theorem reparameterize_elementwise_witness:
  "well_shaped example_mean \<and> well_shaped example_logvar
   \<and> shape example_logvar = shape example_mean
   \<and> (\<exists>z. reparameterize example_noise example_mean example_logvar = Inr z
          \<and> shape z = [1, 2] \<and> data z ! 0 = 2 \<and> data z ! 1 = 1
          \<and> at2 z 0 1 = example_noise 1 * exp (0.5 * at2 example_logvar 0 1) + at2 example_mean 0 1)"
proof -
  have w: "well_shaped example_mean" "well_shaped example_logvar"
    "shape example_logvar = shape example_mean"
    by (simp_all add: well_shaped_def example_mean_def example_logvar_def)
  from reparameterize_elementwise [OF w, of example_noise 1 2]
  obtain z where z: "reparameterize example_noise example_mean example_logvar = Inr z"
    "shape z = shape example_mean"
    "\<forall>k < length (data example_mean).
        data z ! k = example_noise k * exp (0.5 * data example_logvar ! k) + data example_mean ! k"
    "shape example_mean = [1, 2] \<longrightarrow>
       (\<forall>i < 1. \<forall>j < 2. at2 z i j
          = example_noise (i * 2 + j) * exp (0.5 * at2 example_logvar i j) + at2 example_mean i j)"
    by blast
  from z(3) have "data z ! 0 = 2" "data z ! 1 = 1"
    by (simp_all add: example_mean_def example_logvar_def example_noise_def)
  moreover from z(4) have "at2 z 0 1
      = example_noise 1 * exp (0.5 * at2 example_logvar 0 1) + at2 example_mean 0 1"
    by (simp add: example_mean_def)
  moreover from z(2) have "shape z = [1, 2]" by (simp add: example_mean_def)
  ultimately show ?thesis using w z(1) by blast
qed

lemma log_normal_pdf_run:
  "log_normal_pdf \<lparr>shape = [1, 1], data = [0]\<rparr> (scalar 0) (scalar 0) 1
     = Inr \<lparr>shape = [1], data = [- 0.5 * ln (2 * pi)]\<rparr>"
  by (simp add: log_normal_pdf_def elementwise_def broadcast_shape_def pad_shape_def scalar_def
      block_def tmap_def reduce_sum_def reduce_axis_def Let_def)

text \<open>
  With three Python numbers for arguments there is no axis 1 to sum along, and the call
  fails.
\<close>

lemma log_normal_pdf_scalar_arguments:
  "log_normal_pdf (scalar 0) (scalar 0) (scalar 0) 1 = Inl InvalidArgumentError"
  by (simp add: log_normal_pdf_def elementwise_def broadcast_shape_def pad_shape_def scalar_def
      block_def tmap_def reduce_sum_def Let_def)


text \<open>A batch of one image through the model with two latent dimensions.\<close>

theorem cvae_shapes_preserve_batch_witness:
  "is_CVAE (zero_model 2) 2 \<and> shape example_batch = [1, 28, 28, 1] \<and> well_shaped example_batch
   \<and> sequential_shape (inference_layers 2) [28, 28, 1] = Inr [4]
   \<and> sequential_shape (generative_layers 2) [3] = Inl ValueError
   \<and> (\<exists>mean logvar z x_logit.
          encode (zero_model 2) example_batch = Inr (mean, logvar)
        \<and> shape mean = [1, 2] \<and> shape logvar = [1, 2]
        \<and> reparameterize example_noise mean logvar = Inr z \<and> shape z = [1, 2]
        \<and> decode (zero_model 2) z False = Inr x_logit \<and> shape x_logit = [1, 28, 28, 1])"
proof -
  have w: "shape example_batch = [1, 28, 28, 1]" "well_shaped example_batch"
    by (simp_all add: example_batch_def well_shaped_def)
  note t = cvae_shapes_preserve_batch [OF is_CVAE_zero_model w, of 2 example_noise]
  from t have "sequential_shape (inference_layers 2) [28, 28, 1] = Inr [4]"
    by simp
  moreover from t have "sequential_shape (generative_layers 2) [3] = Inl ValueError"
    by simp
  moreover from t have "\<exists>mean logvar z x_logit.
          encode (zero_model 2) example_batch = Inr (mean, logvar)
        \<and> shape mean = [1, 2] \<and> shape logvar = [1, 2]
        \<and> reparameterize example_noise mean logvar = Inr z \<and> shape z = [1, 2]
        \<and> decode (zero_model 2) z False = Inr x_logit \<and> shape x_logit = [1, 28, 28, 1]"
    by blast
  ultimately show ?thesis using w is_CVAE_zero_model [of 2] by blast
qed

lemma encode_zero_model_run:
  "encode (zero_model 2) example_batch
     = Inr (\<lparr>shape = [1, 2], data = replicate 2 0\<rparr>, \<lparr>shape = [1, 2], data = replicate 2 0\<rparr>)"
proof -
  have "inference_net (zero_model 2) example_batch = Inr \<lparr>shape = [1, 4], data = replicate 4 0\<rparr>"
    using inference_shape [of 2]
    by (simp add: zero_model_def zero_net_def example_batch_def)
  moreover have "tf_split \<lparr>shape = [1, 4], data = replicate 4 0\<rparr>
      = Inr (\<lparr>shape = [1, 2], data = replicate 2 0\<rparr>, \<lparr>shape = [1, 2], data = replicate 2 0\<rparr>)"
    by (simp add: tf_split_def block_def Let_def)
  ultimately show ?thesis by (simp add: encode_def)
qed

lemma decode_zero_model_run:
  "shape z = [1, 2] \<Longrightarrow>
   decode (zero_model 2) z False = Inr \<lparr>shape = [1, 28, 28, 1], data = replicate 784 0\<rparr>"
  by (simp add: decode_def zero_model_def zero_net_def generative_shape)

lemma cross_entropy_zero: "cross_entropy_with_logit 0 0 = ln 2"
  by (simp add: cross_entropy_with_logit_def)

lemma logpx_z_zero: "logpx_z example_batch example_batch 0 = - (784 * ln 2)"
proof -
  have "\<And>r c k. r < 28 \<Longrightarrow> c < 28 \<Longrightarrow> k < 1 \<Longrightarrow> at4 example_batch 0 r c k = 0"
  proof -
    fix r c k :: nat assume "r < 28" "c < 28" "k < 1"
    then have "r * 28 + c < 784" by simp
    with \<open>k < 1\<close> show "at4 example_batch 0 r c k = 0"
      by (simp add: at4_def example_batch_def)
  qed
  then have "(\<Sum>r < 28. \<Sum>c < 28. \<Sum>k < 1.
        cross_entropy_with_logit (at4 example_batch 0 r c k) (at4 example_batch 0 r c k))
      = (\<Sum>r < (28::nat). \<Sum>c < (28::nat). \<Sum>k < (1::nat). ln 2)"
    by (intro sum.cong refl) (simp add: cross_entropy_zero)
  also have "\<dots> = 784 * ln 2" by simp
  finally show ?thesis
    by (simp add: logpx_z_def example_batch_def)
qed

text \<open>
  On a black image the model whose networks return zeros has, for each of the 784 pixels,
  the cross-entropy \<open>ln 2\<close>, and its two Gaussian terms cancel: the loss is \<open>784 * ln 2\<close>.
\<close>

theorem compute_loss_negative_mean_elbo_witness:
  "is_CVAE (zero_model 2) 2 \<and> shape example_batch = [1, 28, 28, 1]
   \<and> well_shaped example_batch \<and> (0::nat) < 1
   \<and> compute_loss (zero_model 2) example_noise example_batch = Inr (scalar (784 * ln 2))"
proof -
  have w: "shape example_batch = [1, 28, 28, 1]" "well_shaped example_batch"
    by (simp_all add: example_batch_def well_shaped_def)
  have pos: "(0::nat) < 1" by simp
  from compute_loss_negative_mean_elbo [OF is_CVAE_zero_model w pos, of 2 example_noise]
  obtain mean logvar z x_logit where
    e: "encode (zero_model 2) example_batch = Inr (mean, logvar)"
    and z: "reparameterize example_noise mean logvar = Inr z"
    and d: "decode (zero_model 2) z False = Inr x_logit"
    and loss: "compute_loss (zero_model 2) example_noise example_batch =
             Inr (scalar (- ((\<Sum>i < 1. logpx_z x_logit example_batch i + logpz z i
                                - logqz_x z mean logvar i) / real 1)))"
    by blast
  from e encode_zero_model_run
  have ml: "mean = \<lparr>shape = [1, 2], data = replicate 2 0\<rparr>"
    "logvar = \<lparr>shape = [1, 2], data = replicate 2 0\<rparr>"
    by auto
  have "well_shaped mean" "well_shaped logvar" "shape logvar = shape mean"
    by (simp_all add: ml well_shaped_def)
  from reparameterize_eq [OF this, of example_noise] z
  have sz: "shape z = [1, 2]" by (auto simp: ml)
  from d have xl: "x_logit = example_batch"
    by (simp add: decode_zero_model_run [OF sz] example_batch_def)
  have "logqz_x z mean logvar 0 = logpz z 0"
    by (simp add: logqz_x_def logpz_def at2_def ml sz numeral_2_eq_2 lessThan_Suc)
  with loss have "compute_loss (zero_model 2) example_noise example_batch = Inr (scalar (784 * ln 2))"
    by (simp add: xl logpx_z_zero)
  with w pos is_CVAE_zero_model [of 2] show ?thesis by blast
qed

section \<open>Properties of the main program\<close>

lemma digit_inj:
  assumes "a < 10" and "b < 10" and "''0123456789'' ! a = ''0123456789'' ! b"
  shows "a = b"
proof -
  have "distinct ''0123456789''" by simp
  moreover have "a < length ''0123456789''" "b < length ''0123456789''" using assms by simp_all
  ultimately show ?thesis using assms(3) by (simp only: nth_eq_iff_index_eq)
qed

lemma format_04d_two_digits:
  assumes "n < 100"
  shows "format_04d n = [CHR ''0'', CHR ''0'', ''0123456789'' ! (n div 10), ''0123456789'' ! (n mod 10)]"
proof (cases "n < 10")
  case True
  then have d: "decimal n = [''0123456789'' ! n]"
    by (subst decimal.simps) simp
  have "replicate (4 - length [''0123456789'' ! n]) CHR ''0'' = [CHR ''0'', CHR ''0'', CHR ''0'']"
    by (simp add: numeral_3_eq_3)
  with True show ?thesis by (simp add: format_04d_def d)
next
  case False
  with assms have "n div 10 < 10" by simp
  then have "decimal (n div 10) = [''0123456789'' ! (n div 10)]"
    by (subst decimal.simps) simp
  with False have d: "decimal n = [''0123456789'' ! (n div 10), ''0123456789'' ! (n mod 10)]"
    by (subst decimal.simps) simp
  have "replicate (4 - length [''0123456789'' ! (n div 10), ''0123456789'' ! (n mod 10)]) CHR ''0''
      = [CHR ''0'', CHR ''0'']"
    by (simp add: numeral_2_eq_2)
  then show ?thesis by (simp add: format_04d_def d)
qed

lemma format_examples:
  "format_04d 0 = ''0000''" "format_04d 90 = ''0090''"
  by (simp_all add: format_04d_two_digits)

lemma format_04d_inj:
  assumes "a < 100" and "b < 100" and "format_04d a = format_04d b"
  shows "a = b"
proof -
  from assms have "''0123456789'' ! (a div 10) = ''0123456789'' ! (b div 10)"
    "''0123456789'' ! (a mod 10) = ''0123456789'' ! (b mod 10)"
    by (simp_all add: format_04d_two_digits)
  moreover have "a div 10 < 10" "b div 10 < 10" "a mod 10 < 10" "b mod 10 < 10"
    using assms(1,2) by simp_all
  ultimately have "a div 10 = b div 10" "a mod 10 = b mod 10"
    by (blast intro: digit_inj)+
  then show ?thesis by (metis div_mult_mod_eq)
qed

lemma chunks_nonempty: "c \<in> set (chunks n xs) \<Longrightarrow> c \<noteq> []"
proof (induction n xs rule: chunks.induct)
  case (1 n xs)
  show ?case
  proof (cases "n = 0 \<or> xs = []")
    case True
    with "1.prems" show ?thesis by (simp add: chunks.simps [of n xs])
  next
    case False
    with "1.prems" have "c = take n xs \<or> c \<in> set (chunks n (drop n xs))"
      by (simp add: chunks.simps [of n xs])
    then show ?thesis
    proof
      assume "c = take n xs"
      with False show ?thesis by simp
    next
      assume "c \<in> set (chunks n (drop n xs))"
      with "1.IH" False show ?thesis by simp
    qed
  qed
qed

lemma concat_data_length:
  "(\<And>t. t \<in> set c \<Longrightarrow> length (data t) = m) \<Longrightarrow> length (concat (map data c)) = length c * m"
  by (induction c) simp_all

lemma stack_images:
  assumes "c \<noteq> []" and "\<And>t. t \<in> set c \<Longrightarrow> shape t = [28, 28, 1] \<and> well_shaped t"
  shows "shape (stack c) = [length c, 28, 28, 1] \<and> well_shaped (stack c) \<and> 0 < length c"
proof -
  from assms obtain t rest where c: "c = t # rest" by (cases c) simp_all
  with assms(2) have "shape t = [28, 28, 1]" by simp
  then have s: "shape (stack c) = [length c, 28, 28, 1]" by (simp add: stack_def c)
  have "\<And>t. t \<in> set c \<Longrightarrow> length (data t) = 784"
    using assms(2) by (fastforce simp: well_shaped_def)
  then have "length (data (stack c)) = length c * 784"
    using concat_data_length [of c 784] by (simp add: stack_def)
  with s assms(1) show ?thesis by (simp add: well_shaped_def)
qed

lemma prepared_elements_shaped:
  assumes "prepare_data (train_raw, test_raw) = Inr (train_data, test_data)"
    and "well_shaped train_raw" and "well_shaped test_raw"
  shows "\<forall>t \<in> set (elements train_data). shape t = [28, 28, 1] \<and> well_shaped t"
    and "\<forall>t \<in> set (elements test_data). shape t = [28, 28, 1] \<and> well_shaped t"
    and "length (elements train_data) = hd (shape train_raw)"
    and "length (elements test_data) = hd (shape test_raw)"
proof -
  have blk: "\<And>raw i. well_shaped raw \<Longrightarrow> prod_list (shape raw) = hd (shape raw) * 784 \<Longrightarrow>
      i < hd (shape raw) \<Longrightarrow>
      length (block 784 i (data (binarize (normalize
         \<lparr>shape = [hd (shape raw), 28, 28, 1], data = data raw\<rparr>)))) = 784"
  proof -
    fix raw :: "8 word tensor" and i
    assume "well_shaped raw" "prod_list (shape raw) = hd (shape raw) * 784" "i < hd (shape raw)"
    then show "length (block 784 i (data (binarize (normalize
         \<lparr>shape = [hd (shape raw), 28, 28, 1], data = data raw\<rparr>)))) = 784"
      by (intro block_length_le [of i "hd (shape raw)"])
        (simp_all add: binarize_data normalize_data well_shaped_def)
  qed
  note p = prepare_data_Inr [OF assms(1)]
  show "\<forall>t \<in> set (elements train_data). shape t = [28, 28, 1] \<and> well_shaped t"
    using blk [OF assms(2) p(5)] by (auto simp: p(1) well_shaped_def)
  show "\<forall>t \<in> set (elements test_data). shape t = [28, 28, 1] \<and> well_shaped t"
    using blk [OF assms(3) p(6)] by (auto simp: p(2) well_shaped_def)
  show "length (elements train_data) = hd (shape train_raw)" by (simp add: p(1))
  show "length (elements test_data) = hd (shape test_raw)" by (simp add: p(2))
qed

lemma iterate_batches_shaped:
  assumes "\<forall>t \<in> set (elements ds). shape t = [28, 28, 1] \<and> well_shaped t"
    and "set order \<subseteq> {..<length (elements ds)}"
    and "x \<in> set (iterate ds order)"
  shows "\<exists>b. 0 < b \<and> shape x = [b, 28, 28, 1] \<and> well_shaped x"
proof -
  from assms(3) obtain c where c: "c \<in> set (chunks (batch_size ds) (map ((!) (elements ds)) order))"
    and x: "x = stack c"
    by (auto simp: iterate_def)
  have "\<And>t. t \<in> set c \<Longrightarrow> shape t = [28, 28, 1] \<and> well_shaped t"
  proof -
    fix t assume "t \<in> set c"
    with chunks_subset [OF c] have "t \<in> set (map ((!) (elements ds)) order)" by blast
    then obtain i where "i \<in> set order" "t = elements ds ! i" by auto
    with assms(2) have "t \<in> set (elements ds)" by auto
    with assms(1) show "shape t = [28, 28, 1] \<and> well_shaped t" by blast
  qed
  from stack_images [OF chunks_nonempty [OF c] this] x show ?thesis by blast
qed

lemma compute_loss_scalar:
  assumes "is_CVAE model L" and "\<exists>b. 0 < b \<and> shape x = [b, 28, 28, 1] \<and> well_shaped x"
  shows "\<exists>v. compute_loss model noise x = Inr (scalar v)"
proof -
  from assms(2) obtain b where b: "0 < b" "shape x = [b, 28, 28, 1]" "well_shaped x"
    by (elim exE conjE)
  from compute_loss_value [OF assms(1) b(2,3,1), of noise] obtain mean logvar z x_logit where
    "compute_loss model noise x =
       Inr (scalar (- ((\<Sum>i < b. logpx_z x_logit x i + logpz z i - logqz_x z mean logvar i) / real b)))"
    by (elim exE conjE)
  then show ?thesis by (rule exI)
qed

lemma updated_is_CVAE:
  assumes "\<forall>model noise x. is_CVAE model L \<longrightarrow> is_CVAE (apply_gradients e model noise x) L"
    and "is_CVAE model L"
  shows "is_CVAE (updated e epoch k model xs) L"
  using assms(2)
proof (induction xs arbitrary: k model)
  case Nil
  then show ?case by simp
next
  case (Cons x xs)
  from assms(1) Cons.prems have "is_CVAE (apply_gradients e model (train_noise e epoch k) x) L"
    by (elim allE impE)
  then show ?case using Cons.IH by simp
qed

lemma train_batches_updated:
  assumes "\<forall>model noise x. is_CVAE model L \<longrightarrow> is_CVAE (apply_gradients e model noise x) L"
    and "is_CVAE model L"
    and "\<forall>x \<in> set xs. \<exists>b. 0 < b \<and> shape x = [b, 28, 28, 1] \<and> well_shaped x"
  shows "train_batches e epoch k model xs = Inr (updated e epoch k model xs)"
  using assms(2,3)
proof (induction xs arbitrary: k model)
  case Nil
  then show ?case by simp
next
  case (Cons x xs)
  from Cons.prems(2) have "\<exists>b. 0 < b \<and> shape x = [b, 28, 28, 1] \<and> well_shaped x" by simp
  from compute_loss_scalar [OF Cons.prems(1) this, of "train_noise e epoch k"]
  obtain v where v: "compute_loss model (train_noise e epoch k) x = Inr (scalar v)" ..
  let ?m = "apply_gradients e model (train_noise e epoch k) x"
  have step: "train_step e (train_noise e epoch k) model x = Inr ?m"
    by (simp add: train_step_def v)
  have c: "is_CVAE ?m L" using assms(1) Cons.prems(1) by (elim allE impE)
  have r: "\<forall>x \<in> set xs. \<exists>b. 0 < b \<and> shape x = [b, 28, 28, 1] \<and> well_shaped x"
    using Cons.prems(2) by simp
  from Cons.IH [OF c r, of "Suc k"] step show ?case by simp
qed

lemma test_batches_mean:
  assumes "is_CVAE model L"
    and "\<forall>x \<in> set xs. \<exists>b. 0 < b \<and> shape x = [b, 28, 28, 1] \<and> well_shaped x"
  shows "\<exists>losses. length losses = length xs
           \<and> (\<forall>i < length xs. compute_loss model (test_noise e epoch (k + i)) (xs ! i)
                                 = Inr (scalar (losses ! i)))
           \<and> test_batches e epoch k model loss xs
               = Inr \<lparr>total = total loss + sum_list losses, count = count loss + length xs\<rparr>"
  using assms(2)
proof (induction xs arbitrary: k loss)
  case Nil
  then show ?case by simp
next
  case (Cons x xs)
  from Cons.prems have "\<exists>b. 0 < b \<and> shape x = [b, 28, 28, 1] \<and> well_shaped x" by simp
  from compute_loss_scalar [OF assms(1) this, of "test_noise e epoch k"]
  obtain v where v: "compute_loss model (test_noise e epoch k) x = Inr (scalar v)" ..
  have r: "\<forall>x \<in> set xs. \<exists>b. 0 < b \<and> shape x = [b, 28, 28, 1] \<and> well_shaped x"
    using Cons.prems by simp
  from Cons.IH [OF r, of "Suc k" "update_state loss (scalar v)"] obtain losses where
    l: "length losses = length xs"
    and c: "\<forall>i < length xs. compute_loss model (test_noise e epoch (Suc k + i)) (xs ! i)
                                 = Inr (scalar (losses ! i))"
    and t: "test_batches e epoch (Suc k) model (update_state loss (scalar v)) xs
               = Inr \<lparr>total = total (update_state loss (scalar v)) + sum_list losses,
                      count = count (update_state loss (scalar v)) + length xs\<rparr>"
    by (elim exE conjE)
  have 1: "length (v # losses) = length (x # xs)" using l by simp
  have 2: "\<forall>i < length (x # xs). compute_loss model (test_noise e epoch (k + i)) ((x # xs) ! i)
                                 = Inr (scalar ((v # losses) ! i))"
  proof (intro allI impI)
    fix i assume i: "i < length (x # xs)"
    show "compute_loss model (test_noise e epoch (k + i)) ((x # xs) ! i)
            = Inr (scalar ((v # losses) ! i))"
    proof (cases i)
      case 0
      then show ?thesis using v by simp
    next
      case (Suc j)
      with i have "j < length xs" by simp
      with c have "compute_loss model (test_noise e epoch (Suc k + j)) (xs ! j)
                     = Inr (scalar (losses ! j))" by simp
      then show ?thesis using Suc by simp
    qed
  qed
  have 3: "test_batches e epoch k model loss (x # xs)
        = Inr \<lparr>total = total loss + sum_list (v # losses), count = count loss + length (x # xs)\<rparr>"
    using v t by (simp add: update_state_def scalar_def add.assoc)
  from 1 2 3 show ?case by (intro exI [of _ "v # losses"] conjI)
qed

lemma generate_and_save_images_predictions:
  assumes "is_CVAE model 50"
  shows "\<exists>logits. generative_net model (random_normal g [16, 50]) = Inr logits
           \<and> shape logits = [16, 28, 28, 1]
           \<and> generate_and_save_images model epoch (random_normal g [16, 50])
               = Inr (Saved (''image_at_epoch_'' @ format_04d epoch @ ''.png'') (tmap sigmoid logits))"
proof -
  let ?rv = "random_normal g [16, 50]"
  have "shape ?rv = [16, 50]" "well_shaped ?rv" by simp_all
  from generative_net_runs [OF assms this] obtain y where
    y: "generative_net model ?rv = Inr y" "shape y = [16, 28, 28, 1]" by (elim exE conjE)
  then have "sample model (\<lambda>k. 0) (Some ?rv) = Inr (tmap sigmoid y)"
    by (simp add: sample_def decode_def)
  then have "generate_and_save_images model epoch ?rv
      = Inr (Saved (''image_at_epoch_'' @ format_04d epoch @ ''.png'') (tmap sigmoid y))"
    using y(2) by (simp add: generate_and_save_images_def)
  with y show ?thesis by (intro exI [of _ y] conjI)
qed

lemma run_epoch_plain:
  assumes t: "train_batches e epoch 0 (model_v st) (iterate train_dataset (train_order e epoch)) = Inr model"
    and "epoch mod 10 \<noteq> 0"
  shows "run_epoch e train_dataset test_dataset rv epoch st
        = Inr \<lparr>model_v = model, events = events st @ epoch_events epoch elbo predictions\<rparr>"
  unfolding run_epoch_def t and_then_simps Let_def epoch_events_def using assms(2) by simp

lemma run_epoch_evaluating:
  assumes t: "train_batches e epoch 0 (model_v st) (iterate train_dataset (train_order e epoch)) = Inr model"
    and "epoch mod 10 = 0"
    and l: "test_batches e epoch 0 model \<lparr>total = 0, count = 0\<rparr>
            (iterate test_dataset (test_order e epoch)) = Inr loss"
    and g: "generate_and_save_images model epoch rv
           = Inr (Saved (''image_at_epoch_'' @ format_04d epoch @ ''.png'') predictions)"
  shows "run_epoch e train_dataset test_dataset rv epoch st
        = Inr \<lparr>model_v = model, events = events st @ epoch_events epoch (- result loss) predictions\<rparr>"
  unfolding run_epoch_def t and_then_simps Let_def epoch_events_def using assms(2)
  by (simp add: l g)

lemma run_epoch_ok:
  assumes inv: "\<forall>model noise x. is_CVAE model 50 \<longrightarrow> is_CVAE (apply_gradients e model noise x) 50"
    and m: "is_CVAE (model_v st) 50"
    and tr: "\<forall>x \<in> set (iterate train_dataset (train_order e epoch)).
               \<exists>b. 0 < b \<and> shape x = [b, 28, 28, 1] \<and> well_shaped x"
    and te: "\<forall>x \<in> set (iterate test_dataset (test_order e epoch)).
               \<exists>b. 0 < b \<and> shape x = [b, 28, 28, 1] \<and> well_shaped x"
  shows "\<exists>elbo predictions.
           run_epoch e train_dataset test_dataset (random_normal g [16, 50]) epoch st
             = Inr \<lparr>model_v = updated e epoch 0 (model_v st)
                                 (iterate train_dataset (train_order e epoch)),
                    events = events st @ epoch_events epoch elbo predictions\<rparr>
         \<and> (epoch mod 10 = 0 \<longrightarrow>
              evaluated e test_dataset (random_normal g [16, 50]) epoch
                (updated e epoch 0 (model_v st) (iterate train_dataset (train_order e epoch)))
                elbo predictions)"
proof -
  let ?rv = "random_normal g [16, 50]"
  let ?model = "updated e epoch 0 (model_v st) (iterate train_dataset (train_order e epoch))"
  let ?xs = "iterate test_dataset (test_order e epoch)"
  have t: "train_batches e epoch 0 (model_v st) (iterate train_dataset (train_order e epoch))
      = Inr ?model"
    using inv m tr by (rule train_batches_updated)
  have c: "is_CVAE ?model 50"
    using inv m by (rule updated_is_CVAE)
  show ?thesis
  proof (cases "epoch mod 10 = 0")
    case False
    from run_epoch_plain [OF t False] False show ?thesis
      by (intro exI [of _ 0] exI [of _ ?rv] conjI impI) (assumption | simp)+
  next
    case True
    from test_batches_mean [OF c te, of e epoch 0 "\<lparr>total = 0, count = 0\<rparr>"] obtain losses where
      ll: "length losses = length ?xs"
      and lc: "\<forall>i < length ?xs. compute_loss ?model (test_noise e epoch (0 + i)) (?xs ! i)
                                 = Inr (scalar (losses ! i))"
      and lt: "test_batches e epoch 0 ?model \<lparr>total = 0, count = 0\<rparr> ?xs
               = Inr \<lparr>total = total \<lparr>total = 0, count = 0\<rparr> + sum_list losses,
                      count = count \<lparr>total = 0, count = 0\<rparr> + length ?xs\<rparr>"
      by (elim exE conjE)
    let ?loss = "\<lparr>total = total \<lparr>total = 0, count = 0\<rparr> + sum_list losses,
                  count = count \<lparr>total = 0, count = 0\<rparr> + length ?xs\<rparr>"
    from generate_and_save_images_predictions [OF c, of g epoch] obtain logits where
      g1: "generative_net ?model ?rv = Inr logits"
      and g2: "shape logits = [16, 28, 28, 1]"
      and g3: "generate_and_save_images ?model epoch ?rv
               = Inr (Saved (''image_at_epoch_'' @ format_04d epoch @ ''.png'') (tmap sigmoid logits))"
      by (elim exE conjE)
    have r: "run_epoch e train_dataset test_dataset ?rv epoch st
        = Inr \<lparr>model_v = ?model,
               events = events st @ epoch_events epoch (- result ?loss) (tmap sigmoid logits)\<rparr>"
      using t True lt g3 by (rule run_epoch_evaluating)
    have res: "- result ?loss = - (if losses = [] then 0 else sum_list losses / real (length losses))"
      using ll by (simp add: result_def)
    have lc': "\<forall>k < length losses. compute_loss ?model (test_noise e epoch k) (?xs ! k)
                                 = Inr (scalar (losses ! k))"
      using lc ll by simp
    have ev: "evaluated e test_dataset ?rv epoch ?model (- result ?loss) (tmap sigmoid logits)"
      unfolding evaluated_def
    proof (intro conjI)
      show "\<exists>losses. length losses = length ?xs
          \<and> (\<forall>k < length losses. compute_loss ?model (test_noise e epoch k) (?xs ! k)
                                 = Inr (scalar (losses ! k)))
          \<and> - result ?loss = - (if losses = [] then 0 else sum_list losses / real (length losses))"
        using ll lc' res by (intro exI [of _ losses] conjI)
      show "\<exists>logits'. generative_net ?model ?rv = Inr logits' \<and> shape logits' = [16, 28, 28, 1]
          \<and> tmap sigmoid logits = tmap sigmoid logits'"
        using g1 g2 by (intro exI [of _ logits] conjI) simp_all
    qed
    from r ev show ?thesis
      by (intro exI [of _ "- result ?loss"] exI [of _ "tmap sigmoid logits"] conjI impI)
  qed
qed

lemma run_epochs_append:
  "run_epochs e train_dataset test_dataset rv (xs @ ys) st
     = and_then (run_epochs e train_dataset test_dataset rv xs st)
         (run_epochs e train_dataset test_dataset rv ys)"
proof (induction xs arbitrary: st)
  case Nil
  then show ?case by simp
next
  case (Cons x xs)
  show ?case
  proof (cases "run_epoch e train_dataset test_dataset rv x st")
    case (Inl err)
    then show ?thesis by simp
  next
    case (Inr st')
    then show ?thesis using Cons.IH [of st'] by simp
  qed
qed

lemma trained_model_is_CVAE:
  assumes "\<forall>model noise x. is_CVAE model 50 \<longrightarrow> is_CVAE (apply_gradients e model noise x) 50"
    and "is_CVAE (CVAE e 50) 50"
  shows "is_CVAE (trained_model e train_dataset n) 50"
proof (induction n)
  case 0
  then show ?case using assms(2) by simp
next
  case (Suc n)
  from updated_is_CVAE [OF assms(1) Suc.IH] show ?case by simp
qed

lemma run_epochs_upto:
  assumes inv: "\<forall>model noise x. is_CVAE model 50 \<longrightarrow> is_CVAE (apply_gradients e model noise x) 50"
    and init: "is_CVAE (CVAE e 50) 50"
    and tr: "\<forall>epoch. \<forall>x \<in> set (iterate train_dataset (train_order e epoch)).
               \<exists>b. 0 < b \<and> shape x = [b, 28, 28, 1] \<and> well_shaped x"
    and te: "\<forall>epoch. \<forall>x \<in> set (iterate test_dataset (test_order e epoch)).
               \<exists>b. 0 < b \<and> shape x = [b, 28, 28, 1] \<and> well_shaped x"
  shows "\<exists>elbo predictions.
           run_epochs e train_dataset test_dataset (random_normal g [16, 50]) [0..<n]
               \<lparr>model_v = CVAE e 50, events = []\<rparr>
             = Inr \<lparr>model_v = trained_model e train_dataset n,
                    events = concat (map (\<lambda>epoch. epoch_events epoch (elbo epoch) (predictions epoch))
                                         [0..<n])\<rparr>
         \<and> (\<forall>epoch < n. epoch mod 10 = 0 \<longrightarrow>
              evaluated e test_dataset (random_normal g [16, 50]) epoch
                (trained_model e train_dataset (Suc epoch)) (elbo epoch) (predictions epoch))"
proof (induction n)
  case 0
  show ?case by simp
next
  case (Suc n)
  let ?rv = "random_normal g [16, 50]"
  let ?init = "\<lparr>model_v = CVAE e 50, events = []\<rparr>"
  from Suc.IH obtain elbo predictions where
    r: "run_epochs e train_dataset test_dataset ?rv [0..<n] ?init
          = Inr \<lparr>model_v = trained_model e train_dataset n,
                 events = concat (map (\<lambda>k. epoch_events k (elbo k) (predictions k)) [0..<n])\<rparr>"
    and ev: "\<forall>k < n. k mod 10 = 0 \<longrightarrow>
              evaluated e test_dataset ?rv k (trained_model e train_dataset (Suc k))
                (elbo k) (predictions k)"
    by (elim exE conjE)
  let ?st = "\<lparr>model_v = trained_model e train_dataset n,
             events = concat (map (\<lambda>k. epoch_events k (elbo k) (predictions k)) [0..<n])\<rparr>"
  have c: "is_CVAE (model_v ?st) 50"
    using trained_model_is_CVAE [OF inv init, of train_dataset n] by simp
  from run_epoch_ok [OF inv c tr [THEN spec, of n] te [THEN spec, of n], where g = g]
  obtain v p where
    s: "run_epoch e train_dataset test_dataset ?rv n ?st
          = Inr \<lparr>model_v = updated e n 0 (model_v ?st) (iterate train_dataset (train_order e n)),
                 events = events ?st @ epoch_events n v p\<rparr>"
    and sv: "n mod 10 = 0 \<longrightarrow>
              evaluated e test_dataset ?rv n
                (updated e n 0 (model_v ?st) (iterate train_dataset (train_order e n))) v p"
    by (elim exE conjE)
  let ?elbo = "elbo(n := v)" and ?pred = "predictions(n := p)"
  have same: "map (\<lambda>k. epoch_events k (?elbo k) (?pred k)) [0..<n]
      = map (\<lambda>k. epoch_events k (elbo k) (predictions k)) [0..<n]"
    by (intro map_cong refl) simp
  have m: "updated e n 0 (model_v ?st) (iterate train_dataset (train_order e n))
      = trained_model e train_dataset (Suc n)"
    by simp
  have "run_epochs e train_dataset test_dataset ?rv [0..<Suc n] ?init
      = and_then (run_epochs e train_dataset test_dataset ?rv [0..<n] ?init)
          (run_epochs e train_dataset test_dataset ?rv [n])"
    using run_epochs_append [of e train_dataset test_dataset ?rv "[0..<n]" "[n]" ?init] by simp
  also have "\<dots> = run_epoch e train_dataset test_dataset ?rv n ?st"
    unfolding r and_then_simps
    by (cases "run_epoch e train_dataset test_dataset ?rv n ?st") simp_all
  also have "\<dots> = Inr \<lparr>model_v = trained_model e train_dataset (Suc n),
                 events = events ?st @ epoch_events n v p\<rparr>"
    unfolding s m ..
  also have "events ?st @ epoch_events n v p
      = concat (map (\<lambda>k. epoch_events k (?elbo k) (?pred k)) [0..<Suc n])"
  proof -
    have "concat (map (\<lambda>k. epoch_events k (?elbo k) (?pred k)) [0..<Suc n])
        = concat (map (\<lambda>k. epoch_events k (?elbo k) (?pred k)) [0..<n]) @ epoch_events n v p"
      by simp
    also have "\<dots> = concat (map (\<lambda>k. epoch_events k (elbo k) (predictions k)) [0..<n])
        @ epoch_events n v p"
      by (simp only: same)
    finally show ?thesis by simp
  qed
  finally have 1: "run_epochs e train_dataset test_dataset ?rv [0..<Suc n] ?init
      = Inr \<lparr>model_v = trained_model e train_dataset (Suc n),
             events = concat (map (\<lambda>k. epoch_events k (?elbo k) (?pred k)) [0..<Suc n])\<rparr>" .
  have 2: "\<forall>k < Suc n. k mod 10 = 0 \<longrightarrow>
              evaluated e test_dataset ?rv k (trained_model e train_dataset (Suc k))
                (?elbo k) (?pred k)"
  proof (intro allI impI)
    fix k assume k: "k < Suc n" "k mod 10 = 0"
    show "evaluated e test_dataset ?rv k (trained_model e train_dataset (Suc k)) (?elbo k) (?pred k)"
    proof (cases "k = n")
      case True
      from sv k(2) True have "evaluated e test_dataset ?rv n
                (updated e n 0 (model_v ?st) (iterate train_dataset (train_order e n))) v p"
        by simp
      then show ?thesis unfolding m using True by simp
    next
      case False
      with k(1) have "k < n" by simp
      with ev k(2) False show ?thesis by simp
    qed
  qed
  from 1 2 show ?case
    by (intro exI [of _ ?elbo] exI [of _ ?pred] conjI)
qed

lemma trained_of_events:
  "[k. Trained k \<leftarrow> concat (map (\<lambda>k. epoch_events k (elbo k) (predictions k)) es)] = es"
  by (induction es) (simp_all add: epoch_events_def)

lemma printed_in_events:
  "Printed k v \<in> set (concat (map (\<lambda>k. epoch_events k (elbo k) (predictions k)) es))
     \<longleftrightarrow> k \<in> set es \<and> k mod 10 = 0 \<and> v = elbo k"
  by (induction es) (auto simp: epoch_events_def)

lemma saved_in_events:
  "Saved f t \<in> set (concat (map (\<lambda>k. epoch_events k (elbo k) (predictions k)) es))
     \<longleftrightarrow> (\<exists>k \<in> set es. k mod 10 = 0 \<and> f = ''image_at_epoch_'' @ format_04d k @ ''.png''
                         \<and> t = predictions k)"
  by (induction es) (auto simp: epoch_events_def)

lemma main_ok:
  assumes ld: "load_data e = (train_raw, test_raw)"
    and tr: "shape train_raw = [n, 28, 28]" "well_shaped train_raw"
    and te: "shape test_raw = [m, 28, 28]" "well_shaped test_raw"
    and model: "is_CVAE (CVAE e 50) 50"
    and inv: "\<forall>model noise x. is_CVAE model 50 \<longrightarrow> is_CVAE (apply_gradients e model noise x) 50"
    and tro: "\<forall>epoch. distinct (train_order e epoch) \<and> set (train_order e epoch) = {..<n}"
    and teo: "\<forall>epoch. distinct (test_order e epoch) \<and> set (test_order e epoch) = {..<m}"
  shows "\<exists>elbo predictions train_dataset test_dataset.
           prepare_data (load_data e) = Inr (train_dataset, test_dataset)
         \<and> main e = Inr \<lparr>model_v = trained_model e train_dataset 100,
                          events = concat (map (\<lambda>epoch. epoch_events epoch (elbo epoch)
                                                          (predictions epoch)) [0..<100])\<rparr>
         \<and> (\<forall>epoch < 100. epoch mod 10 = 0 \<longrightarrow>
              evaluated e test_dataset (random_normal (generation_noise e) [16, 50]) epoch
                (trained_model e train_dataset (Suc epoch)) (elbo epoch) (predictions epoch))"
proof -
  from prepare_data_succeeds [OF tr(1) te(1)] obtain train_dataset test_dataset where
    p: "prepare_data (train_raw, test_raw) = Inr (train_dataset, test_dataset)" by (elim exE)
  note sh = prepared_elements_shaped [OF p tr(2) te(2)]
  have ltr: "length (elements train_dataset) = n" and lte: "length (elements test_dataset) = m"
    using sh(3,4) tr(1) te(1) by simp_all
  have btr: "\<forall>epoch. \<forall>x \<in> set (iterate train_dataset (train_order e epoch)).
               \<exists>b. 0 < b \<and> shape x = [b, 28, 28, 1] \<and> well_shaped x"
  proof (intro allI ballI)
    fix epoch x assume "x \<in> set (iterate train_dataset (train_order e epoch))"
    moreover have "set (train_order e epoch) \<subseteq> {..<length (elements train_dataset)}"
      using tro ltr by simp
    ultimately show "\<exists>b. 0 < b \<and> shape x = [b, 28, 28, 1] \<and> well_shaped x"
      using iterate_batches_shaped [OF sh(1)] by simp
  qed
  have bte: "\<forall>epoch. \<forall>x \<in> set (iterate test_dataset (test_order e epoch)).
               \<exists>b. 0 < b \<and> shape x = [b, 28, 28, 1] \<and> well_shaped x"
  proof (intro allI ballI)
    fix epoch x assume "x \<in> set (iterate test_dataset (test_order e epoch))"
    moreover have "set (test_order e epoch) \<subseteq> {..<length (elements test_dataset)}"
      using teo lte by simp
    ultimately show "\<exists>b. 0 < b \<and> shape x = [b, 28, 28, 1] \<and> well_shaped x"
      using iterate_batches_shaped [OF sh(2)] by simp
  qed
  from run_epochs_upto [OF inv model btr bte, of "generation_noise e" 100]
  obtain elbo predictions where
    r: "run_epochs e train_dataset test_dataset (random_normal (generation_noise e) [16, 50])
          [0..<100] \<lparr>model_v = CVAE e 50, events = []\<rparr>
        = Inr \<lparr>model_v = trained_model e train_dataset 100,
               events = concat (map (\<lambda>epoch. epoch_events epoch (elbo epoch) (predictions epoch))
                                    [0..<100])\<rparr>"
    and ev: "\<forall>epoch < 100. epoch mod 10 = 0 \<longrightarrow>
              evaluated e test_dataset (random_normal (generation_noise e) [16, 50]) epoch
                (trained_model e train_dataset (Suc epoch)) (elbo epoch) (predictions epoch)"
    by (elim exE conjE)
  have 1: "prepare_data (load_data e) = Inr (train_dataset, test_dataset)"
    using p ld by simp
  have 2: "main e = Inr \<lparr>model_v = trained_model e train_dataset 100,
               events = concat (map (\<lambda>epoch. epoch_events epoch (elbo epoch) (predictions epoch))
                                    [0..<100])\<rparr>"
    unfolding main_def Let_def 1 and_then_simps prod.case using r by simp
  from 1 2 ev show ?thesis
    by (intro exI [of _ elbo] exI [of _ predictions] exI [of _ train_dataset]
        exI [of _ test_dataset] conjI)
qed

lemma image_file_inj:
  assumes "a < 100" and "b < 100"
    and "''image_at_epoch_'' @ format_04d a @ ''.png'' = ''image_at_epoch_'' @ format_04d b @ ''.png''"
  shows "a = b"
proof -
  from assms(3) have "format_04d a = format_04d b" by simp
  with assms(1,2) show ?thesis by (rule format_04d_inj)
qed

text \<open>
  Claim C7. When no step of the run raises (the dataset has the shape of MNIST, the model is
  one that \<^verbatim>\<open>CVAE(50)\<close> builds and stays one under the optimizer's updates, each epoch
  iterates over the datasets in some order), the main program returns after the training
  passes of exactly the epochs 0 to 99, in order, with the model that the gradient steps on
  all their batches leave. The log of the run is, epoch by epoch, the training pass
  followed, if and only if the epoch is a multiple of 10 (epoch 0 included), by the printed
  ELBO and the saved figure. The ELBO printed at such an epoch is the negated mean of the
  losses that \<^verbatim>\<open>compute_loss\<close> returns, for the model as trained up to and including that
  epoch, on the batches of the test dataset. The figure saved at such an epoch shows the
  sigmoid of the logits that the generative network of that same model returns on the
  latent vectors sampled once before the loop, and its file is named by the epoch.
\<close>

theorem main_runs_100_epochs_evaluating_every_10th:
  assumes "load_data e = (train_raw, test_raw)"
    and "shape train_raw = [n, 28, 28]" and "well_shaped train_raw"
    and "shape test_raw = [m, 28, 28]" and "well_shaped test_raw"
    and "is_CVAE (CVAE e 50) 50"
    and "\<forall>model noise x. is_CVAE model 50 \<longrightarrow> is_CVAE (apply_gradients e model noise x) 50"
    and "\<forall>epoch. distinct (train_order e epoch) \<and> set (train_order e epoch) = {..<n}"
    and "\<forall>epoch. distinct (test_order e epoch) \<and> set (test_order e epoch) = {..<m}"
  shows "\<exists>st elbo predictions train_dataset test_dataset.
           prepare_data (load_data e) = Inr (train_dataset, test_dataset)
         \<and> main e = Inr st
         \<and> model_v st = trained_model e train_dataset 100
         \<and> events st = concat (map (\<lambda>epoch. epoch_events epoch (elbo epoch) (predictions epoch))
                                    [0..<100])
         \<and> [epoch. Trained epoch \<leftarrow> events st] = [0..<100]
         \<and> (\<forall>epoch < 100. (\<exists>v. Printed epoch v \<in> set (events st)) \<longleftrightarrow> epoch mod 10 = 0)
         \<and> (\<forall>epoch < 100.
              (\<exists>t. Saved (''image_at_epoch_'' @ format_04d epoch @ ''.png'') t \<in> set (events st))
              \<longleftrightarrow> epoch mod 10 = 0)
         \<and> (\<forall>epoch v. Printed epoch v \<in> set (events st) \<longrightarrow> v = elbo epoch)
         \<and> (\<forall>f t. Saved f t \<in> set (events st) \<longrightarrow>
              (\<exists>epoch < 100. epoch mod 10 = 0
                 \<and> f = ''image_at_epoch_'' @ format_04d epoch @ ''.png'' \<and> t = predictions epoch))
         \<and> (\<forall>epoch < 100. epoch mod 10 = 0 \<longrightarrow>
              Printed epoch (elbo epoch) \<in> set (events st)
            \<and> Saved (''image_at_epoch_'' @ format_04d epoch @ ''.png'') (predictions epoch)
                \<in> set (events st)
            \<and> (\<exists>losses.
                  length losses = length (iterate test_dataset (test_order e epoch))
                \<and> (\<forall>k < length losses.
                      compute_loss (trained_model e train_dataset (Suc epoch)) (test_noise e epoch k)
                        (iterate test_dataset (test_order e epoch) ! k)
                      = Inr (scalar (losses ! k)))
                \<and> elbo epoch = - (if losses = [] then 0
                                   else sum_list losses / real (length losses)))
            \<and> (\<exists>logits.
                  generative_net (trained_model e train_dataset (Suc epoch))
                    (random_normal (generation_noise e) [16, 50]) = Inr logits
                \<and> shape logits = [16, 28, 28, 1]
                \<and> predictions epoch = tmap sigmoid logits))"
proof -
  let ?rv = "random_normal (generation_noise e) [16, 50]"
  from main_ok [OF assms] obtain elbo predictions train_dataset test_dataset where
    1: "prepare_data (load_data e) = Inr (train_dataset, test_dataset)"
    and 2: "main e = Inr \<lparr>model_v = trained_model e train_dataset 100,
               events = concat (map (\<lambda>epoch. epoch_events epoch (elbo epoch) (predictions epoch))
                                    [0..<100])\<rparr>"
    and 4: "\<forall>epoch < 100. epoch mod 10 = 0 \<longrightarrow>
              evaluated e test_dataset ?rv epoch
                (trained_model e train_dataset (Suc epoch)) (elbo epoch) (predictions epoch)"
    by (elim exE conjE)
  let ?st = "\<lparr>model_v = trained_model e train_dataset 100,
               events = concat (map (\<lambda>epoch. epoch_events epoch (elbo epoch) (predictions epoch))
                                    [0..<100])\<rparr>"
  have 3: "events ?st = concat (map (\<lambda>epoch. epoch_events epoch (elbo epoch) (predictions epoch))
                                    [0..<100])"
    by simp
  have m: "model_v ?st = trained_model e train_dataset 100" by simp
  have 5: "[epoch. Trained epoch \<leftarrow> events ?st] = [0..<100]"
    unfolding 3 by (rule trained_of_events)
  have 6: "\<forall>epoch < 100. (\<exists>v. Printed epoch v \<in> set (events ?st)) \<longleftrightarrow> epoch mod 10 = 0"
    unfolding 3 printed_in_events by simp
  have 8: "\<forall>f t. Saved f t \<in> set (events ?st) \<longrightarrow>
              (\<exists>epoch < 100. epoch mod 10 = 0
                 \<and> f = ''image_at_epoch_'' @ format_04d epoch @ ''.png'' \<and> t = predictions epoch)"
    unfolding 3 saved_in_events by auto
  have 9: "\<forall>epoch v. Printed epoch v \<in> set (events ?st) \<longrightarrow> v = elbo epoch"
    unfolding 3 printed_in_events by simp
  have 7: "\<forall>epoch < 100.
              (\<exists>t. Saved (''image_at_epoch_'' @ format_04d epoch @ ''.png'') t \<in> set (events ?st))
              \<longleftrightarrow> epoch mod 10 = 0"
  proof (intro allI impI iffI)
    fix epoch :: nat assume ep: "epoch < 100"
      and ex: "\<exists>t. Saved (''image_at_epoch_'' @ format_04d epoch @ ''.png'') t \<in> set (events ?st)"
    from ex obtain t where
      "Saved (''image_at_epoch_'' @ format_04d epoch @ ''.png'') t \<in> set (events ?st)" ..
    from 8 [THEN spec, THEN spec, THEN mp, OF this] obtain k where k: "k < 100" "k mod 10 = 0"
      "''image_at_epoch_'' @ format_04d epoch @ ''.png'' = ''image_at_epoch_'' @ format_04d k @ ''.png''"
      by (elim exE conjE)
    from image_file_inj [OF ep k(1,3)] k(2) show "epoch mod 10 = 0" by simp
  next
    fix epoch :: nat assume "epoch < 100" "epoch mod 10 = 0"
    then have "\<exists>k \<in> set [0..<100]. k mod 10 = 0
        \<and> ''image_at_epoch_'' @ format_04d epoch @ ''.png'' = ''image_at_epoch_'' @ format_04d k @ ''.png''
        \<and> predictions epoch = predictions k"
      by (intro bexI [of _ epoch]) simp_all
    then have "Saved (''image_at_epoch_'' @ format_04d epoch @ ''.png'') (predictions epoch)
        \<in> set (events ?st)"
      unfolding 3 saved_in_events .
    then show "\<exists>t. Saved (''image_at_epoch_'' @ format_04d epoch @ ''.png'') t \<in> set (events ?st)" ..
  qed
  have 10: "\<forall>epoch < 100. epoch mod 10 = 0 \<longrightarrow>
              Printed epoch (elbo epoch) \<in> set (events ?st)
            \<and> Saved (''image_at_epoch_'' @ format_04d epoch @ ''.png'') (predictions epoch)
                \<in> set (events ?st)
            \<and> (\<exists>losses.
                  length losses = length (iterate test_dataset (test_order e epoch))
                \<and> (\<forall>k < length losses.
                      compute_loss (trained_model e train_dataset (Suc epoch)) (test_noise e epoch k)
                        (iterate test_dataset (test_order e epoch) ! k)
                      = Inr (scalar (losses ! k)))
                \<and> elbo epoch = - (if losses = [] then 0
                                   else sum_list losses / real (length losses)))
            \<and> (\<exists>logits.
                  generative_net (trained_model e train_dataset (Suc epoch)) ?rv = Inr logits
                \<and> shape logits = [16, 28, 28, 1]
                \<and> predictions epoch = tmap sigmoid logits)"
  proof (intro allI impI)
    fix epoch :: nat assume ep: "epoch < 100" "epoch mod 10 = 0"
    then have a: "Printed epoch (elbo epoch) \<in> set (events ?st)"
      unfolding 3 printed_in_events by simp
    from ep have "\<exists>k \<in> set [0..<100]. k mod 10 = 0
        \<and> ''image_at_epoch_'' @ format_04d epoch @ ''.png'' = ''image_at_epoch_'' @ format_04d k @ ''.png''
        \<and> predictions epoch = predictions k"
      by (intro bexI [of _ epoch]) simp_all
    then have b: "Saved (''image_at_epoch_'' @ format_04d epoch @ ''.png'') (predictions epoch)
        \<in> set (events ?st)"
      unfolding 3 saved_in_events .
    from 4 [THEN spec, THEN mp, THEN mp, OF ep]
    have "evaluated e test_dataset ?rv epoch
                (trained_model e train_dataset (Suc epoch)) (elbo epoch) (predictions epoch)" .
    then have c: "(\<exists>losses.
                  length losses = length (iterate test_dataset (test_order e epoch))
                \<and> (\<forall>k < length losses.
                      compute_loss (trained_model e train_dataset (Suc epoch)) (test_noise e epoch k)
                        (iterate test_dataset (test_order e epoch) ! k)
                      = Inr (scalar (losses ! k)))
                \<and> elbo epoch = - (if losses = [] then 0
                                   else sum_list losses / real (length losses)))
            \<and> (\<exists>logits.
                  generative_net (trained_model e train_dataset (Suc epoch)) ?rv = Inr logits
                \<and> shape logits = [16, 28, 28, 1]
                \<and> predictions epoch = tmap sigmoid logits)"
      unfolding evaluated_def .
    from c have c1: "\<exists>losses.
                  length losses = length (iterate test_dataset (test_order e epoch))
                \<and> (\<forall>k < length losses.
                      compute_loss (trained_model e train_dataset (Suc epoch)) (test_noise e epoch k)
                        (iterate test_dataset (test_order e epoch) ! k)
                      = Inr (scalar (losses ! k)))
                \<and> elbo epoch = - (if losses = [] then 0
                                   else sum_list losses / real (length losses))" ..
    from c have c2: "\<exists>logits.
                  generative_net (trained_model e train_dataset (Suc epoch)) ?rv = Inr logits
                \<and> shape logits = [16, 28, 28, 1]
                \<and> predictions epoch = tmap sigmoid logits" ..
    from a b c1 c2 show "Printed epoch (elbo epoch) \<in> set (events ?st)
            \<and> Saved (''image_at_epoch_'' @ format_04d epoch @ ''.png'') (predictions epoch)
                \<in> set (events ?st)
            \<and> (\<exists>losses.
                  length losses = length (iterate test_dataset (test_order e epoch))
                \<and> (\<forall>k < length losses.
                      compute_loss (trained_model e train_dataset (Suc epoch)) (test_noise e epoch k)
                        (iterate test_dataset (test_order e epoch) ! k)
                      = Inr (scalar (losses ! k)))
                \<and> elbo epoch = - (if losses = [] then 0
                                   else sum_list losses / real (length losses)))
            \<and> (\<exists>logits.
                  generative_net (trained_model e train_dataset (Suc epoch)) ?rv = Inr logits
                \<and> shape logits = [16, 28, 28, 1]
                \<and> predictions epoch = tmap sigmoid logits)"
      by (intro conjI)
  qed
  from 1 2 m 3 5 6 7 9 8 10 show ?thesis
    by (intro exI [of _ ?st] exI [of _ elbo] exI [of _ predictions] exI [of _ train_dataset]
        exI [of _ test_dataset] conjI)
qed

subsection \<open>A small run\<close>

lemma inference_net_zero_model:
  assumes "shape x = [b, 28, 28, 1]"
  shows "inference_net (zero_model L) x
           = Inr \<lparr>shape = [b, 2 * L], data = replicate (b * (2 * L)) 0\<rparr>"
  using assms inference_shape [of L] by (simp add: zero_model_def zero_net_def)

lemma generative_net_zero_model:
  assumes "shape z = [b, L]"
  shows "generative_net (zero_model L) z
           = Inr \<lparr>shape = [b, 28, 28, 1], data = replicate (b * 784) 0\<rparr>"
  using assms by (simp add: zero_model_def zero_net_def generative_shape)

lemma cross_entropy_logit_zero: "cross_entropy_with_logit 0 v = ln 2"
  by (simp add: cross_entropy_with_logit_def)

lemma pixel_index:
  assumes "i < b" and "r < (28::nat)" and "c < (28::nat)"
  shows "(i * 28 + r) * 28 + c < b * 784"
proof -
  from assms(2,3) have "r * 28 + c < 784" by simp
  then have "(i * 28 + r) * 28 + c < i * 784 + 784" by simp
  also have "\<dots> = Suc i * 784" by simp
  also from assms(1) have "\<dots> \<le> b * 784" by (intro mult_le_mono1) simp
  finally show ?thesis .
qed

lemma latent_index:
  assumes "i < b" and "j < (n::nat)"
  shows "i * n + j < b * n"
proof -
  from assms(2) have "i * n + j < Suc i * n" by simp
  also from assms(1) have "\<dots> \<le> b * n" by (intro mult_le_mono1) simp
  finally show ?thesis .
qed

text \<open>
  Whatever the batch and the noise, the model whose networks return zeros has, for each of
  the 784 pixels of an image, the cross-entropy \<open>ln 2\<close>, and its two Gaussian terms cancel.
\<close>

lemma compute_loss_zero_model:
  assumes x: "shape x = [b, 28, 28, 1]" "well_shaped x" and b: "0 < b"
  shows "compute_loss (zero_model L) noise x = Inr (scalar (784 * ln 2))"
proof -
  from compute_loss_value [OF is_CVAE_zero_model x b, of L noise]
  obtain mean logvar z x_logit where
    e: "encode (zero_model L) x = Inr (mean, logvar)"
    and z: "reparameterize noise mean logvar = Inr z"
    and d: "decode (zero_model L) z False = Inr x_logit"
    and loss: "compute_loss (zero_model L) noise x =
             Inr (scalar (- ((\<Sum>i < b. logpx_z x_logit x i + logpz z i - logqz_x z mean logvar i)
                             / real b)))"
    by (elim exE conjE)
  have "\<exists>h. inference_net (zero_model L) x = Inr h \<and> shape z = [b, L]
        \<and> shape mean = [b, L] \<and> shape logvar = [b, L]
        \<and> (\<forall>i < b. \<forall>j < L. at2 mean i j = at2 h i j \<and> at2 logvar i j = at2 h i (L + j))"
  proof (rule forward_pass [OF is_CVAE_zero_model x, of L noise])
    fix h mean' logvar' z' x_logit'
    assume h: "inference_net (zero_model L) x = Inr h"
      and e': "encode (zero_model L) x = Inr (mean', logvar')"
      and s: "shape mean' = [b, L]" "shape logvar' = [b, L]"
      and a: "\<forall>i < b. \<forall>j < L. at2 mean' i j = at2 h i j \<and> at2 logvar' i j = at2 h i (L + j)"
      and z': "reparameterize noise mean' logvar' = Inr z'" "shape z' = [b, L]"
    from e e' have eq: "mean' = mean" "logvar' = logvar" by simp_all
    from z z' eq have "z' = z" by simp
    with h s a z'(2) eq show ?thesis by (intro exI [of _ h] conjI) simp_all
  qed
  then obtain h where h: "inference_net (zero_model L) x = Inr h"
    and sz: "shape z = [b, L]" and sm: "shape mean = [b, L]" and sl: "shape logvar = [b, L]"
    and a: "\<forall>i < b. \<forall>j < L. at2 mean i j = at2 h i j \<and> at2 logvar i j = at2 h i (L + j)"
    by (elim exE conjE)
  from h inference_net_zero_model [OF x(1), of L]
  have hv: "h = \<lparr>shape = [b, 2 * L], data = replicate (b * (2 * L)) 0\<rparr>" by simp
  have h0: "at2 h i j = 0" if "i < b" "j < 2 * L" for i j
  proof -
    from latent_index [OF that] show ?thesis by (simp add: at2_def hv)
  qed
  have ml: "at2 mean i j = 0 \<and> at2 logvar i j = 0" if "i < b" "j < L" for i j
  proof -
    from that a have "at2 mean i j = at2 h i j" "at2 logvar i j = at2 h i (L + j)" by simp_all
    moreover from that have "at2 h i j = 0" "at2 h i (L + j) = 0" by (simp_all add: h0)
    ultimately show ?thesis by simp
  qed
  have gauss: "logqz_x z mean logvar i = logpz z i" if "i < b" for i
    unfolding logqz_x_def logpz_def using that by (intro sum.cong refl) (simp add: sz ml)
  from d generative_net_zero_model [OF sz]
  have xl: "x_logit = \<lparr>shape = [b, 28, 28, 1], data = replicate (b * 784) 0\<rparr>"
    by (simp add: decode_def)
  have l0: "at4 x_logit i r c k = 0" if "i < b" "r < 28" "c < 28" "k < 1" for i r c k
  proof -
    from pixel_index [OF that(1-3)] that(4) show ?thesis by (simp add: at4_def xl)
  qed
  have px: "logpx_z x_logit x i = - (784 * ln 2)" if "i < b" for i
  proof -
    have "(\<Sum>r < 28. \<Sum>c < 28. \<Sum>k < 1.
              cross_entropy_with_logit (at4 x_logit i r c k) (at4 x i r c k))
          = (\<Sum>r < (28::nat). \<Sum>c < (28::nat). \<Sum>k < (1::nat). ln 2)"
      using that by (intro sum.cong refl) (simp add: l0 cross_entropy_logit_zero)
    also have "\<dots> = 784 * ln 2" by simp
    finally show ?thesis by (simp add: logpx_z_def x(1))
  qed
  have "(\<Sum>i < b. logpx_z x_logit x i + logpz z i - logqz_x z mean logvar i)
        = (\<Sum>i < b. - (784 * ln 2))"
    by (intro sum.cong refl) (simp add: px gauss)
  also have "\<dots> = - (real b * (784 * ln 2))" by simp
  finally have "- ((\<Sum>i < b. logpx_z x_logit x i + logpz z i - logqz_x z mean logvar i) / real b)
      = 784 * ln 2"
    using b by simp
  with loss show ?thesis by simp
qed

lemma updated_example: "updated example_env epoch k model xs = model"
  by (induction xs arbitrary: k) (simp_all add: example_env_def)

lemma trained_model_example: "trained_model example_env ds n = zero_model 50"
  by (induction n) (simp_all add: updated_example, simp add: example_env_def)

lemma iterate_one:
  assumes "batch_size ds \<noteq> 0"
  shows "iterate ds [i] = [stack [elements ds ! i]]"
proof -
  have "chunks (batch_size ds) [elements ds ! i] = [[elements ds ! i]]"
    using assms
    by (simp add: chunks.simps [of "batch_size ds" "[elements ds ! i]"]
        chunks.simps [of "batch_size ds" "[]"])
  then show ?thesis by (simp add: iterate_def)
qed

lemma sigmoid_zero: "sigmoid 0 = 1 / 2"
  by (simp add: sigmoid_def)

text \<open>
  One train and one test image, the model whose networks return zeros, an optimizer that
  leaves it as it is: the run ends with that model after the 100 training passes; at the
  epochs 0 and 90 it prints the ELBO \<open>- 784 * ln 2\<close>, the negated loss of that model on the
  one test batch, and at epoch 90 it saves, under the name of the epoch, the 16 images of
  28 by 28 pixels that the decoder draws from the latent vectors, all pixels \<open>1 / 2\<close>, the
  sigmoid of the logit 0; it neither prints nor saves at epoch 5.
\<close>

theorem main_runs_100_epochs_evaluating_every_10th_witness:
  "load_data example_env = (example_train_raw, example_test_raw)
   \<and> shape example_train_raw = [1, 28, 28] \<and> well_shaped example_train_raw
   \<and> shape example_test_raw = [1, 28, 28] \<and> well_shaped example_test_raw
   \<and> is_CVAE (CVAE example_env 50) 50
   \<and> (\<forall>epoch. distinct (train_order example_env epoch) \<and> set (train_order example_env epoch) = {..<1})
   \<and> (\<forall>epoch. distinct (test_order example_env epoch) \<and> set (test_order example_env epoch) = {..<1})
   \<and> (\<exists>st. main example_env = Inr st
          \<and> model_v st = zero_model 50
          \<and> [epoch. Trained epoch \<leftarrow> events st] = [0..<100]
          \<and> Printed 0 (- (784 * ln 2)) \<in> set (events st)
          \<and> Printed 90 (- (784 * ln 2)) \<in> set (events st)
          \<and> \<not> (\<exists>v. Printed 90 v \<in> set (events st) \<and> v \<noteq> - (784 * ln 2))
          \<and> \<not> (\<exists>v. Printed 5 v \<in> set (events st))
          \<and> Saved ''image_at_epoch_0090.png''
               \<lparr>shape = [16, 28, 28, 1], data = replicate 12544 (1 / 2)\<rparr> \<in> set (events st)
          \<and> \<not> (\<exists>t. Saved (''image_at_epoch_'' @ format_04d 5 @ ''.png'') t \<in> set (events st)))"
proof -
  have h1: "load_data example_env = (example_train_raw, example_test_raw)"
    by (simp add: example_env_def)
  have h2: "shape example_train_raw = [1, 28, 28]" and h3: "well_shaped example_train_raw"
    and h4: "shape example_test_raw = [1, 28, 28]" and h5: "well_shaped example_test_raw"
    by (simp_all add: example_train_raw_def example_test_raw_def well_shaped_def)
  have h6: "is_CVAE (CVAE example_env 50) 50"
    by (simp add: example_env_def is_CVAE_zero_model)
  have h7: "\<forall>model noise x. is_CVAE model 50 \<longrightarrow> is_CVAE (apply_gradients example_env model noise x) 50"
    by (simp add: example_env_def)
  have h8: "\<forall>epoch. distinct (train_order example_env epoch) \<and> set (train_order example_env epoch) = {..<1}"
    and h9: "\<forall>epoch. distinct (test_order example_env epoch) \<and> set (test_order example_env epoch) = {..<1}"
    by (simp_all add: example_env_def lessThan_Suc)
  let ?half = "\<lparr>shape = [16, 28, 28, 1], data = replicate 12544 (1 / 2 :: real)\<rparr>"
  from main_runs_100_epochs_evaluating_every_10th [OF h1 h2 h3 h4 h5 h6 h7 h8 h9]
  obtain st elbo predictions train_dataset test_dataset where
    pd: "prepare_data (load_data example_env) = Inr (train_dataset, test_dataset)"
    and m: "main example_env = Inr st"
    and mv: "model_v st = trained_model example_env train_dataset 100"
    and t: "[epoch. Trained epoch \<leftarrow> events st] = [0..<100]"
    and p: "\<forall>epoch < 100. (\<exists>v. Printed epoch v \<in> set (events st)) \<longleftrightarrow> epoch mod 10 = 0"
    and s: "\<forall>epoch < 100.
              (\<exists>t. Saved (''image_at_epoch_'' @ format_04d epoch @ ''.png'') t \<in> set (events st))
              \<longleftrightarrow> epoch mod 10 = 0"
    and pu: "\<forall>epoch v. Printed epoch v \<in> set (events st) \<longrightarrow> v = elbo epoch"
    and e: "\<forall>epoch < 100. epoch mod 10 = 0 \<longrightarrow>
              Printed epoch (elbo epoch) \<in> set (events st)
            \<and> Saved (''image_at_epoch_'' @ format_04d epoch @ ''.png'') (predictions epoch)
                \<in> set (events st)
            \<and> (\<exists>losses.
                  length losses = length (iterate test_dataset (test_order example_env epoch))
                \<and> (\<forall>k < length losses.
                      compute_loss (trained_model example_env train_dataset (Suc epoch))
                        (test_noise example_env epoch k)
                        (iterate test_dataset (test_order example_env epoch) ! k)
                      = Inr (scalar (losses ! k)))
                \<and> elbo epoch = - (if losses = [] then 0
                                   else sum_list losses / real (length losses)))
            \<and> (\<exists>logits.
                  generative_net (trained_model example_env train_dataset (Suc epoch))
                    (random_normal (generation_noise example_env) [16, 50]) = Inr logits
                \<and> shape logits = [16, 28, 28, 1]
                \<and> predictions epoch = tmap sigmoid logits)"
    by (elim exE conjE)
  from pd h1 have pd': "prepare_data (example_train_raw, example_test_raw)
      = Inr (train_dataset, test_dataset)" by simp
  have bs: "batch_size test_dataset \<noteq> 0"
    using prepare_data_Inr(4) [OF pd'] by simp
  have el: "\<forall>t \<in> set (elements test_dataset). shape t = [28, 28, 1] \<and> well_shaped t"
    by (rule prepared_elements_shaped(2) [OF pd' h3 h5])
  have len: "length (elements test_dataset) = 1"
    using prepared_elements_shaped(4) [OF pd' h3 h5] h4 by simp
  have it: "iterate test_dataset (test_order example_env epoch)
        = [stack [elements test_dataset ! 0]]" for epoch
    using iterate_one [OF bs, of 0] by (simp add: example_env_def)
  have mem: "stack [elements test_dataset ! 0] \<in> set (iterate test_dataset [0])"
    using iterate_one [OF bs, of 0] by simp
  have sub: "set [0::nat] \<subseteq> {..<length (elements test_dataset)}"
    using len by simp
  from iterate_batches_shaped [OF el sub mem]
  obtain b where b: "0 < b" "shape (stack [elements test_dataset ! 0]) = [b, 28, 28, 1]"
    "well_shaped (stack [elements test_dataset ! 0])"
    by (elim exE conjE)
  have rv: "shape (random_normal (generation_noise example_env) [16, 50]) = [16, 50]"
    by (simp add: random_normal_def)
  have ev: "elbo epoch = - (784 * ln 2) \<and> predictions epoch = ?half"
    if ep: "epoch < 100" "epoch mod 10 = 0" for epoch
  proof -
    from e [THEN spec, THEN mp, THEN mp, OF ep] obtain losses logits where
      l: "length losses = length (iterate test_dataset (test_order example_env epoch))"
      and c: "\<forall>k < length losses.
                compute_loss (trained_model example_env train_dataset (Suc epoch))
                  (test_noise example_env epoch k)
                  (iterate test_dataset (test_order example_env epoch) ! k)
                = Inr (scalar (losses ! k))"
      and v: "elbo epoch = - (if losses = [] then 0 else sum_list losses / real (length losses))"
      and g: "generative_net (trained_model example_env train_dataset (Suc epoch))
                (random_normal (generation_noise example_env) [16, 50]) = Inr logits"
      and pr: "predictions epoch = tmap sigmoid logits"
      by (elim exE conjE)
    from l have l1: "length losses = 1" by (simp add: it)
    then obtain a where a: "losses = [a]" by (cases losses) simp_all
    from c have "compute_loss (zero_model 50) (test_noise example_env epoch 0)
        (stack [elements test_dataset ! 0]) = Inr (scalar a)"
      by (simp add: a it trained_model_example updated_example)
    with compute_loss_zero_model [OF b(2,3) b(1), of 50 "test_noise example_env epoch 0"]
    have "a = 784 * ln 2" by (simp add: scalar_def)
    with v a have 1: "elbo epoch = - (784 * ln 2)" by simp
    from g generative_net_zero_model [OF rv]
    have "logits = \<lparr>shape = [16, 28, 28, 1], data = replicate (16 * 784) 0\<rparr>"
      by (simp add: trained_model_example updated_example)
    with pr have 2: "predictions epoch = ?half"
      by (simp add: tmap_def sigmoid_zero)
    from 1 2 show ?thesis ..
  qed
  have ev0: "elbo 0 = - (784 * ln 2)" using ev [of 0] by simp
  have ev90: "elbo 90 = - (784 * ln 2)" "predictions 90 = ?half" using ev [of 90] by simp_all
  from e [THEN spec, of 0] have p0: "Printed 0 (- (784 * ln 2)) \<in> set (events st)"
    by (simp add: ev0)
  from e [THEN spec, of 90] have p90: "Printed 90 (- (784 * ln 2)) \<in> set (events st)"
    and "Saved (''image_at_epoch_'' @ format_04d 90 @ ''.png'') ?half \<in> set (events st)"
    by (simp_all add: ev90)
  then have s90: "Saved ''image_at_epoch_0090.png'' ?half \<in> set (events st)"
    by (simp add: format_examples)
  from pu [THEN spec, of 90] have u90:
    "\<not> (\<exists>v. Printed 90 v \<in> set (events st) \<and> v \<noteq> - (784 * ln 2))"
    by (simp add: ev90)
  from p have p5: "\<not> (\<exists>v. Printed 5 v \<in> set (events st))"
    by simp
  from s have "(\<exists>t. Saved (''image_at_epoch_'' @ format_04d 5 @ ''.png'') t \<in> set (events st))
      \<longleftrightarrow> (5::nat) mod 10 = 0"
    by (elim allE [of _ 5] impE) simp_all
  then have s5: "\<not> (\<exists>t. Saved (''image_at_epoch_'' @ format_04d 5 @ ''.png'') t \<in> set (events st))"
    by simp
  from mv have mz: "model_v st = zero_model 50" by (simp add: trained_model_example)
  from m mz t p0 p90 u90 p5 s90 s5 have "\<exists>st. main example_env = Inr st
          \<and> model_v st = zero_model 50
          \<and> [epoch. Trained epoch \<leftarrow> events st] = [0..<100]
          \<and> Printed 0 (- (784 * ln 2)) \<in> set (events st)
          \<and> Printed 90 (- (784 * ln 2)) \<in> set (events st)
          \<and> \<not> (\<exists>v. Printed 90 v \<in> set (events st) \<and> v \<noteq> - (784 * ln 2))
          \<and> \<not> (\<exists>v. Printed 5 v \<in> set (events st))
          \<and> Saved ''image_at_epoch_0090.png'' ?half \<in> set (events st)
          \<and> \<not> (\<exists>t. Saved (''image_at_epoch_'' @ format_04d 5 @ ''.png'') t \<in> set (events st))"
    by (intro exI [of _ st] conjI)
  with h1 h2 h3 h4 h5 h6 h8 h9 show ?thesis
    by (intro conjI)
qed

section \<open>The cross-entropy as a Bernoulli log-likelihood\<close>

text \<open>
  The formula that TensorFlow evaluates is the negated log-probability of the pixel \<open>z\<close>
  under a Bernoulli distribution of parameter \<open>sigmoid x\<close>.
\<close>

lemma ln_one_plus_exp_minus: "ln (1 + exp (- x)) = ln (1 + exp x) - (x::real)"
proof -
  have "1 + exp (- x) = exp (- x) * (1 + exp x)"
    by (simp add: algebra_simps exp_minus_inverse)
  then have "ln (1 + exp (- x)) = ln (exp (- x) * (1 + exp x))" by simp
  also have "\<dots> = ln (exp (- x)) + ln (1 + exp x)"
  proof -
    have "0 < 1 + exp x" by (simp add: add_pos_pos)
    then have "1 + exp x \<noteq> 0" by simp
    then show ?thesis by (simp add: ln_mult)
  qed
  finally show ?thesis by simp
qed

lemma cross_entropy_with_logit_bernoulli:
  "cross_entropy_with_logit x z = - (z * ln (sigmoid x) + (1 - z) * ln (1 - sigmoid x))"
proof -
  define l where "l = ln (1 + exp (- x))"
  have pos: "0 < 1 + exp (- x)" by (simp add: add_pos_pos)
  have s: "ln (sigmoid x) = - l"
    using pos by (simp add: sigmoid_def l_def ln_div)
  have "1 - sigmoid x = exp (- x) / (1 + exp (- x))"
    using pos by (simp add: sigmoid_def field_simps)
  then have t: "ln (1 - sigmoid x) = - x - l"
    using pos by (simp add: l_def ln_div)
  have rhs: "- (z * ln (sigmoid x) + (1 - z) * ln (1 - sigmoid x)) = x - x * z + l"
    unfolding s t by (simp add: algebra_simps)
  show ?thesis
  proof (cases "0 \<le> x")
    case True
    then show ?thesis unfolding rhs by (simp add: cross_entropy_with_logit_def l_def)
  next
    case False
    then have "cross_entropy_with_logit x z = - x * z + ln (1 + exp x)"
      by (simp add: cross_entropy_with_logit_def)
    also have "\<dots> = x - x * z + l"
      unfolding l_def ln_one_plus_exp_minus by simp
    finally show ?thesis unfolding rhs .
  qed
qed

end
